(* ===== verification/Prelude.thy ===== *)
theory Prelude
  imports Main "HOL-Library.Word" "HOL-Library.Multiset" "HOL-Library.Monad_Syntax"
begin

text \<open>
  Shared vocabulary of the development: the Go types of the sources as HOL types, the Go
  idioms that occur in every component (scan a slice for the first entry with a key, change or
  drop it, sort the slice), and the generic lemmas about them that the component theories use.

  Addresses are 160-bit words, hashes 256-bit words and byte slices lists of 8-bit words;
  \<^verbatim>\<open>*big.Int\<close> is \<^typ>\<open>int\<close>, \<^verbatim>\<open>uint64\<close> a 64-bit word.  A Go panic is the
  value None of an outer option type.
\<close>

type_synonym address = "160 word"
type_synonym hash = "256 word"
type_synonym bytes = "8 word list"
type_synonym uint64 = "64 word"
type_synonym uint8 = "8 word"

text \<open>The result of a Go function that returns a value and an error: Inl the message.\<close>
type_synonym 'a result = "string + 'a"

named_theorems keyed "facts about scanning, updating and deleting by key"
named_theorems sorting "facts about slices sorted with sort.Sort"

subsection \<open>Addresses, hashes and big integers\<close>

text \<open>common.Address.Hash().Big() and new(big.Int).SetBytes(addr.Bytes()).\<close>
definition address_big :: "address \<Rightarrow> int" where
  "address_big a = uint a"

text \<open>common.Hash.Big().\<close>
definition hash_big :: "hash \<Rightarrow> int" where
  "hash_big h = uint h"

text \<open>common.BigToAddress: the last twenty bytes of the absolute value.\<close>
definition BigToAddress :: "int \<Rightarrow> address" where
  "BigToAddress b = word_of_int \<bar>b\<bar>"

text \<open>common.BytesToAddress(randomHash[12:]): the low 160 bits of a hash.\<close>
definition hash_to_address :: "hash \<Rightarrow> address" where
  "hash_to_address h = ucast h"

text \<open>new(big.Int).SetBytes: bytes read as a big-endian natural number.\<close>
definition bytes_big :: "bytes \<Rightarrow> int" where
  "bytes_big bs = foldl (\<lambda>acc b. 256 * acc + uint b) 0 bs"

text \<open>The n low bytes of a number, most significant first (big.Int.FillBytes, Bytes of fixed types).\<close>
fun be_bytes :: "nat \<Rightarrow> int \<Rightarrow> bytes" where
  "be_bytes 0 x = []"
| "be_bytes (Suc n) x = be_bytes n (x div 256) @ [word_of_int (x mod 256)]"

text \<open>common.Hash.Bytes() and common.Address.Bytes().\<close>
definition hash_bytes :: "hash \<Rightarrow> bytes" where
  "hash_bytes h = be_bytes 32 (uint h)"

definition address_bytes :: "address \<Rightarrow> bytes" where
  "address_bytes a = be_bytes 20 (uint a)"

lemma length_be_bytes [simp]: "length (be_bytes n x) = n"
  by (induction n arbitrary: x) simp_all

lemma bytes_big_be_bytes: "bytes_big (be_bytes n x) = x mod 256 ^ n"
proof (induction n arbitrary: x)
  case (Suc n)
  have "uint (word_of_int (x mod 256) :: 8 word) = x mod 256"
    by (simp add: uint_word_of_int)
  moreover have "256 * (x div 256 mod 256 ^ n) + x mod 256 = x mod (256 * 256 ^ n)"
    by (simp add: zmod_zmult2_eq)
  ultimately show ?case
    using Suc [of "x div 256"] by (simp add: bytes_big_def)
qed (simp add: bytes_big_def)

lemma bytes_big_hash_bytes [simp]: "bytes_big (hash_bytes h) = hash_big h"
  using uint_lt2p [of h] by (simp add: hash_bytes_def hash_big_def bytes_big_be_bytes)

lemma bytes_big_address_bytes [simp]: "bytes_big (address_bytes a) = address_big a"
  using uint_lt2p [of a] by (simp add: address_bytes_def address_big_def bytes_big_be_bytes)

text \<open>
  big.Int.Div and big.Int.Mod: Euclidean division, whose remainder is never negative; a zero
  divisor panics.
\<close>
definition big_Div :: "int \<Rightarrow> int \<Rightarrow> int option" where
  "big_Div x y = (if y = 0 then None else if y > 0 then Some (x div y) else Some (- (x div (- y))))"

definition big_Mod :: "int \<Rightarrow> int \<Rightarrow> int option" where
  "big_Mod x y = (if y = 0 then None else Some (x mod \<bar>y\<bar>))"

lemma big_Div_Mod:
  "\<lbrakk>big_Div x y = Some q; big_Mod x y = Some m\<rbrakk> \<Longrightarrow> x = q * y + m \<and> 0 \<le> m \<and> m < \<bar>y\<bar>"
  using pos_mod_bound [of "\<bar>y\<bar>" x] pos_mod_sign [of "\<bar>y\<bar>" x]
    div_mult_mod_eq [of x y] div_mult_mod_eq [of x "- y"]
  by (auto simp: big_Div_def big_Mod_def split: if_splits)

lemma big_Div_pos [simp]: "0 < y \<Longrightarrow> big_Div x y = Some (x div y)"
  by (simp add: big_Div_def)

lemma big_Mod_pos [simp]: "0 < y \<Longrightarrow> big_Mod x y = Some (x mod y)"
  by (simp add: big_Mod_def)

text \<open>The zero value of common.Address.\<close>
abbreviation empty_address :: address where
  "empty_address \<equiv> 0"

lemma address_big_inject [simp]: "address_big a = address_big b \<longleftrightarrow> a = b"
  by (simp add: address_big_def word_uint_eq_iff)

lemma address_big_nonneg [simp]: "0 \<le> address_big a"
  by (simp add: address_big_def)

lemma address_big_less: "address_big a < 2 ^ 160"
  using uint_lt2p [of a] by (simp add: address_big_def)

lemma BigToAddress_address_big [simp]: "BigToAddress (address_big a) = a"
  by (simp add: BigToAddress_def address_big_def)

lemma bytes_big_nonneg: "0 \<le> bytes_big bs"
proof -
  have "0 \<le> acc \<Longrightarrow> 0 \<le> foldl (\<lambda>acc b. 256 * acc + uint b) acc bs" for acc
    by (induction bs arbitrary: acc) simp_all
  then show ?thesis by (simp add: bytes_big_def)
qed

subsection \<open>Scanning a slice for the first entry that satisfies a test\<close>

text \<open>
  Most operations of the sources are loops \<^verbatim>\<open>for i, v := range xs { if test(v) { ...; return } }\<close>:
  the body acts on the first entry that passes the test.  \<^const>\<open>find\<close> is the lookup,
  \<open>upd_first\<close> the mutation through the pointer \<^verbatim>\<open>v\<close>, and \<open>del_first\<close> the slice expression
  \<^verbatim>\<open>append(xs[:i], xs[i+1:]...)\<close>.
\<close>

fun upd_first :: "('a \<Rightarrow> bool) \<Rightarrow> ('a \<Rightarrow> 'a) \<Rightarrow> 'a list \<Rightarrow> 'a list" where
  "upd_first P f [] = []"
| "upd_first P f (x # xs) = (if P x then f x # xs else x # upd_first P f xs)"

fun del_first :: "('a \<Rightarrow> bool) \<Rightarrow> 'a list \<Rightarrow> 'a list" where
  "del_first P [] = []"
| "del_first P (x # xs) = (if P x then xs else x # del_first P xs)"

text \<open>The index of the first entry that passes the test, if there is one.\<close>
fun index_first :: "('a \<Rightarrow> bool) \<Rightarrow> 'a list \<Rightarrow> nat option" where
  "index_first P [] = None"
| "index_first P (x # xs) = (if P x then Some 0 else map_option Suc (index_first P xs))"

lemma find_None_iff_list_ex: "find P xs = None \<longleftrightarrow> \<not> list_ex P xs"
  by (induction xs) auto

lemma find_SomeD: "find P xs = Some x \<Longrightarrow> x \<in> set xs \<and> P x"
  by (induction xs) (auto split: if_splits)

lemma list_ex_find: "list_ex P xs \<longleftrightarrow> (\<exists>x. find P xs = Some x)"
  by (induction xs) auto

lemma upd_first_id [keyed]: "\<not> list_ex P xs \<Longrightarrow> upd_first P f xs = xs"
  by (induction xs) auto

lemma del_first_id [keyed]: "\<not> list_ex P xs \<Longrightarrow> del_first P xs = xs"
  by (induction xs) auto

lemma map_key_upd_first [keyed]:
  "(\<And>x. key (f x) = key x) \<Longrightarrow> map key (upd_first P f xs) = map key xs"
  by (induction xs) auto

lemma map_key_del_first [keyed]:
  "map key (del_first (\<lambda>x. key x = k) xs) = remove1 k (map key xs)"
  by (induction xs) auto

lemma set_upd_first: "set (upd_first P f xs) \<subseteq> set xs \<union> f ` {x \<in> set xs. P x}"
  by (induction xs) auto

lemma set_del_first: "set (del_first P xs) \<subseteq> set xs"
  by (induction xs) auto

lemma find_upd_first [keyed]:
  assumes "\<And>x. key (f x) = key x"
  shows "find (\<lambda>x. key x = k') (upd_first (\<lambda>x. key x = k) f xs) =
    (if k' = k then map_option f (find (\<lambda>x. key x = k) xs) else find (\<lambda>x. key x = k') xs)"
  using assms by (induction xs) auto

lemma find_del_first [keyed]:
  assumes "distinct (map key xs)"
  shows "find (\<lambda>x. key x = k') (del_first (\<lambda>x. key x = k) xs) =
    (if k' = k then None else find (\<lambda>x. key x = k') xs)"
  using assms by (induction xs) (auto simp: find_None_iff image_iff)

lemma find_key_None: "find (\<lambda>x. key x = k) xs = None \<longleftrightarrow> k \<notin> key ` set xs"
  by (auto simp: find_None_iff)

lemma distinct_snoc_key [keyed]:
  "\<not> list_ex (\<lambda>x. key x = key y) xs \<Longrightarrow>
    distinct (map key (xs @ [y])) \<longleftrightarrow> distinct (map key xs)"
  by (auto simp: list_ex_iff)

lemma key_set_del_first [keyed]:
  assumes "distinct (map key xs)"
  shows "key ` set (del_first (\<lambda>x. key x = k) xs) = key ` set xs - {k}"
  using assms map_key_del_first [of key k xs] by (metis list.set_map set_remove1_eq)

lemma mem_upd_first:
  assumes "distinct (map key xs)"
  shows "y \<in> set (upd_first (\<lambda>x. key x = k) f xs) \<longleftrightarrow>
    (key y \<noteq> k \<and> y \<in> set xs) \<or> (\<exists>x \<in> set xs. key x = k \<and> y = f x)"
  using assms by (induction xs) (auto simp: image_iff)

lemma mem_del_first:
  assumes "distinct (map key xs)"
  shows "y \<in> set (del_first (\<lambda>x. key x = k) xs) \<longleftrightarrow> y \<in> set xs \<and> key y \<noteq> k"
  using assms by (induction xs) (auto simp: image_iff)

lemma find_append: "find P (xs @ ys) = (case find P xs of None \<Rightarrow> find P ys | Some x \<Rightarrow> Some x)"
  by (induction xs) auto

lemma find_member [keyed]:
  assumes "distinct (map key xs)" "x \<in> set xs"
  shows "find (\<lambda>y. key y = key x) xs = Some x"
  using assms by (induction xs) (auto simp: image_iff)

lemma sum_upd_first [keyed]:
  fixes w :: "'a \<Rightarrow> int"
  assumes "find P xs = Some x"
  shows "sum_list (map w (upd_first P f xs)) = sum_list (map w xs) + (w (f x) - w x)"
  using assms by (induction xs) (auto split: if_splits)

lemma sum_del_first [keyed]:
  fixes w :: "'a \<Rightarrow> int"
  assumes "find P xs = Some x"
  shows "sum_list (map w (del_first P xs)) = sum_list (map w xs) - w x"
  using assms by (induction xs) (auto split: if_splits)

lemma sum_foldl: "foldl (\<lambda>total x. total + w x) (acc::int) xs = acc + sum_list (map w xs)"
  by (induction xs arbitrary: acc) simp_all

lemma mset_upd_first:
  assumes "find P xs = Some x"
  shows "mset (upd_first P f xs) = mset xs - {#x#} + {#f x#}"
  using assms
proof (induction xs)
  case (Cons y ys)
  then show ?case
    using find_SomeD [of P ys x]
    by (auto split: if_splits simp: multi_member_split diff_union_swap2)
qed simp

lemma mset_del_first:
  assumes "find P xs = Some x"
  shows "mset (del_first P xs) = mset xs - {#x#}"
  using assms
proof (induction xs)
  case (Cons y ys)
  then show ?case
    using find_SomeD [of P ys x]
    by (auto split: if_splits simp: diff_union_swap2)
qed simp

lemma length_upd_first [simp]: "length (upd_first P f xs) = length xs"
  by (induction xs) auto

lemma length_del_first: "length (del_first P xs) = length xs - (if list_ex P xs then 1 else 0)"
proof (induction xs)
  case (Cons y ys)
  then show ?case by (cases ys) auto
qed simp

lemma index_first_Some:
  "index_first P xs = Some i \<Longrightarrow> i < length xs \<and> P (xs ! i) \<and> (\<forall>j<i. \<not> P (xs ! j))"
proof (induction xs arbitrary: i)
  case (Cons x xs)
  then show ?case
    by (cases i) (auto split: if_splits simp: less_Suc_eq_0_disj)
qed simp

lemma index_first_None: "index_first P xs = None \<longleftrightarrow> \<not> list_ex P xs"
  by (induction xs) auto

text \<open>Deleting through the slice expression at the index found.\<close>
lemma del_first_index:
  "del_first P xs =
    (case index_first P xs of Some i \<Rightarrow> take i xs @ drop (Suc i) xs | None \<Rightarrow> xs)"
  by (induction xs) (auto split: option.split)

subsection \<open>sort.Sort\<close>

text \<open>
  Go's sort.Sort permutes a slice until no later entry is Less than an earlier one.  The model
  is insertion sort by the Less predicate.  \<open>sort_unique\<close> below shows that where Less decides
  every two distinct entries this is the only possible outcome, so nothing depends on the
  algorithm chosen.
\<close>

fun insert_by :: "('a \<Rightarrow> 'a \<Rightarrow> bool) \<Rightarrow> 'a \<Rightarrow> 'a list \<Rightarrow> 'a list" where
  "insert_by lt x [] = [x]"
| "insert_by lt x (y # ys) = (if lt y x then y # insert_by lt x ys else x # y # ys)"

fun sort_Sort :: "('a \<Rightarrow> 'a \<Rightarrow> bool) \<Rightarrow> 'a list \<Rightarrow> 'a list" where
  "sort_Sort lt [] = []"
| "sort_Sort lt (x # xs) = insert_by lt x (sort_Sort lt xs)"

text \<open>No later entry is Less than an earlier one.\<close>
abbreviation sorted_by :: "('a \<Rightarrow> 'a \<Rightarrow> bool) \<Rightarrow> 'a list \<Rightarrow> bool" where
  "sorted_by lt \<equiv> sorted_wrt (\<lambda>x y. \<not> lt y x)"

lemma mset_insert_by [simp]: "mset (insert_by lt x xs) = add_mset x (mset xs)"
  by (induction xs) auto

lemma mset_sort_Sort [simp]: "mset (sort_Sort lt xs) = mset xs"
  by (induction xs) auto

lemma set_sort_Sort [simp]: "set (sort_Sort lt xs) = set xs"
  by (metis mset_sort_Sort set_mset_mset)

lemma set_insert_by [simp]: "set (insert_by lt x xs) = insert x (set xs)"
  by (metis mset_insert_by set_mset_add_mset_insert set_mset_mset)

lemma length_sort_Sort [simp]: "length (sort_Sort lt xs) = length xs"
  by (metis mset_sort_Sort size_mset)

lemma sum_sort_Sort [simp]:
  fixes w :: "'a \<Rightarrow> int"
  shows "sum_list (map w (sort_Sort lt xs)) = sum_list (map w xs)"
  by (metis mset_map mset_sort_Sort sum_mset_sum_list)

lemma distinct_map_sort_Sort [simp]:
  "distinct (map key (sort_Sort lt xs)) = distinct (map key xs)"
  by (metis mset_eq_imp_distinct_iff mset_map mset_sort_Sort)

lemma list_ex_sort_Sort [simp]: "list_ex P (sort_Sort lt xs) = list_ex P xs"
  by (simp add: list_ex_iff)

text \<open>
  The lookup by key does not depend on the order of a slice whose keys are distinct.
\<close>
lemma find_key_perm:
  assumes "mset xs = mset ys" "distinct (map key xs)"
  shows "find (\<lambda>x. key x = k) xs = find (\<lambda>x. key x = k) ys"
proof (cases "find (\<lambda>x. key x = k) ys")
  case None
  then show ?thesis
    using assms(1) by (metis find_None_iff2 find_None_iff set_mset_mset)
next
  case (Some y)
  then have "y \<in> set xs" "key y = k"
    using assms(1) find_SomeD [OF Some] by (metis set_mset_mset, simp)
  then show ?thesis
    using find_member [OF assms(2), of y] Some by simp
qed

lemma find_sort_Sort [keyed]:
  assumes "distinct (map key xs)"
  shows "find (\<lambda>x. key x = k) (sort_Sort lt xs) = find (\<lambda>x. key x = k) xs"
  by (rule find_key_perm) (simp_all add: assms)

text \<open>The contract of sort.Interface.Less: a strict weak order.\<close>

locale sort_interface =
  fixes lt :: "'a \<Rightarrow> 'a \<Rightarrow> bool"
  assumes less_asym: "lt x y \<Longrightarrow> \<not> lt y x"
    and less_negtrans: "lt x z \<Longrightarrow> lt x y \<or> lt y z"
begin

lemma less_irrefl: "\<not> lt x x"
  using less_asym by blast

lemma sorted_insert_by: "sorted_by lt xs \<Longrightarrow> sorted_by lt (insert_by lt x xs)"
proof (induction xs)
  case (Cons y ys)
  then show ?case
    by (auto dest: less_asym less_negtrans)
qed simp

lemma sorted_sort_Sort: "sorted_by lt (sort_Sort lt xs)"
  by (induction xs) (simp_all add: sorted_insert_by)

lemma sort_sorted_id: "sorted_by lt xs \<Longrightarrow> sort_Sort lt xs = xs"
proof (induction xs)
  case (Cons x xs)
  then show ?case by (cases xs) auto
qed simp

text \<open>
  Two slices with the same entries, both in Less order, are equal when Less decides every two
  distinct entries: the result of sort.Sort is determined.
\<close>
lemma sorted_unique:
  assumes "mset xs = mset ys" "sorted_by lt xs" "sorted_by lt ys"
    and total: "\<And>x y. \<lbrakk>x \<in> set xs; y \<in> set xs; x \<noteq> y\<rbrakk> \<Longrightarrow> lt x y \<or> lt y x"
  shows "xs = ys"
  using assms
proof (induction xs arbitrary: ys)
  case (Cons x xs)
  from Cons.prems(1) obtain y ys' where ys: "ys = y # ys'"
    by (cases ys) auto
  have "x \<in> set (y # ys')" "y \<in> set (x # xs)"
    using Cons.prems(1) ys by (metis list.set_intros(1) set_mset_mset)+
  then have "x = y"
    using Cons.prems(2,3) Cons.prems(4) [of x y] ys by auto
  moreover have "xs = ys'"
    using Cons.IH [of ys'] Cons.prems ys calculation by auto
  ultimately show ?case using ys by simp
qed simp

lemma sort_unique:
  assumes "mset ys = mset xs" "sorted_by lt ys"
    and "\<And>x y. \<lbrakk>x \<in> set xs; y \<in> set xs; x \<noteq> y\<rbrakk> \<Longrightarrow> lt x y \<or> lt y x"
  shows "ys = sort_Sort lt xs"
proof (rule sorted_unique)
  have "set ys = set xs" using assms(1) by (rule mset_eq_setD)
  then show "\<lbrakk>x \<in> set ys; y \<in> set ys; x \<noteq> y\<rbrakk> \<Longrightarrow> lt x y \<or> lt y x" for x y
    using assms(3) by simp
qed (simp_all add: assms(1,2) sorted_sort_Sort)

end

subsection \<open>sort.Search\<close>

text \<open>The binary search of sort.Search on the interval from i to j.\<close>
function search_loop :: "(nat \<Rightarrow> bool) \<Rightarrow> nat \<Rightarrow> nat \<Rightarrow> nat" where
  "search_loop f i j =
    (if i < j
     then let h = (i + j) div 2 in
       if \<not> f h then search_loop f (h + 1) j else search_loop f i h
     else i)"
  by pat_completeness auto
termination
  by (relation "measure (\<lambda>(f, i, j). j - i)") auto

declare search_loop.simps [simp del]

definition sort_Search :: "nat \<Rightarrow> (nat \<Rightarrow> bool) \<Rightarrow> nat" where
  "sort_Search n f = search_loop f 0 n"

text \<open>On a monotone test the search returns the least index that passes, n if there is none.\<close>
lemma search_loop_least:
  assumes mono: "\<And>x y. \<lbrakk>f x; x \<le> y; y < n\<rbrakk> \<Longrightarrow> f y"
    and "i \<le> j" "j \<le> n" "\<And>x. x < i \<Longrightarrow> \<not> f x" "\<And>x. \<lbrakk>j \<le> x; x < n\<rbrakk> \<Longrightarrow> f x"
  shows "search_loop f i j \<le> n \<and> (\<forall>x < search_loop f i j. \<not> f x) \<and>
    (\<forall>x. search_loop f i j \<le> x \<and> x < n \<longrightarrow> f x)"
  using assms(2-)
proof (induction "j - i" arbitrary: i j rule: less_induct)
  case less
  show ?case
  proof (cases "i < j")
    case True
    let ?h = "(i + j) div 2"
    have h: "i \<le> ?h" "?h < j" using True by auto
    show ?thesis
    proof (cases "f ?h")
      case False
      have "\<not> f x" if "x < ?h + 1" for x
        using that False mono [of x ?h] h less.prems(2) by auto
      then have "search_loop f (?h + 1) j \<le> n \<and> (\<forall>x < search_loop f (?h + 1) j. \<not> f x) \<and>
          (\<forall>x. search_loop f (?h + 1) j \<le> x \<and> x < n \<longrightarrow> f x)"
        using h less.prems by (intro less.hyps) auto
      then show ?thesis using True False by (simp add: search_loop.simps [of f i j])
    next
      case fh: True
      have "f x" if "?h \<le> x" "x < n" for x
        using that fh mono [of ?h x] by auto
      then have "search_loop f i ?h \<le> n \<and> (\<forall>x < search_loop f i ?h. \<not> f x) \<and>
          (\<forall>x. search_loop f i ?h \<le> x \<and> x < n \<longrightarrow> f x)"
        using h less.prems by (intro less.hyps) auto
      then show ?thesis using True fh by (simp add: search_loop.simps [of f i j])
    qed
  next
    case False
    then have "i = j" using less.prems(1) by simp
    then show ?thesis using False less.prems by (auto simp: search_loop.simps [of f j j])
  qed
qed

lemma sort_Search_least:
  assumes "\<And>x y. \<lbrakk>f x; x \<le> y; y < n\<rbrakk> \<Longrightarrow> f y"
  shows "sort_Search n f \<le> n" "\<And>x. x < sort_Search n f \<Longrightarrow> \<not> f x"
    "sort_Search n f < n \<Longrightarrow> f (sort_Search n f)"
  using search_loop_least [of f n 0 n] assms by (auto simp: sort_Search_def)

end
