(* ===== verification/Econ_Params.thy ===== *)
theory Econ_Params
  imports Prelude
begin

text \<open>
  The economic constants of core/types/economic_params.go and core/types/emptyblock.go.
  Amounts are in wei (1 ERB = 10^18 wei).
\<close>

definition baseErb :: int where
  "baseErb = 1000000000000000000"

definition MintDeepStorageAddress :: address where
  "MintDeepStorageAddress = 0x0000000000000000000000000000000000000001"

definition ValidatorStorageAddress :: address where
  "ValidatorStorageAddress = 0x0000000000000000000000000000000000000002"

definition StakerStorageAddress :: address where
  "StakerStorageAddress = 0x0000000000000000000000000000000000000003"

definition VoteContractAddress :: address where
  "VoteContractAddress = 0x0000000000000000000000000000000000000010"

definition VoteAmountEachBlock :: int where
  "VoteAmountEachBlock = 800000000000000000"

definition DREBlockReward :: int where
  "DREBlockReward = 543600000000000000"

definition PercentageValidatorReward :: int where
  "PercentageValidatorReward = 7"

definition ReduceRewardPeriod :: uint64 where
  "ReduceRewardPeriod = 365 * 720 * 24"

definition ExchangePeriod :: uint64 where
  "ExchangePeriod = 6160"

definition SNFTL0 :: int where
  "SNFTL0 = 30000000000000000"

definition SNFTL1 :: int where
  "SNFTL1 = 60000000000000000"

definition SNFTL2 :: int where
  "SNFTL2 = 180000000000000000"

definition SNFTL3 :: int where
  "SNFTL3 = 1000000000000000000"

definition CancelDayPledgedInterval :: int where
  "CancelDayPledgedInterval = 720 * 24 * 30"

definition ConsensusValidatorsNum :: nat where
  "ConsensusValidatorsNum = 11"

definition ValidatorRewardNum :: nat where
  "ValidatorRewardNum = 7"

definition StakerRewardNum :: nat where
  "StakerRewardNum = 4"

definition DefaultNumber :: uint64 where
  "DefaultNumber = 4096"

text \<open>The prefix of the input data of a staking or CSBT transaction.\<close>
definition TransactionType :: string where
  "TransactionType = ''erbie:''"

definition TransactionTypeLen :: nat where
  "TransactionTypeLen = 6"

definition StakerBase :: int where
  "StakerBase = 350 * baseErb"

definition ValidatorBase :: int where
  "ValidatorBase = 35000 * baseErb"

text \<open>DEFAULT_VALIDATOR_COEFFICIENT of emptyblock.go, the maximal validator coefficient.\<close>
definition DEFAULT_VALIDATOR_COEFFICIENT :: uint8 where
  "DEFAULT_VALIDATOR_COEFFICIENT = 70"

lemmas econ_defs = baseErb_def StakerBase_def ValidatorBase_def CancelDayPledgedInterval_def
  DEFAULT_VALIDATOR_COEFFICIENT_def

lemma StakerBase_pos [simp]: "0 < StakerBase"
  by (simp add: econ_defs)

lemma ValidatorBase_pos [simp]: "0 < ValidatorBase"
  by (simp add: econ_defs)

text \<open>A validator's threshold is a hundred times the least stake.\<close>
lemma ValidatorBase_StakerBase: "ValidatorBase = 100 * StakerBase"
  by (simp add: econ_defs)

end
