(* ===== verification/Pledge_Lists.thy ===== *)
theory Pledge_Lists
  imports Econ_Params
begin

text \<open>
  The two pledge lists of an account (core/types/stake_extension.go and
  core/types/validator_extension.go): \<^verbatim>\<open>StakersExtensionList\<close> records whom an account has
  pledged to, \<^verbatim>\<open>ValidatorsExtensionList\<close> who has pledged to a validator.  Both promise the
  same thing, a ledger from addresses to pledged amounts; the locale \<open>pledge_ledger\<close> states
  that contract, its client lemmas are proved once, and both lists are interpretations of it.

  The Go structs have the slice as their only field and are identified with it; a nil slice
  and an empty one behave alike in every method.  The methods that change the list return the
  Boolean result together with the list.  DeepCopy makes fresh pointers to equal values.
\<close>

subsection \<open>The contract of a pledge ledger\<close>

locale pledge_ledger =
  fixes inv :: "'l \<Rightarrow> bool"
    and exist :: "'l \<Rightarrow> address \<Rightarrow> bool"
    and get :: "'l \<Rightarrow> address \<Rightarrow> int"
    and total :: "'l \<Rightarrow> int"
    and add :: "'l \<Rightarrow> address \<Rightarrow> int \<Rightarrow> int \<Rightarrow> bool \<times> 'l"
    and remove :: "'l \<Rightarrow> address \<Rightarrow> int \<Rightarrow> bool \<times> 'l"
    and cancel :: "'l \<Rightarrow> address \<Rightarrow> bool \<times> 'l"
  assumes inv_add: "inv l \<Longrightarrow> inv (snd (add l a b n))"
    and inv_remove: "inv l \<Longrightarrow> inv (snd (remove l a b))"
    and inv_cancel: "inv l \<Longrightarrow> inv (snd (cancel l a))"
    and get_absent: "\<not> exist l a \<Longrightarrow> get l a = 0"
    and exist_add: "exist (snd (add l a b n)) a' \<longleftrightarrow> a' = a \<or> exist l a'"
    and get_add: "get (snd (add l a b n)) a' = get l a' + (if a' = a then b else 0)"
    and total_add: "total (snd (add l a b n)) = total l + b"
    and remove_found: "fst (remove l a b) = exist l a"
    and exist_remove: "inv l \<Longrightarrow>
      exist (snd (remove l a b)) a' \<longleftrightarrow> exist l a' \<and> (a' = a \<longrightarrow> b < get l a)"
    and get_remove: "inv l \<Longrightarrow> get (snd (remove l a b)) a' =
      (if a' = a \<and> exist l a then if b < get l a then get l a - b else 0 else get l a')"
    and total_remove: "total (snd (remove l a b)) =
      (if exist l a then if b < get l a then total l - b else total l - get l a else total l)"
    and cancel_found: "fst (cancel l a) = exist l a"
    and exist_cancel: "inv l \<Longrightarrow> exist (snd (cancel l a)) a' \<longleftrightarrow> a' \<noteq> a \<and> exist l a'"
    and get_cancel: "inv l \<Longrightarrow> get (snd (cancel l a)) a' = (if a' = a then 0 else get l a')"
    and total_cancel: "total (snd (cancel l a)) = total l - get l a"
begin

text \<open>Every recorded pledge is positive.\<close>
definition solvent :: "'l \<Rightarrow> bool" where
  "solvent l \<longleftrightarrow> inv l \<and> (\<forall>a. exist l a \<longrightarrow> 0 < get l a)"

lemma solvent_nonneg: "solvent l \<Longrightarrow> 0 \<le> get l a"
  using get_absent [of l a] by (cases "exist l a") (auto simp: solvent_def intro: less_imp_le)

lemma solvent_exist_iff: "solvent l \<Longrightarrow> exist l a \<longleftrightarrow> 0 < get l a"
  using get_absent [of l a] by (cases "exist l a") (auto simp: solvent_def)

lemma solvent_add: "\<lbrakk>solvent l; 0 < get l a + b\<rbrakk> \<Longrightarrow> solvent (snd (add l a b n))"
  by (auto simp: solvent_def inv_add exist_add get_add)

lemma solvent_remove: "solvent l \<Longrightarrow> solvent (snd (remove l a b))"
  by (auto simp: solvent_def inv_remove exist_remove get_remove)

lemma solvent_cancel: "solvent l \<Longrightarrow> solvent (snd (cancel l a))"
  by (auto simp: solvent_def inv_cancel exist_cancel get_cancel)

text \<open>Taking back what was pledged restores every balance and the total.\<close>
lemma remove_add:
  assumes "solvent l" "0 < b"
  shows "get (snd (remove (snd (add l a b n)) a b)) a' = get l a'"
    and "total (snd (remove (snd (add l a b n)) a b)) = total l"
  using assms solvent_nonneg [OF assms(1), of a]
  by (auto simp: solvent_def get_remove inv_add exist_add get_add total_remove total_add)

text \<open>Removing the whole pledge is the same as cancelling it.\<close>
lemma remove_all_cancel:
  assumes "inv l"
  shows "exist (snd (remove l a (get l a))) a' = exist (snd (cancel l a)) a'"
    and "get (snd (remove l a (get l a))) a' = get (snd (cancel l a)) a'"
    and "total (snd (remove l a (get l a))) = total (snd (cancel l a))"
  using assms get_absent [of l a]
  by (auto simp: exist_remove exist_cancel get_remove get_cancel total_remove total_cancel)

text \<open>A withdrawal of at most the pledge leaves exactly the difference.\<close>
lemma get_remove_le:
  assumes "inv l" "exist l a" "b \<le> get l a"
  shows "get (snd (remove l a b)) a = get l a - b"
    and "total (snd (remove l a b)) = total l - b"
  using assms by (auto simp: get_remove total_remove)

end

subsection \<open>Ledgers kept as a slice of entries\<close>

text \<open>
  Both lists implement the ledger in the same way: a slice of entries with an address and a
  balance, scanned from the front.  \<open>credit\<close> and \<open>debit\<close> are what the loop bodies do to the
  entry found.  The implementation satisfies the contract, whatever the entry type.
\<close>

locale pledge_slice =
  fixes Addr :: "'e \<Rightarrow> address" and Balance :: "'e \<Rightarrow> int"
    and mk :: "address \<Rightarrow> int \<Rightarrow> int \<Rightarrow> 'e"
    and credit :: "int \<Rightarrow> int \<Rightarrow> 'e \<Rightarrow> 'e" and debit :: "int \<Rightarrow> 'e \<Rightarrow> 'e"
    and inv :: "'e list \<Rightarrow> bool"
    and exist :: "'e list \<Rightarrow> address \<Rightarrow> bool"
    and get :: "'e list \<Rightarrow> address \<Rightarrow> int"
    and total :: "'e list \<Rightarrow> int"
    and add :: "'e list \<Rightarrow> address \<Rightarrow> int \<Rightarrow> int \<Rightarrow> bool \<times> 'e list"
    and remove :: "'e list \<Rightarrow> address \<Rightarrow> int \<Rightarrow> bool \<times> 'e list"
    and cancel :: "'e list \<Rightarrow> address \<Rightarrow> bool \<times> 'e list"
  assumes mk [simp]: "Addr (mk a b n) = a" "Balance (mk a b n) = b"
    and credit [simp]: "Addr (credit b n e) = Addr e" "Balance (credit b n e) = Balance e + b"
    and debit [simp]: "Addr (debit b e) = Addr e" "Balance (debit b e) = Balance e - b"
    and inv_eq: "inv l = distinct (map Addr l)"
    and exist_eq: "exist l a = list_ex (\<lambda>v. Addr v = a) l"
    and get_eq: "get l a = (case find (\<lambda>v. Addr v = a) l of Some v \<Rightarrow> Balance v | None \<Rightarrow> 0)"
    and total_eq: "total l = sum_list (map Balance l)"
    and add_eq: "add l a b n = (True, if list_ex (\<lambda>v. Addr v = a) l
      then upd_first (\<lambda>v. Addr v = a) (credit b n) l else l @ [mk a b n])"
    and remove_eq: "remove l a b = (case find (\<lambda>v. Addr v = a) l of
        Some v \<Rightarrow> (True, if Balance v > b then upd_first (\<lambda>v. Addr v = a) (debit b) l
          else del_first (\<lambda>v. Addr v = a) l)
      | None \<Rightarrow> (False, l))"
    and cancel_eq: "cancel l a = (if list_ex (\<lambda>v. Addr v = a) l
      then (True, del_first (\<lambda>v. Addr v = a) l) else (False, l))"
begin

lemmas slice_eqs = inv_eq exist_eq get_eq total_eq add_eq remove_eq cancel_eq

lemma slice_add:
  "inv l \<Longrightarrow> inv (snd (add l a b n))"
  "exist (snd (add l a b n)) a' \<longleftrightarrow> a' = a \<or> exist l a'"
  "get (snd (add l a b n)) a' = get l a' + (if a' = a then b else 0)"
  "total (snd (add l a b n)) = total l + b"
     apply (auto simp: slice_eqs keyed list_ex_iff)[1]
    apply (auto simp: slice_eqs keyed list_ex_find find_append split: option.splits)[1]
   apply (auto simp: slice_eqs keyed list_ex_find find_append split: option.split)[1]
  apply (auto simp: slice_eqs keyed list_ex_find)
  done

lemma slice_remove:
  "inv l \<Longrightarrow> inv (snd (remove l a b))"
  "fst (remove l a b) = exist l a"
  "inv l \<Longrightarrow> exist (snd (remove l a b)) a' \<longleftrightarrow> exist l a' \<and> (a' = a \<longrightarrow> b < get l a)"
  "inv l \<Longrightarrow> get (snd (remove l a b)) a' =
      (if a' = a \<and> exist l a then if b < get l a then get l a - b else 0 else get l a')"
  "total (snd (remove l a b)) =
      (if exist l a then if b < get l a then total l - b else total l - get l a else total l)"
  by (auto simp: slice_eqs keyed list_ex_find split: option.split)

lemma slice_cancel:
  "inv l \<Longrightarrow> inv (snd (cancel l a))"
  "fst (cancel l a) = exist l a"
  "inv l \<Longrightarrow> exist (snd (cancel l a)) a' \<longleftrightarrow> a' \<noteq> a \<and> exist l a'"
  "inv l \<Longrightarrow> get (snd (cancel l a)) a' = (if a' = a then 0 else get l a')"
  "total (snd (cancel l a)) = total l - get l a"
  by (auto simp: slice_eqs keyed list_ex_find split: option.split)

lemma slice_absent: "\<not> exist l a \<Longrightarrow> get l a = 0"
  by (simp add: slice_eqs find_None_iff_list_ex [THEN iffD2])

end

sublocale pledge_slice \<subseteq> pledge_ledger inv exist get total add remove cancel
  by unfold_locales (simp_all add: slice_add slice_remove slice_cancel slice_absent)

subsection \<open>StakersExtensionList\<close>

record StakerExtension =
  se_Addr :: address
  se_Balance :: int
  se_BlockNumber :: int

type_synonym StakersExtensionList = "StakerExtension list"

definition NewStakerPledge :: "address \<Rightarrow> int \<Rightarrow> int \<Rightarrow> StakerExtension" where
  "NewStakerPledge addr balance blocknumber =
    \<lparr>se_Addr = addr, se_Balance = balance, se_BlockNumber = blocknumber\<rparr>"

definition sel_AddStakerPledge ::
    "StakersExtensionList \<Rightarrow> address \<Rightarrow> int \<Rightarrow> int \<Rightarrow> bool \<times> StakersExtensionList" where
  "sel_AddStakerPledge sl addr balance blocknumber =
    (if list_ex (\<lambda>v. se_Addr v = addr) sl
     then (True, upd_first (\<lambda>v. se_Addr v = addr)
       (\<lambda>v. v\<lparr>se_Balance := se_Balance v + balance, se_BlockNumber := blocknumber\<rparr>) sl)
     else (True, sl @ [\<lparr>se_Addr = addr, se_Balance = balance, se_BlockNumber = blocknumber\<rparr>]))"

definition sel_RemoveStakerPledge ::
    "StakersExtensionList \<Rightarrow> address \<Rightarrow> int \<Rightarrow> bool \<times> StakersExtensionList" where
  "sel_RemoveStakerPledge sl addr balance =
    (case find (\<lambda>v. se_Addr v = addr) sl of
       Some v \<Rightarrow>
         if se_Balance v > balance
         then (True, upd_first (\<lambda>v. se_Addr v = addr)
           (\<lambda>v. v\<lparr>se_Balance := se_Balance v - balance\<rparr>) sl)
         else (True, del_first (\<lambda>v. se_Addr v = addr) sl)
     | None \<Rightarrow> (False, sl))"

definition sel_CancelStakerPledge ::
    "StakersExtensionList \<Rightarrow> address \<Rightarrow> bool \<times> StakersExtensionList" where
  "sel_CancelStakerPledge sl addr =
    (if list_ex (\<lambda>v. se_Addr v = addr) sl
     then (True, del_first (\<lambda>v. se_Addr v = addr) sl)
     else (False, sl))"

definition sel_DeepCopy :: "StakersExtensionList \<Rightarrow> StakersExtensionList" where
  "sel_DeepCopy sl = map (\<lambda>staker. \<lparr>se_Addr = se_Addr staker, se_Balance = se_Balance staker,
    se_BlockNumber = se_BlockNumber staker\<rparr>) sl"

definition sel_IsExist :: "StakersExtensionList \<Rightarrow> address \<Rightarrow> bool" where
  "sel_IsExist sl addr = list_ex (\<lambda>staker. se_Addr staker = addr) sl"

definition sel_GetBalance :: "StakersExtensionList \<Rightarrow> address \<Rightarrow> int" where
  "sel_GetBalance sl addr =
    (case find (\<lambda>staker. se_Addr staker = addr) sl of Some staker \<Rightarrow> se_Balance staker | None \<Rightarrow> 0)"

definition sel_GetLen :: "StakersExtensionList \<Rightarrow> nat" where
  "sel_GetLen sl = length sl"

text \<open>Well-formedness: at most one entry per address.\<close>
definition sel_wf :: "StakersExtensionList \<Rightarrow> bool" where
  "sel_wf sl \<longleftrightarrow> distinct (map se_Addr sl)"

definition sel_total :: "StakersExtensionList \<Rightarrow> int" where
  "sel_total sl = sum_list (map se_Balance sl)"

lemmas sel_defs = NewStakerPledge_def sel_AddStakerPledge_def
  sel_RemoveStakerPledge_def sel_CancelStakerPledge_def sel_IsExist_def sel_GetBalance_def sel_wf_def sel_total_def

lemma sel_DeepCopy_id [simp]: "sel_DeepCopy sl = sl"
  by (simp add: sel_DeepCopy_def map_idI)

interpretation sel: pledge_slice se_Addr se_Balance NewStakerPledge
  "\<lambda>b n v. v\<lparr>se_Balance := se_Balance v + b, se_BlockNumber := n\<rparr>"
  "\<lambda>b v. v\<lparr>se_Balance := se_Balance v - b\<rparr>"
  sel_wf sel_IsExist sel_GetBalance sel_total
  sel_AddStakerPledge sel_RemoveStakerPledge sel_CancelStakerPledge
  by unfold_locales (simp_all add: sel_defs split: option.split)

subsection \<open>ValidatorsExtensionList\<close>

record ValidatorExtension =
  ve_Addr :: address
  ve_Balance :: int
  ve_BlockNumber :: int

type_synonym ValidatorsExtensionList = "ValidatorExtension list"

definition NewValidatorPledge :: "address \<Rightarrow> int \<Rightarrow> int \<Rightarrow> ValidatorExtension" where
  "NewValidatorPledge addr balance blocknumber =
    \<lparr>ve_Addr = addr, ve_Balance = balance, ve_BlockNumber = blocknumber\<rparr>"

definition vel_AddValidatorPledge ::
    "ValidatorsExtensionList \<Rightarrow> address \<Rightarrow> int \<Rightarrow> int \<Rightarrow> bool \<times> ValidatorsExtensionList" where
  "vel_AddValidatorPledge vl addr balance blocknumber =
    (if list_ex (\<lambda>v. ve_Addr v = addr) vl
     then (True, upd_first (\<lambda>v. ve_Addr v = addr)
       (\<lambda>v. v\<lparr>ve_Balance := ve_Balance v + balance, ve_BlockNumber := blocknumber\<rparr>) vl)
     else (True, vl @ [\<lparr>ve_Addr = addr, ve_Balance = balance, ve_BlockNumber = blocknumber\<rparr>]))"

definition vel_RemoveValidatorPledge ::
    "ValidatorsExtensionList \<Rightarrow> address \<Rightarrow> int \<Rightarrow> bool \<times> ValidatorsExtensionList" where
  "vel_RemoveValidatorPledge vl addr balance =
    (case find (\<lambda>v. ve_Addr v = addr) vl of
       Some v \<Rightarrow>
         if ve_Balance v > balance
         then (True, upd_first (\<lambda>v. ve_Addr v = addr)
           (\<lambda>v. v\<lparr>ve_Balance := ve_Balance v - balance\<rparr>) vl)
         else (True, del_first (\<lambda>v. ve_Addr v = addr) vl)
     | None \<Rightarrow> (False, vl))"

definition vel_CancelValidatorPledge ::
    "ValidatorsExtensionList \<Rightarrow> address \<Rightarrow> bool \<times> ValidatorsExtensionList" where
  "vel_CancelValidatorPledge vl addr =
    (if list_ex (\<lambda>v. ve_Addr v = addr) vl
     then (True, del_first (\<lambda>v. ve_Addr v = addr) vl)
     else (False, vl))"

definition vel_DeepCopy :: "ValidatorsExtensionList \<Rightarrow> ValidatorsExtensionList" where
  "vel_DeepCopy vl = map (\<lambda>staker. \<lparr>ve_Addr = ve_Addr staker, ve_Balance = ve_Balance staker,
    ve_BlockNumber = ve_BlockNumber staker\<rparr>) vl"

definition vel_IsExist :: "ValidatorsExtensionList \<Rightarrow> address \<Rightarrow> bool" where
  "vel_IsExist vl addr = list_ex (\<lambda>staker. ve_Addr staker = addr) vl"

definition vel_GetBalance :: "ValidatorsExtensionList \<Rightarrow> address \<Rightarrow> int" where
  "vel_GetBalance vl addr =
    (case find (\<lambda>staker. ve_Addr staker = addr) vl of Some staker \<Rightarrow> ve_Balance staker | None \<Rightarrow> 0)"

definition vel_GetLen :: "ValidatorsExtensionList \<Rightarrow> nat" where
  "vel_GetLen vl = length vl"

text \<open>Well-formedness: at most one entry per address.\<close>
definition vel_wf :: "ValidatorsExtensionList \<Rightarrow> bool" where
  "vel_wf vl \<longleftrightarrow> distinct (map ve_Addr vl)"

definition vel_GetAllBalance :: "ValidatorsExtensionList \<Rightarrow> int" where
  "vel_GetAllBalance vl = foldl (\<lambda>totalBalance staker. totalBalance + ve_Balance staker) 0 vl"

lemmas vel_defs = NewValidatorPledge_def vel_AddValidatorPledge_def
  vel_RemoveValidatorPledge_def vel_CancelValidatorPledge_def vel_IsExist_def vel_GetBalance_def vel_wf_def vel_GetAllBalance_def

lemma vel_DeepCopy_id [simp]: "vel_DeepCopy vl = vl"
  by (simp add: vel_DeepCopy_def map_idI)

interpretation vel: pledge_slice ve_Addr ve_Balance NewValidatorPledge
  "\<lambda>b n v. v\<lparr>ve_Balance := ve_Balance v + b, ve_BlockNumber := n\<rparr>"
  "\<lambda>b v. v\<lparr>ve_Balance := ve_Balance v - b\<rparr>"
  vel_wf vel_IsExist vel_GetBalance vel_GetAllBalance
  vel_AddValidatorPledge vel_RemoveValidatorPledge vel_CancelValidatorPledge
  by unfold_locales (simp_all add: vel_defs sum_foldl split: option.split)

end
