(* ===== verification/Weighted_Selection.thy ===== *)
theory Weighted_Selection
  imports Prelude
begin

text \<open>
  Random selection weighted by stake, as StakerList.SelectRandom4Address and
  ValidatorList.SelectRandom11AddressV2 do it: hash, reduce the hash modulo the total stake,
  take the first entry whose running total reaches the remainder, drop it from the pool and
  repeat.  The locale \<open>weighted_pool\<close> states what the two lists provide; its lemmas are the
  correctness of the selection loop.
\<close>

subsection \<open>One draw\<close>

text \<open>The scan of selectAddress over address/stake pairs with running total \<open>sm\<close>.\<close>
fun select_scan :: "(address \<times> int) list \<Rightarrow> int \<Rightarrow> int \<Rightarrow> address result" where
  "select_scan [] sm r = Inl ''select address error''"
| "select_scan ((a, b) # es) sm r =
    (if sm + b \<ge> r then Inr a else select_scan es (sm + b) r)"

abbreviation stakes :: "(address \<times> int) list \<Rightarrow> int" where
  "stakes es \<equiv> sum_list (map snd es)"

lemma stakes_nonneg: "\<forall>e \<in> set es. 0 < snd e \<Longrightarrow> 0 \<le> stakes es"
  by (induction es) auto

lemma stakes_zero_iff: "\<forall>e \<in> set es. 0 < snd e \<Longrightarrow> es = [] \<longleftrightarrow> stakes es = 0"
proof (cases es)
  case (Cons e es')
  then show "\<forall>e \<in> set es. 0 < snd e \<Longrightarrow> es = [] \<longleftrightarrow> stakes es = 0"
    using stakes_nonneg [of es'] by auto
qed simp

lemma select_scan_hit:
  assumes "r \<le> sm + stakes es" "es \<noteq> []"
  shows "\<exists>a \<in> fst ` set es. select_scan es sm r = Inr a"
  using assms
proof (induction es arbitrary: sm)
  case (Cons e es)
  obtain a b where "e = (a, b)" by fastforce
  with Cons show ?case
    by (cases "sm + b \<ge> r"; cases es) (auto simp: algebra_simps)
qed simp

text \<open>
  Which remainders choose the entry at position \<open>length xs\<close>: those above the total of the
  entries before it (any remainder, for the first entry) and at most that total plus its stake.
\<close>
lemma select_scan_interval:
  assumes "distinct (map fst (xs @ (a, b) # ys))" "\<forall>e \<in> set (xs @ (a, b) # ys). 0 < snd e"
  shows "select_scan (xs @ (a, b) # ys) sm r = Inr a \<longleftrightarrow>
    (xs = [] \<or> sm + stakes xs < r) \<and> r \<le> sm + stakes xs + b"
  using assms
proof (induction xs arbitrary: sm)
  case Nil
  have "select_scan ys (sm + b) r \<noteq> Inr a"
  proof -
    have "select_scan es s r \<noteq> Inr a" if "a \<notin> fst ` set es" for es s
      using that by (induction es arbitrary: s) (auto split: if_splits)
    then show ?thesis using Nil.prems(1) by simp
  qed
  then show ?case by simp
next
  case (Cons x xs)
  obtain a' b' where x: "x = (a', b')" by fastforce
  have pos: "0 \<le> stakes xs"
    using Cons.prems(2) by (simp add: stakes_nonneg)
  have ne: "a' \<noteq> a" using Cons.prems(1) x by auto
  show ?case
  proof (cases "sm + b' \<ge> r")
    case True
    then show ?thesis using x ne pos by auto
  next
    case False
    then show ?thesis
      using x Cons.IH [of "sm + b'"] Cons.prems by (auto simp: algebra_simps)
  qed
qed

text \<open>
  A remainder is drawn from \<open>0..total-1\<close>.  The number of remainders that choose an entry is its
  stake, one more for the first entry and one less for the last.
\<close>
lemma select_scan_count:
  assumes "distinct (map fst (xs @ (a, b) # ys))" "\<forall>e \<in> set (xs @ (a, b) # ys). 0 < snd e"
  shows "int (card {r. 0 \<le> r \<and> r < stakes (xs @ (a, b) # ys) \<and>
      select_scan (xs @ (a, b) # ys) 0 r = Inr a}) =
    b + (if xs = [] then 1 else 0) - (if ys = [] then 1 else 0)"
proof -
  let ?S = "stakes xs" and ?T = "stakes ys"
  have S: "0 \<le> ?S" "xs = [] \<longleftrightarrow> ?S = 0" and T: "0 \<le> ?T" "ys = [] \<longleftrightarrow> ?T = 0"
    using assms(2) by (simp_all add: stakes_nonneg stakes_zero_iff)
  have b: "0 < b" using assms(2) by auto
  have total: "stakes (xs @ (a, b) # ys) = ?S + b + ?T" by simp
  have "{r. 0 \<le> r \<and> r < stakes (xs @ (a, b) # ys) \<and> select_scan (xs @ (a, b) # ys) 0 r = Inr a} =
    {(if xs = [] then 0 else ?S + 1) .. (if ys = [] then ?S + b - 1 else ?S + b)}"
    unfolding select_scan_interval [OF assms] total using S T b
    by (cases "xs = []"; cases "ys = []") auto
  then show ?thesis using S T b by (cases "xs = []"; cases "ys = []") simp_all
qed

subsection \<open>The selection loop\<close>

locale weighted_pool =
  fixes wf :: "'p \<Rightarrow> bool"
    and entries :: "'p \<Rightarrow> (address \<times> int) list"
    and total :: "'p \<Rightarrow> int"
    and select :: "'p \<Rightarrow> int \<Rightarrow> address result"
    and discard :: "'p \<Rightarrow> address \<Rightarrow> 'p"
    and loop :: "(bytes \<Rightarrow> bytes) \<Rightarrow> nat \<Rightarrow> 'p \<Rightarrow> bytes \<Rightarrow> address list \<Rightarrow>
      address list result option"
  assumes wf_entries: "wf p \<Longrightarrow> distinct (map fst (entries p)) \<and> (\<forall>e \<in> set (entries p). 0 < snd e)"
    and total_entries: "total p = stakes (entries p)"
    and select_entries: "select p r = select_scan (entries p) 0 r"
    and wf_discard: "\<lbrakk>wf p; a \<in> fst ` set (entries p)\<rbrakk> \<Longrightarrow> wf (discard p a)"
    and discard_entries: "\<lbrakk>wf p; a \<in> fst ` set (entries p)\<rbrakk> \<Longrightarrow>
      fst ` set (entries (discard p a)) = fst ` set (entries p) - {a}"
    and loop_0: "loop keccak 0 p h acc = Some (Inr acc)"
    and loop_Suc: "loop keccak (Suc n) p h acc =
      (let h = keccak h in case big_Mod (bytes_big h) (total p) of
         None \<Rightarrow> None
       | Some r \<Rightarrow> (case select p r of
           Inl e \<Rightarrow> Some (Inl e)
         | Inr a \<Rightarrow> loop keccak n (discard p a) h (acc @ [a])))"
begin

abbreviation members :: "'p \<Rightarrow> address set" where
  "members p \<equiv> fst ` set (entries p)"

lemma total_pos: "\<lbrakk>wf p; entries p \<noteq> []\<rbrakk> \<Longrightarrow> 0 < total p"
  using wf_entries [of p] stakes_nonneg [of "entries p"] stakes_zero_iff [of "entries p"]
  by (simp add: total_entries)

lemma draw:
  assumes "wf p" "entries p \<noteq> []"
  obtains r a where "big_Mod x (total p) = Some r" "select p r = Inr a" "a \<in> members p"
proof -
  have "0 < total p" using assms by (rule total_pos)
  moreover from this have "x mod total p \<le> 0 + stakes (entries p)"
    using pos_mod_bound [of "total p" x] by (simp add: total_entries less_imp_le)
  ultimately show ?thesis
    using that [of "x mod total p"] select_scan_hit [of "x mod total p" 0 "entries p"] assms(2)
    by (auto simp: select_entries)
qed

text \<open>
  The loop never panics and never fails; it returns as many addresses as asked for, all
  different and all in the pool.
\<close>
lemma loop_selects:
  assumes "wf p" "n \<le> card (members p)"
  shows "\<exists>as. loop keccak n p h acc = Some (Inr (acc @ as)) \<and> length as = n \<and>
    distinct as \<and> set as \<subseteq> members p"
  using assms
proof (induction n arbitrary: p h acc)
  case 0
  then show ?case by (simp add: loop_0)
next
  case (Suc n)
  then have "entries p \<noteq> []" by auto
  with Suc.prems(1) obtain r a where
    r: "big_Mod (bytes_big (keccak h)) (total p) = Some r" "select p r = Inr a" and
    a: "a \<in> members p"
    by (rule draw)
  have "n \<le> card (members (discard p a))"
    using Suc.prems a by (simp add: discard_entries card_Diff_singleton)
  then obtain as where
    "loop keccak n (discard p a) (keccak h) (acc @ [a]) = Some (Inr ((acc @ [a]) @ as))"
    "length as = n" "distinct as" "set as \<subseteq> members (discard p a)"
    using Suc.IH wf_discard Suc.prems(1) a by blast
  then show ?case
    using r a Suc.prems(1)
    by (intro exI [of _ "a # as"]) (auto simp: loop_Suc discard_entries Let_def)
qed

text \<open>Asking for the whole pool returns a permutation of it.\<close>
lemma loop_all:
  assumes "wf p"
  shows "\<exists>as. loop keccak (card (members p)) p h acc = Some (Inr (acc @ as)) \<and>
    distinct as \<and> set as = members p"
proof -
  obtain as where as: "loop keccak (card (members p)) p h acc = Some (Inr (acc @ as))"
    "length as = card (members p)" "distinct as" "set as \<subseteq> members p"
    using loop_selects [OF assms order.refl] by blast
  then have "set as = members p"
    by (intro card_subset_eq) (simp_all add: distinct_card)
  then show ?thesis using as by blast
qed

end

end
