(* ===== verification/Staker_Lists.thy ===== *)
theory Staker_Lists
  imports Weighted_Selection
begin

text \<open>
  core/types/stake_account.go: the list of stakers kept at StakerStorageAddress, ordered by
  address, with the ranking of addresses by distance and stake and the weighted selection of
  the stakers that are rewarded in a block.

  Parameters: \<open>keccak\<close> is crypto.Keccak256, and \<open>rng\<close> the order in which Go's range visits the
  entries of a map, which the language leaves open.
\<close>

subsection \<open>Ranking\<close>

type_synonym Pair = "int \<times> int"
type_synonym PairList = "Pair list"

text \<open>PairList.Less compares the values.\<close>
definition pl_Less :: "Pair \<Rightarrow> Pair \<Rightarrow> bool" where
  "pl_Less p q \<longleftrightarrow> snd p < snd q"

text \<open>
  sort.Sort(sort.Reverse(pl)) on the entries of the map, listed in the order range yields them.
\<close>
definition rankByWordCount :: "PairList \<Rightarrow> PairList" where
  "rankByWordCount wordFrequencies = sort_Sort (\<lambda>p q. pl_Less q p) wordFrequencies"

interpretation rank: sort_interface "\<lambda>p q. pl_Less q p"
  by unfold_locales (auto simp: pl_Less_def)

definition HashToBigIntSilce :: "address list \<Rightarrow> int list" where
  "HashToBigIntSilce addrs = map address_big addrs"

text \<open>BigIntSlice.Less and SortAddr.\<close>
definition bis_Less :: "int \<Rightarrow> int \<Rightarrow> bool" where
  "bis_Less x y \<longleftrightarrow> x < y"

definition SortAddr :: "address list \<Rightarrow> int list" where
  "SortAddr addrs = sort_Sort bis_Less (map address_big addrs)"

interpretation bis: sort_interface bis_Less
  by unfold_locales (auto simp: bis_Less_def)

text \<open>SortAddr is the ascending list of the addresses' numbers, whatever the algorithm.\<close>
lemma SortAddr_sorted: "sorted (SortAddr addrs)"
proof -
  have "sorted_by bis_Less (SortAddr addrs)"
    unfolding SortAddr_def by (rule bis.sorted_sort_Sort)
  then show ?thesis by (simp add: bis_Less_def not_less)
qed

lemma SortAddr_mset: "mset (SortAddr addrs) = image_mset address_big (mset addrs)"
  by (simp add: SortAddr_def)

subsection \<open>Distance on the ring of addresses\<close>

text \<open>The largest address as a number, common.HexToAddress("0xff...ff").Hash().Big().\<close>
definition maxAddressValue :: int where
  "maxAddressValue = 0xffffffffffffffffffffffffffffffffffffffff"

text \<open>
  The distance between the drop point \<open>x\<close> and an address: the difference, or the way round
  through the largest address, whichever is smaller.
\<close>
definition ring_distance :: "int \<Rightarrow> int \<Rightarrow> int" where
  "ring_distance x v =
    (let sub1 = \<bar>v - x\<bar>; sub2 = maxAddressValue - sub1 in if sub1 < sub2 then sub1 else sub2)"

lemma maxAddressValue_eq: "maxAddressValue = 2 ^ 160 - 1"
  by (simp add: maxAddressValue_def)

lemma ring_distance_bounds:
  "0 \<le> ring_distance (address_big a) (address_big b)"
  "2 * ring_distance (address_big a) (address_big b) \<le> maxAddressValue"
  using address_big_less [of a] address_big_less [of b] address_big_nonneg [of a]
    address_big_nonneg [of b]
  by (auto simp: ring_distance_def maxAddressValue_eq Let_def abs_if
    simp del: address_big_nonneg)

lemma ring_distance_commute: "ring_distance x v = ring_distance v x"
  by (simp add: ring_distance_def abs_minus_commute)

text \<open>
  The weight of an address is its distance scaled by its share of the total stake; dividing by
  a zero total panics.
\<close>
definition stake_weight :: "(address \<Rightarrow> int) \<Rightarrow> int \<Rightarrow> int \<Rightarrow> int \<Rightarrow> Pair option" where
  "stake_weight balance totalStake x v =
    map_option (Pair v) (big_Div (ring_distance x v * balance (BigToAddress v)) totalStake)"

text \<open>The first k keys of the ranking, as addresses.\<close>
definition top_k :: "int \<Rightarrow> PairList \<Rightarrow> address list" where
  "top_k k pl = map (\<lambda>p. BigToAddress (fst p)) (take (nat k) pl)"

text \<open>
  The entries kept by the first k places of a ranking weigh at least as much as those left out.
\<close>
lemma rankByWordCount_top:
  assumes "p \<in> set (take n (rankByWordCount ws))" "q \<in> set (drop n (rankByWordCount ws))"
  shows "snd q \<le> snd p"
proof -
  have "sorted_by (\<lambda>p q. pl_Less q p) (take n (rankByWordCount ws) @ drop n (rankByWordCount ws))"
    unfolding rankByWordCount_def append_take_drop_id by (rule rank.sorted_sort_Sort)
  then show ?thesis
    using assms unfolding sorted_wrt_append pl_Less_def by force
qed

subsection \<open>StakerList\<close>

record Staker =
  st_Addr :: address
  st_Balance :: int

type_synonym StakerList = "Staker list"

definition NewStaker :: "address \<Rightarrow> int \<Rightarrow> Staker" where
  "NewStaker addr balance = \<lparr>st_Addr = addr, st_Balance = balance\<rparr>"

definition sl_Less :: "Staker \<Rightarrow> Staker \<Rightarrow> bool" where
  "sl_Less s t \<longleftrightarrow> address_big (st_Addr s) < address_big (st_Addr t)"

definition sl_AddStaker :: "StakerList \<Rightarrow> address \<Rightarrow> int \<Rightarrow> bool \<times> StakerList" where
  "sl_AddStaker sl addr balance =
    (if list_ex (\<lambda>v. st_Addr v = addr) sl
     then (True, sort_Sort sl_Less (upd_first (\<lambda>v. st_Addr v = addr)
       (\<lambda>v. v\<lparr>st_Balance := st_Balance v + balance\<rparr>) sl))
     else (True, sort_Sort sl_Less (sl @ [NewStaker addr balance])))"

definition sl_RemoveStaker :: "StakerList \<Rightarrow> address \<Rightarrow> int \<Rightarrow> bool \<times> StakerList" where
  "sl_RemoveStaker sl addr balance =
    (case find (\<lambda>v. st_Addr v = addr) sl of
       Some v \<Rightarrow>
         if st_Balance v > balance
         then (True, sort_Sort sl_Less (upd_first (\<lambda>v. st_Addr v = addr)
           (\<lambda>v. v\<lparr>st_Balance := st_Balance v - balance\<rparr>) sl))
         else (True, sort_Sort sl_Less (del_first (\<lambda>v. st_Addr v = addr) sl))
     | None \<Rightarrow> (False, sl))"

definition sl_CancelStaker :: "StakerList \<Rightarrow> address \<Rightarrow> bool \<times> StakerList" where
  "sl_CancelStaker sl addr =
    (if list_ex (\<lambda>v. st_Addr v = addr) sl
     then (True, sort_Sort sl_Less (del_first (\<lambda>v. st_Addr v = addr) sl))
     else (False, sl))"

definition sl_IsExist :: "StakerList \<Rightarrow> address \<Rightarrow> bool" where
  "sl_IsExist sl addr = list_ex (\<lambda>v. st_Addr v = addr) sl"

definition sl_TotalStakeBalance :: "StakerList \<Rightarrow> int" where
  "sl_TotalStakeBalance sl = foldl (\<lambda>total voter. total + st_Balance voter) 0 sl"

definition sl_StakeBalance :: "StakerList \<Rightarrow> address \<Rightarrow> int" where
  "sl_StakeBalance sl addr =
    (case find (\<lambda>st. st_Addr st = addr) sl of Some st \<Rightarrow> st_Balance st | None \<Rightarrow> 0)"

definition sl_ValidatorByDistanceAndWeight ::
    "(PairList \<Rightarrow> PairList) \<Rightarrow> StakerList \<Rightarrow> int list \<Rightarrow> int \<Rightarrow> hash \<Rightarrow> address list option" where
  "sl_ValidatorByDistanceAndWeight rng sl addr k randomHash = do {
     let x = address_big (hash_to_address randomHash);
     addrToWeightMap \<leftarrow> those (map (stake_weight (sl_StakeBalance sl) (sl_TotalStakeBalance sl) x) addr);
     Some (top_k k (rankByWordCount (rng addrToWeightMap)))
   }"

definition sl_DeepCopy :: "StakerList \<Rightarrow> StakerList" where
  "sl_DeepCopy sl =
    map (\<lambda>staker. \<lparr>st_Addr = st_Addr staker, st_Balance = st_Balance staker\<rparr>) sl"

fun sl_selectAddress_loop :: "StakerList \<Rightarrow> int \<Rightarrow> int \<Rightarrow> address result" where
  "sl_selectAddress_loop [] sm rand = Inl ''select address error''"
| "sl_selectAddress_loop (staker # sl) sm rand =
    (let sm = sm + st_Balance staker in
     if sm \<ge> rand then Inr (st_Addr staker) else sl_selectAddress_loop sl sm rand)"

definition sl_selectAddress :: "StakerList \<Rightarrow> int \<Rightarrow> address result" where
  "sl_selectAddress sl rand = sl_selectAddress_loop sl 0 rand"

fun sl_select_loop ::
    "(bytes \<Rightarrow> bytes) \<Rightarrow> nat \<Rightarrow> StakerList \<Rightarrow> bytes \<Rightarrow> address list \<Rightarrow> address list result option" where
  "sl_select_loop keccak 0 tempStakers hash random4Address = Some (Inr random4Address)"
| "sl_select_loop keccak (Suc i) tempStakers hash random4Address =
    (let total = sl_TotalStakeBalance tempStakers;
         hash = keccak hash in
     case big_Mod (bytes_big hash) total of
       None \<Rightarrow> None
     | Some m \<Rightarrow> (case sl_selectAddress tempStakers m of
         Inl err \<Rightarrow> Some (Inl err)
       | Inr address \<Rightarrow>
           sl_select_loop keccak i
             (snd (sl_RemoveStaker tempStakers address (sl_StakeBalance tempStakers address)))
             hash (random4Address @ [address])))"

definition sl_SelectRandom4Address ::
    "(bytes \<Rightarrow> bytes) \<Rightarrow> StakerList \<Rightarrow> int \<Rightarrow> bytes \<Rightarrow> address list result option" where
  "sl_SelectRandom4Address keccak sl num hash =
    (let tempStakers = sl_DeepCopy sl in
     if num > int (length tempStakers)
     then Some (Inr (map st_Addr tempStakers))
     else sl_select_loop keccak (nat num) tempStakers hash [])"

text \<open>An index out of range yields the zero Staker, whose balance is a nil pointer.\<close>
definition sl_GetByIndex :: "StakerList \<Rightarrow> uint64 \<Rightarrow> Staker option" where
  "sl_GetByIndex sl i = (if unat i \<ge> length sl then None else Some (sl ! unat i))"

subsection \<open>Invariant and behaviour of the operations\<close>

interpretation slsort: sort_interface sl_Less
  by unfold_locales (auto simp: sl_Less_def)

lemma sl_DeepCopy_id [simp]: "sl_DeepCopy sl = sl"
  by (simp add: sl_DeepCopy_def map_idI)

text \<open>The list is in ascending address order with one entry per address.\<close>
definition sl_wf :: "StakerList \<Rightarrow> bool" where
  "sl_wf sl \<longleftrightarrow> sorted_by sl_Less sl \<and> distinct (map st_Addr sl)"

lemmas sl_defs = sl_AddStaker_def sl_RemoveStaker_def sl_CancelStaker_def sl_IsExist_def
  sl_StakeBalance_def sl_TotalStakeBalance_def NewStaker_def

lemma sl_wf_AddStaker: "distinct (map st_Addr sl) \<Longrightarrow> sl_wf (snd (sl_AddStaker sl a b))"
  by (auto simp: sl_wf_def sl_defs slsort.sorted_sort_Sort keyed list_ex_iff)

lemma sl_wf_RemoveStaker: "sl_wf sl \<Longrightarrow> sl_wf (snd (sl_RemoveStaker sl a b))"
  by (auto simp: sl_wf_def sl_defs slsort.sorted_sort_Sort keyed split: option.split)

lemma sl_wf_CancelStaker: "sl_wf sl \<Longrightarrow> sl_wf (snd (sl_CancelStaker sl a))"
  by (auto simp: sl_wf_def sl_defs slsort.sorted_sort_Sort keyed)

lemma sl_wf_alt: "sl_wf sl \<longleftrightarrow> sorted_wrt (\<lambda>s t. st_Addr s < st_Addr t) sl"
proof -
  have "sorted_wrt (\<lambda>s t. st_Addr s < st_Addr t) sl \<longleftrightarrow>
      sorted_by sl_Less sl \<and> distinct (map st_Addr sl)"
    by (induction sl)
      (auto simp: sl_Less_def address_big_def not_less word_le_def word_less_def
        order_le_less word_uint_eq_iff image_iff)
  then show ?thesis by (simp add: sl_wf_def)
qed

lemma sl_StakeBalance_AddStaker:
  assumes "distinct (map st_Addr sl)"
  shows "sl_StakeBalance (snd (sl_AddStaker sl a b)) a' =
    sl_StakeBalance sl a' + (if a' = a then b else 0)"
proof (cases "list_ex (\<lambda>v. st_Addr v = a) sl")
  case True
  then show ?thesis
    using assms by (auto simp: sl_defs keyed list_ex_find split: option.split)
next
  case False
  then have "distinct (map st_Addr (sl @ [NewStaker a b]))"
    using assms by (auto simp: NewStaker_def list_ex_iff)
  moreover have "find (\<lambda>v. st_Addr v = a) sl = None"
    using False by (simp add: find_None_iff_list_ex)
  ultimately show ?thesis
    using False
    by (simp add: sl_AddStaker_def sl_StakeBalance_def find_sort_Sort find_append NewStaker_def
      split: option.split)
qed

lemma sl_total: "sl_TotalStakeBalance sl = sum_list (map st_Balance sl)"
  by (simp add: sl_TotalStakeBalance_def sum_foldl)

lemma sl_total_AddStaker:
  "sl_TotalStakeBalance (snd (sl_AddStaker sl a b)) = sl_TotalStakeBalance sl + b"
  unfolding sl_total by (auto simp: sl_defs keyed list_ex_find)

lemma sl_total_RemoveStaker:
  "sl_TotalStakeBalance (snd (sl_RemoveStaker sl a b)) =
    (if sl_IsExist sl a \<and> b < sl_StakeBalance sl a then sl_TotalStakeBalance sl - b
     else sl_TotalStakeBalance sl - sl_StakeBalance sl a)"
  unfolding sl_total by (auto simp: sl_defs keyed list_ex_find split: option.split)

lemma sl_StakeBalance_RemoveStaker:
  assumes "distinct (map st_Addr sl)"
  shows "sl_StakeBalance (snd (sl_RemoveStaker sl a b)) a' =
    (if a' = a \<and> sl_IsExist sl a
     then if b < sl_StakeBalance sl a then sl_StakeBalance sl a - b else 0
     else sl_StakeBalance sl a')"
  using assms by (auto simp: sl_defs keyed list_ex_find split: option.split)

subsection \<open>The weighted selection of stakers\<close>

abbreviation sl_entries :: "StakerList \<Rightarrow> (address \<times> int) list" where
  "sl_entries sl \<equiv> map (\<lambda>s. (st_Addr s, st_Balance s)) sl"

text \<open>A pool fit for selection: distinct addresses, positive stakes.\<close>
definition sl_pool :: "StakerList \<Rightarrow> bool" where
  "sl_pool sl \<longleftrightarrow> distinct (map st_Addr sl) \<and> (\<forall>s \<in> set sl. 0 < st_Balance s)"

lemma sl_selectAddress_scan: "sl_selectAddress_loop sl sm r = select_scan (sl_entries sl) sm r"
  by (induction sl arbitrary: sm) (auto simp: Let_def)

lemma sl_RemoveStaker_all:
  assumes "distinct (map st_Addr sl)" "s \<in> set sl"
  shows "snd (sl_RemoveStaker sl (st_Addr s) (sl_StakeBalance sl (st_Addr s))) =
    sort_Sort sl_Less (del_first (\<lambda>v. st_Addr v = st_Addr s) sl)"
  using find_member [OF assms] by (simp add: sl_defs)

interpretation slpool: weighted_pool sl_pool sl_entries sl_TotalStakeBalance sl_selectAddress
  "\<lambda>p a. snd (sl_RemoveStaker p a (sl_StakeBalance p a))" sl_select_loop
proof
  fix p a
  assume p: "sl_pool p" and "a \<in> fst ` set (sl_entries p)"
  then obtain s where s: "s \<in> set p" "a = st_Addr s" by auto
  have eq: "snd (sl_RemoveStaker p a (sl_StakeBalance p a)) =
      sort_Sort sl_Less (del_first (\<lambda>v. st_Addr v = a) p)"
    using p s sl_RemoveStaker_all [of p s] by (simp add: sl_pool_def)
  show "sl_pool (snd (sl_RemoveStaker p a (sl_StakeBalance p a)))"
    using p set_del_first [of _ p] by (auto simp: eq sl_pool_def keyed)
  show "fst ` set (sl_entries (snd (sl_RemoveStaker p a (sl_StakeBalance p a)))) =
      fst ` set (sl_entries p) - {a}"
    using p by (simp add: eq sl_pool_def image_image keyed)
qed (auto simp: sl_pool_def sl_total sl_selectAddress_def sl_selectAddress_scan comp_def)

end
