(* ===== verification/Validator_Lists.thy ===== *)
theory Validator_Lists
  imports Econ_Params Staker_Lists
begin

text \<open>
  core/types/validator_account.go, first part: the list of validators kept at
  ValidatorStorageAddress, in descending order of stake, and the operations that change it.
  Theory Validator_Selection holds the address ranges and the random choice of validators.

  The struct ValidatorList is identified with its slice.  A nil Weight slice is None.
\<close>

record Validator =
  v_Addr :: address
  v_Balance :: int
  v_Proxy :: address
  v_Weight :: "int list option"

type_synonym ValidatorList = "Validator list"

definition NewValidator :: "address \<Rightarrow> int \<Rightarrow> address \<Rightarrow> Validator" where
  "NewValidator addr balance proxy =
    \<lparr>v_Addr = addr, v_Balance = balance, v_Proxy = proxy, v_Weight = None\<rparr>"

text \<open>
  int(math.Ceil(float64(n) / 3)) - 1; for a length below 2^52 the float quotient is rounded to
  a value with the same ceiling, so the result is the exact ceiling of n/3, minus one.
\<close>
definition vl_F :: "ValidatorList \<Rightarrow> int" where
  "vl_F vl = (int (length vl) + 2) div 3 - 1"

definition vl_Size :: "ValidatorList \<Rightarrow> nat" where
  "vl_Size vl = length vl"

definition vl_TargetSize :: "ValidatorList \<Rightarrow> int" where
  "vl_TargetSize vl = (50 * foldl (\<lambda>total voter. total + v_Balance voter) 0 vl) div 100"

text \<open>Descending by pledge amount, equal amounts descending by address.\<close>
definition vl_Less :: "Validator \<Rightarrow> Validator \<Rightarrow> bool" where
  "vl_Less v w \<longleftrightarrow>
    (if v_Balance v = v_Balance w then address_big (v_Addr v) > address_big (v_Addr w)
     else v_Balance v > v_Balance w)"

text \<open>What AddValidator and SetValidatorAmount do to the proxy of a known validator.\<close>
definition set_proxy :: "address \<Rightarrow> Validator \<Rightarrow> Validator" where
  "set_proxy proxy v = (if proxy \<noteq> empty_address then v\<lparr>v_Proxy := proxy\<rparr> else v)"

definition vl_AddValidator ::
    "ValidatorList \<Rightarrow> address \<Rightarrow> int \<Rightarrow> address \<Rightarrow> bool \<times> ValidatorList" where
  "vl_AddValidator vl addr balance proxy =
    (if list_ex (\<lambda>v. v_Addr v = addr) vl
     then (True, sort_Sort vl_Less (upd_first (\<lambda>v. v_Addr v = addr)
       (\<lambda>v. set_proxy proxy (v\<lparr>v_Balance := v_Balance v + balance\<rparr>)) vl))
     else (True, sort_Sort vl_Less (vl @ [NewValidator addr balance proxy])))"

definition NewValidatorList :: "Validator list \<Rightarrow> ValidatorList" where
  "NewValidatorList validators =
    foldl (\<lambda>vl v. snd (vl_AddValidator vl (v_Addr v) (v_Balance v) (v_Proxy v))) [] validators"

definition vl_AddValidatorAmount :: "ValidatorList \<Rightarrow> address \<Rightarrow> int \<Rightarrow> bool \<times> ValidatorList" where
  "vl_AddValidatorAmount vl addr balance =
    (if list_ex (\<lambda>v. v_Addr v = addr) vl
     then (True, sort_Sort vl_Less (upd_first (\<lambda>v. v_Addr v = addr)
       (\<lambda>v. v\<lparr>v_Balance := v_Balance v + balance\<rparr>) vl))
     else (True, vl))"

definition vl_RemoveValidator :: "ValidatorList \<Rightarrow> address \<Rightarrow> int \<Rightarrow> bool \<times> ValidatorList" where
  "vl_RemoveValidator vl addr balance =
    (case find (\<lambda>v. v_Addr v = addr) vl of
       Some v \<Rightarrow>
         if v_Balance v - balance < ValidatorBase
         then (True, sort_Sort vl_Less (del_first (\<lambda>v. v_Addr v = addr) vl))
         else (True, sort_Sort vl_Less (upd_first (\<lambda>v. v_Addr v = addr)
           (\<lambda>v. v\<lparr>v_Balance := v_Balance v - balance\<rparr>) vl))
     | None \<Rightarrow> (False, vl))"

definition vl_SetValidatorAmount ::
    "ValidatorList \<Rightarrow> address \<Rightarrow> int \<Rightarrow> address \<Rightarrow> bool \<times> ValidatorList" where
  "vl_SetValidatorAmount vl addr balance proxy =
    (if list_ex (\<lambda>v. v_Addr v = addr) vl
     then (True, sort_Sort vl_Less (upd_first (\<lambda>v. v_Addr v = addr)
       (\<lambda>v. set_proxy proxy (v\<lparr>v_Balance := balance\<rparr>)) vl))
     else (True, sort_Sort vl_Less (vl @ [NewValidator addr balance proxy])))"

definition vl_ResetRemoveValidator :: "ValidatorList \<Rightarrow> address \<Rightarrow> bool \<times> ValidatorList" where
  "vl_ResetRemoveValidator vl addr =
    (if list_ex (\<lambda>v. v_Addr v = addr) vl
     then (True, sort_Sort vl_Less (del_first (\<lambda>v. v_Addr v = addr) vl))
     else (False, vl))"

text \<open>DeepCopy appends the weights one by one, so an empty Weight slice becomes nil.\<close>
definition vl_DeepCopy :: "ValidatorList \<Rightarrow> ValidatorList" where
  "vl_DeepCopy vl = map (\<lambda>validator. \<lparr>v_Addr = v_Addr validator, v_Balance = v_Balance validator,
    v_Proxy = v_Proxy validator,
    v_Weight = (case v_Weight validator of Some (w # ws) \<Rightarrow> Some (w # ws) | _ \<Rightarrow> None)\<rparr>) vl"

definition vl_TotalStakeBalance :: "ValidatorList \<Rightarrow> int" where
  "vl_TotalStakeBalance vl = foldl (\<lambda>total voter. total + v_Balance voter) 0 vl"

text \<open>The stake of the first validator with this address or this proxy.\<close>
definition vl_StakeBalance :: "ValidatorList \<Rightarrow> address \<Rightarrow> int" where
  "vl_StakeBalance vl addr =
    (case find (\<lambda>st. v_Addr st = addr \<or> v_Proxy st = addr) vl of
       Some st \<Rightarrow> v_Balance st | None \<Rightarrow> 0)"

definition vl_ConvertToAddress :: "ValidatorList \<Rightarrow> address list" where
  "vl_ConvertToAddress vl = map v_Addr vl"

definition vl_ConvertToBigInt :: "Validator list \<Rightarrow> int list" where
  "vl_ConvertToBigInt validators = map (\<lambda>m. address_big (v_Addr m)) validators"

definition vl_Exist :: "ValidatorList \<Rightarrow> address \<Rightarrow> bool" where
  "vl_Exist vl addr = list_ex (\<lambda>v. v_Addr v = addr \<or> v_Proxy v = addr) vl"

definition vl_ExistProxy :: "ValidatorList \<Rightarrow> address \<Rightarrow> bool" where
  "vl_ExistProxy vl addr = list_ex (\<lambda>v. v_Addr v = addr \<and> v_Proxy v \<noteq> empty_address) vl"

definition vl_GetProxy :: "ValidatorList \<Rightarrow> address \<Rightarrow> address \<times> bool" where
  "vl_GetProxy vl delegate =
    (case find (\<lambda>v. v_Addr v = delegate \<and> v_Proxy v \<noteq> empty_address) vl of
       Some v \<Rightarrow> (v_Proxy v, True) | None \<Rightarrow> (empty_address, False))"

definition vl_ExistAdderRange :: "ValidatorList \<Rightarrow> address \<Rightarrow> bool" where
  "vl_ExistAdderRange vl addr =
    list_ex (\<lambda>v. (v_Addr v = addr \<or> v_Proxy v = addr) \<and> v_Weight v \<noteq> None) vl"

definition vl_AddAddrRange :: "ValidatorList \<Rightarrow> address \<Rightarrow> int list \<Rightarrow> ValidatorList" where
  "vl_AddAddrRange vl addr weight =
    map (\<lambda>v. if v_Addr v = addr \<or> v_Proxy v = addr then v\<lparr>v_Weight := Some weight\<rparr> else v) vl"

text \<open>The index of the first match, or -1.\<close>
definition vl_GetByAddress :: "ValidatorList \<Rightarrow> address \<Rightarrow> int" where
  "vl_GetByAddress vl addr =
    (case index_first (\<lambda>v. v_Addr v = addr \<or> v_Proxy v = addr) vl of Some i \<Rightarrow> int i | None \<Rightarrow> -1)"

text \<open>None stands for the zero Validator, whose balance is a nil pointer.\<close>
definition vl_GetByIndex :: "ValidatorList \<Rightarrow> uint64 \<Rightarrow> Validator option" where
  "vl_GetByIndex vl i = (if unat i \<ge> length vl then None else Some (vl ! unat i))"

definition vl_GetValidatorByAddr :: "ValidatorList \<Rightarrow> address \<Rightarrow> Validator option" where
  "vl_GetValidatorByAddr vl addr = find (\<lambda>v. v_Addr v = addr) vl"

definition vl_GetValidatorAddr :: "ValidatorList \<Rightarrow> address \<Rightarrow> address" where
  "vl_GetValidatorAddr vl addr =
    (case find (\<lambda>st. v_Addr st = addr \<or> v_Proxy st = addr) vl of
       Some st \<Rightarrow> v_Addr st | None \<Rightarrow> empty_address)"

subsection \<open>The order of the list\<close>

lemmas vl_ops = vl_AddValidator_def vl_AddValidatorAmount_def vl_RemoveValidator_def
  vl_SetValidatorAmount_def vl_ResetRemoveValidator_def

lemma v_Addr_set_proxy [simp]: "v_Addr (set_proxy p v) = v_Addr v"
  and v_Balance_set_proxy [simp]: "v_Balance (set_proxy p v) = v_Balance v"
  by (simp_all add: set_proxy_def)

lemma v_NewValidator [simp]:
  "v_Addr (NewValidator a b p) = a" "v_Balance (NewValidator a b p) = b"
  "v_Proxy (NewValidator a b p) = p" "v_Weight (NewValidator a b p) = None"
  by (simp_all add: NewValidator_def)

interpretation vlsort: sort_interface vl_Less
  by unfold_locales (auto simp: vl_Less_def split: if_splits)

text \<open>Less decides any two validators with different addresses.\<close>
lemma vl_Less_total: "v_Addr v \<noteq> v_Addr w \<Longrightarrow> vl_Less v w \<or> vl_Less w v"
  by (auto simp: vl_Less_def neq_iff address_big_def word_uint_eq_iff)

text \<open>
  The invariant: descending stake, ties by descending address, one entry per address.
\<close>
definition vl_wf :: "ValidatorList \<Rightarrow> bool" where
  "vl_wf vl \<longleftrightarrow> sorted_by vl_Less vl \<and> distinct (map v_Addr vl)"

text \<open>With distinct addresses, sorting has exactly one possible result.\<close>
lemma vl_sort_unique:
  assumes "distinct (map v_Addr vl)" "mset ys = mset vl" "sorted_by vl_Less ys"
  shows "ys = sort_Sort vl_Less vl"
proof (rule vlsort.sort_unique [OF assms(2,3)])
  fix v w
  assume "v \<in> set vl" "w \<in> set vl" "v \<noteq> w"
  then have "v_Addr v \<noteq> v_Addr w"
    using assms(1) by (auto simp: distinct_map inj_on_def)
  then show "vl_Less v w \<or> vl_Less w v" by (rule vl_Less_total)
qed

lemma vl_wf_ops:
  assumes "vl_wf vl"
  shows "vl_wf (snd (vl_AddValidator vl a b p))"
    and "vl_wf (snd (vl_AddValidatorAmount vl a b))"
    and "vl_wf (snd (vl_RemoveValidator vl a b))"
    and "vl_wf (snd (vl_SetValidatorAmount vl a b p))"
    and "vl_wf (snd (vl_ResetRemoveValidator vl a))"
  using assms
  by (auto simp: vl_wf_def vl_ops vlsort.sorted_sort_Sort keyed list_ex_iff split: option.split)

lemma vl_wf_DeepCopy [simp]: "vl_wf (vl_DeepCopy vl) = vl_wf vl"
proof -
  have "map v_Addr (vl_DeepCopy vl) = map v_Addr vl" by (simp add: vl_DeepCopy_def)
  then show ?thesis
    by (simp add: vl_wf_def) (simp add: vl_DeepCopy_def sorted_wrt_map vl_Less_def)
qed

lemma vl_wf_NewValidatorList: "vl_wf (NewValidatorList vs)"
proof -
  have "vl_wf vl \<Longrightarrow> vl_wf (foldl (\<lambda>vl v. snd (vl_AddValidator vl (v_Addr v) (v_Balance v) (v_Proxy v)))
      vl vs)" for vl
    by (induction vs arbitrary: vl) (simp_all add: vl_wf_ops)
  then show ?thesis by (simp add: NewValidatorList_def vl_wf_def)
qed

text \<open>The first validator of a well-formed list has the largest stake.\<close>
lemma vl_wf_head: "\<lbrakk>vl_wf (v # vl); w \<in> set vl\<rbrakk> \<Longrightarrow> v_Balance w \<le> v_Balance v"
  by (force simp: vl_wf_def vl_Less_def split: if_splits)

subsection \<open>Behaviour of the operations on the recorded stake\<close>

text \<open>The recorded stake of an address, 0 for an address that is not a validator.\<close>
definition vl_stake :: "ValidatorList \<Rightarrow> address \<Rightarrow> int" where
  "vl_stake vl a = (case vl_GetValidatorByAddr vl a of Some v \<Rightarrow> v_Balance v | None \<Rightarrow> 0)"

abbreviation is_validator :: "ValidatorList \<Rightarrow> address \<Rightarrow> bool" where
  "is_validator vl a \<equiv> a \<in> v_Addr ` set vl"

lemmas vl_lookup = vl_stake_def vl_GetValidatorByAddr_def

lemma vl_total: "vl_TotalStakeBalance vl = sum_list (map v_Balance vl)"
  by (simp add: vl_TotalStakeBalance_def sum_foldl)

text \<open>Lookup after appending a validator that was not in the list and sorting.\<close>
lemma find_vl_snoc:
  assumes "distinct (map v_Addr vl)" "\<not> list_ex (\<lambda>v. v_Addr v = a) vl"
  shows "find (\<lambda>v. v_Addr v = a') (sort_Sort vl_Less (vl @ [NewValidator a b p])) =
    (if a' = a then Some (NewValidator a b p) else find (\<lambda>v. v_Addr v = a') vl)"
proof -
  have "distinct (map v_Addr (vl @ [NewValidator a b p]))"
    using assms by (auto simp: list_ex_iff)
  moreover have "find (\<lambda>v. v_Addr v = a) vl = None"
    using assms(2) by (simp add: find_None_iff_list_ex)
  ultimately show ?thesis
    by (auto simp: find_sort_Sort find_append split: option.split)
qed

lemma vl_stake_AddValidator:
  assumes "distinct (map v_Addr vl)"
  shows "vl_stake (snd (vl_AddValidator vl a b p)) a' = vl_stake vl a' + (if a' = a then b else 0)"
proof (cases "list_ex (\<lambda>v. v_Addr v = a) vl")
  case True
  then show ?thesis
    using assms by (auto simp: vl_ops vl_lookup keyed list_ex_find split: option.split)
next
  case False
  moreover from this have "find (\<lambda>v. v_Addr v = a) vl = None"
    by (simp add: find_None_iff_list_ex)
  ultimately show ?thesis
    using assms by (auto simp: vl_ops vl_lookup find_vl_snoc split: option.split)
qed

lemma vl_stake_AddValidatorAmount:
  assumes "distinct (map v_Addr vl)"
  shows "vl_stake (snd (vl_AddValidatorAmount vl a b)) a' =
    vl_stake vl a' + (if a' = a \<and> is_validator vl a then b else 0)"
  using assms find_key_None [of v_Addr a vl]
  by (auto simp: vl_ops vl_lookup keyed list_ex_find split: option.split)

lemma vl_stake_SetValidatorAmount:
  assumes "distinct (map v_Addr vl)"
  shows "vl_stake (snd (vl_SetValidatorAmount vl a b p)) a' = (if a' = a then b else vl_stake vl a')"
proof (cases "list_ex (\<lambda>v. v_Addr v = a) vl")
  case True
  then show ?thesis
    using assms by (auto simp: vl_ops vl_lookup keyed list_ex_find split: option.split)
next
  case False
  then show ?thesis
    using assms by (auto simp: vl_ops vl_lookup find_vl_snoc split: option.split)
qed

lemma vl_stake_RemoveValidator:
  assumes "distinct (map v_Addr vl)"
  shows "vl_stake (snd (vl_RemoveValidator vl a b)) a' =
    (if a' = a \<and> is_validator vl a
     then if vl_stake vl a - b < ValidatorBase then 0 else vl_stake vl a - b
     else vl_stake vl a')"
  using assms find_key_None [of v_Addr a vl]
  by (auto simp: vl_ops vl_lookup keyed split: option.split)

lemma vl_stake_ResetRemoveValidator:
  assumes "distinct (map v_Addr vl)"
  shows "vl_stake (snd (vl_ResetRemoveValidator vl a)) a' = (if a' = a then 0 else vl_stake vl a')"
  using assms find_None_iff_list_ex [of "\<lambda>v. v_Addr v = a" vl]
  by (auto simp: vl_ops vl_lookup keyed split: option.split)

lemma vl_total_AddValidator:
  "vl_TotalStakeBalance (snd (vl_AddValidator vl a b p)) = vl_TotalStakeBalance vl + b"
  unfolding vl_total by (auto simp: vl_ops keyed list_ex_find)

lemma vl_total_RemoveValidator:
  assumes "is_validator vl a"
  shows "vl_TotalStakeBalance (snd (vl_RemoveValidator vl a b)) =
    vl_TotalStakeBalance vl - (if vl_stake vl a - b < ValidatorBase then vl_stake vl a else b)"
  using assms find_key_None [of v_Addr a vl]
  unfolding vl_total by (auto simp: vl_ops vl_lookup keyed split: option.split)

subsection \<open>The validator threshold\<close>

text \<open>Every listed validator has at least the threshold stake.\<close>
definition vl_threshold :: "ValidatorList \<Rightarrow> bool" where
  "vl_threshold vl \<longleftrightarrow> (\<forall>v \<in> set vl. ValidatorBase \<le> v_Balance v)"

lemma vl_threshold_AddValidator:
  assumes "vl_threshold vl" "0 \<le> b" "is_validator vl a \<or> ValidatorBase \<le> b"
  shows "vl_threshold (snd (vl_AddValidator vl a b p))"
  using assms set_upd_first [of "\<lambda>v. v_Addr v = a" _ vl]
  by (fastforce simp: vl_threshold_def vl_ops list_ex_iff)

lemma vl_threshold_AddValidatorAmount:
  assumes "vl_threshold vl" "0 \<le> b"
  shows "vl_threshold (snd (vl_AddValidatorAmount vl a b))"
  using assms set_upd_first [of "\<lambda>v. v_Addr v = a" _ vl]
  by (fastforce simp: vl_threshold_def vl_ops list_ex_iff)

lemma vl_threshold_ResetRemoveValidator:
  assumes "vl_threshold vl"
  shows "vl_threshold (snd (vl_ResetRemoveValidator vl a))"
  using assms set_del_first [of "\<lambda>v. v_Addr v = a" vl]
  by (auto simp: vl_threshold_def vl_ops)

lemma vl_threshold_RemoveValidator:
  assumes "vl_threshold vl" "distinct (map v_Addr vl)"
  shows "vl_threshold (snd (vl_RemoveValidator vl a b))"
proof (cases "find (\<lambda>v. v_Addr v = a) vl")
  case (Some v)
  have "w = v" if "w \<in> set vl" "v_Addr w = a" for w
    using find_member [OF assms(2) that(1)] that(2) Some by simp
  then show ?thesis
    using assms(1) Some set_del_first [of "\<lambda>v. v_Addr v = a" vl]
      set_upd_first [of "\<lambda>v. v_Addr v = a" "\<lambda>v. v\<lparr>v_Balance := v_Balance v - b\<rparr>" vl]
    by (auto simp: vl_threshold_def vl_ops)
qed (use assms in \<open>simp add: vl_ops\<close>)

end
