(* ===== verification/Validator_Selection.thy ===== *)
theory Validator_Selection
  imports Validator_Lists
begin

text \<open>
  core/types/validator_account.go, second part: the range of addresses a validator covers, the
  collection of the validators that cover a random drop point, and the random choice of the
  validators of a round.

  Parameters: \<open>keccak\<close> is crypto.Keccak256; \<open>dropPoint\<close> is crypto.HexToECDSA on the digits of
  the random hash followed by crypto.PubkeyToAddress, an error when the hash is no valid
  secp256k1 key; \<open>rng\<close> is the order in which range visits the entries of a map.
\<close>

subsection \<open>Address ranges\<close>

text \<open>The last step shared by both versions: store the range that starts at the address.\<close>
definition assign_range :: "ValidatorList \<Rightarrow> address \<Rightarrow> int \<Rightarrow> ValidatorList" where
  "assign_range vl addr rangeLength =
    (let addrNo = address_big addr; minValue = 0; maxValue = maxAddressValue;
         vl = (if rangeLength > maxValue then vl_AddAddrRange vl addr [minValue, maxValue] else vl)
     in if addrNo + rangeLength < maxValue
        then vl_AddAddrRange vl addr [addrNo, addrNo + rangeLength]
        else vl_AddAddrRange vl addr
          [addrNo, maxValue, minValue, (addrNo + rangeLength) mod maxValue])"

text \<open>The range length is 7 * stake * maxValue / total; a zero total panics.\<close>
definition vl_CalculateAddressRange :: "ValidatorList \<Rightarrow> address \<Rightarrow> int \<Rightarrow> ValidatorList option" where
  "vl_CalculateAddressRange vl addr stakeAmt = do {
     rangeLength \<leftarrow> big_Div (7 * (stakeAmt * maxAddressValue)) (vl_TotalStakeBalance vl);
     Some (assign_range vl addr rangeLength)
   }"

definition vl_CalculateAddressRangeV2 ::
    "ValidatorList \<Rightarrow> address \<Rightarrow> int \<Rightarrow> int \<Rightarrow> ValidatorList option" where
  "vl_CalculateAddressRangeV2 vl addr stakeAmt weight = do {
     quotient \<leftarrow> big_Div (weight * (stakeAmt * maxAddressValue)) (vl_TotalStakeBalance vl);
     Some (assign_range vl addr (quotient * 10))
   }"

definition vl_ValidatorByDistanceAndWeight ::
    "(PairList \<Rightarrow> PairList) \<Rightarrow> ValidatorList \<Rightarrow> int list \<Rightarrow> int \<Rightarrow> hash \<Rightarrow> address list option" where
  "vl_ValidatorByDistanceAndWeight rng vl addr k randomHash = do {
     let x = address_big (hash_to_address randomHash);
     addrToWeightMap \<leftarrow> those (map (stake_weight (vl_StakeBalance vl) (vl_TotalStakeBalance vl) x) addr);
     Some (top_k k (rankByWordCount (rng addrToWeightMap)))
   }"

definition vl_ValidatorByDistance ::
    "(PairList \<Rightarrow> PairList) \<Rightarrow> int list \<Rightarrow> int \<Rightarrow> hash \<Rightarrow> address list" where
  "vl_ValidatorByDistance rng addr k randomHash =
    (let x = address_big (hash_to_address randomHash);
         distanceAddrMap = map (\<lambda>v. (v, ring_distance x v)) addr
     in top_k k (rankByWordCount (rng distanceAddrMap)))"

subsection \<open>Collecting the validators that cover the drop point\<close>

text \<open>The two tests of the loop body: inside a range of two or of four bounds.\<close>
definition covers :: "int \<Rightarrow> Validator \<Rightarrow> bool" where
  "covers point v =
    (case v_Weight v of
       None \<Rightarrow> False
     | Some [w0, w1] \<Rightarrow> point > w0 \<and> point < w1
     | Some [w0, w1, w2, w3] \<Rightarrow> (point > w0 \<and> point < w1) \<or> (point > w2 \<and> point < w3)
     | Some _ \<Rightarrow> False)"

text \<open>The loop of CollectValidators stops when the count reaches k.\<close>
fun collect_loop :: "int \<Rightarrow> int \<Rightarrow> ValidatorList \<Rightarrow> int \<Rightarrow> address list" where
  "collect_loop point k [] cnt = []"
| "collect_loop point k (v # vl) cnt =
    (if cnt = k then []
     else if covers point v then v_Addr v # collect_loop point k vl (cnt + 1)
     else collect_loop point k vl cnt)"

definition vl_CollectValidators ::
    "(hash \<Rightarrow> address result) \<Rightarrow> ValidatorList \<Rightarrow> hash \<Rightarrow> int \<Rightarrow> address list result" where
  "vl_CollectValidators dropPoint vl randomHash k =
    (case dropPoint randomHash of
       Inl err \<Rightarrow> Inl err
     | Inr addr \<Rightarrow> Inr (collect_loop (address_big addr) k vl 0))"

definition vl_CollectValidatorsV3 ::
    "(hash \<Rightarrow> address result) \<Rightarrow> ValidatorList \<Rightarrow> hash \<Rightarrow> address list result" where
  "vl_CollectValidatorsV3 dropPoint vl randomHash =
    (case dropPoint randomHash of
       Inl err \<Rightarrow> Inl err
     | Inr addr \<Rightarrow> Inr (map v_Addr (filter (covers (address_big addr)) vl)))"

subsection \<open>Making up for missing validators\<close>

text \<open>
  The loop that appends validators not yet chosen until diffCount is used up; RandomValidatorV2,
  RandomValidatorV3 and MakeUpValidators all contain it.
\<close>
fun fill_loop :: "Validator list \<Rightarrow> address list \<Rightarrow> int \<Rightarrow> address list" where
  "fill_loop [] validators diffCount = validators"
| "fill_loop (v # vl) validators diffCount =
    (let flg = list_ex (\<lambda>vv. vv = v_Addr v) validators in
     if \<not> flg \<and> diffCount > 0 then fill_loop vl (validators @ [v_Addr v]) (diffCount - 1)
     else fill_loop vl validators diffCount)"

definition vl_RandomValidatorV2 ::
    "(hash \<Rightarrow> address result) \<Rightarrow> ValidatorList \<Rightarrow> int \<Rightarrow> hash \<Rightarrow> address list" where
  "vl_RandomValidatorV2 dropPoint vl k randomHash =
    (case vl_CollectValidators dropPoint vl randomHash k of
       Inl err \<Rightarrow> []
     | Inr validators \<Rightarrow> fill_loop vl validators (k - int (length validators)))"

text \<open>
  The pass of MakeUpValidators over neighbours with equal weighted stake: position i is compared
  with position i + 1 and swapped when it is the closer one to the random number.
\<close>
fun tie_loop :: "int \<Rightarrow> Validator list \<Rightarrow> Validator list" where
  "tie_loop randomAmt (v # w # vl) =
    (if v_Balance v = v_Balance w \<and>
        \<bar>randomAmt - address_big (v_Addr v)\<bar> < \<bar>randomAmt - address_big (v_Addr w)\<bar>
     then w # tie_loop randomAmt (v # vl)
     else v # tie_loop randomAmt (w # vl))"
| "tie_loop randomAmt vl = vl"

text \<open>The list of validators re-weighted by their coefficients.\<close>
definition weighted_set :: "ValidatorList \<Rightarrow> uint8 list \<Rightarrow> ValidatorList" where
  "weighted_set vl weights =
    foldl (\<lambda>newValSet (v, w).
      snd (vl_AddValidator newValSet (v_Addr v) (v_Balance v * uint w) empty_address))
      [] (zip vl weights)"

text \<open>Indexing past the end of weights panics.\<close>
definition vl_MakeUpValidators ::
    "ValidatorList \<Rightarrow> address list \<Rightarrow> uint8 list \<Rightarrow> hash \<Rightarrow> int \<Rightarrow> address list option" where
  "vl_MakeUpValidators vl validators weights randomHash diffCount =
    (if length weights < length vl then None
     else Some (fill_loop (tie_loop (hash_big randomHash) (weighted_set vl weights))
       validators diffCount))"

subsection \<open>Selection from an array of repeated addresses\<close>

record BalanceInfo =
  bi_Address :: address
  bi_Balance :: int

definition vl_InitAddressArr :: "BalanceInfo list \<Rightarrow> address list" where
  "vl_InitAddressArr balanceInfos =
    concat (map (\<lambda>balanceInfo.
      let num = (word_of_int \<bar>bi_Balance balanceInfo div 7000000000000000000000\<bar> :: uint64)
      in replicate (unat num) (bi_Address balanceInfo)) balanceInfos)"

text \<open>Reducing modulo the length 0 of an empty array panics.\<close>
definition vl_RandomSelectAddress :: "address list \<Rightarrow> bytes \<Rightarrow> address option" where
  "vl_RandomSelectAddress addressArray hash = do {
     index \<leftarrow> big_Mod (bytes_big hash) (int (length addressArray));
     Some (addressArray ! nat index)
   }"

text \<open>The loop over the array: (startIndex, startFlag, endIndex).\<close>
fun delete_scan :: "address list \<Rightarrow> address \<Rightarrow> nat \<Rightarrow> nat \<times> bool \<times> nat \<Rightarrow> nat \<times> bool \<times> nat" where
  "delete_scan [] address i st = st"
| "delete_scan (v # vs) address i (startIndex, startFlag, endIndex) =
    delete_scan vs address (i + 1)
      (if v = address
       then if startFlag then (i, False, endIndex) else (startIndex, startFlag, i)
       else (startIndex, startFlag, endIndex))"

text \<open>Slicing from past the end panics.\<close>
definition vl_DeleteAddress :: "address list \<Rightarrow> address \<Rightarrow> address list option" where
  "vl_DeleteAddress addressArray address =
    (case delete_scan addressArray address 0 (0, True, 0) of
       (startIndex, _, endIndex) \<Rightarrow>
         if endIndex + 1 > length addressArray then None
         else Some (take startIndex addressArray @ drop (endIndex + 1) addressArray))"

fun select11_loop ::
    "(bytes \<Rightarrow> bytes) \<Rightarrow> nat \<Rightarrow> address list \<Rightarrow> bytes \<Rightarrow> address list \<Rightarrow> address list option" where
  "select11_loop keccak 0 addressArray hash random11Address = Some random11Address"
| "select11_loop keccak (Suc i) addressArray hash random11Address = do {
     let hash = keccak hash;
     index \<leftarrow> big_Mod (bytes_big hash) (int (length addressArray));
     let address = addressArray ! nat index;
     addressArray \<leftarrow> vl_DeleteAddress addressArray address;
     select11_loop keccak i addressArray hash (random11Address @ [address])
   }"

definition vl_SelectRandom11Address ::
    "(bytes \<Rightarrow> bytes) \<Rightarrow> int \<Rightarrow> address list \<Rightarrow> bytes \<Rightarrow> address list option" where
  "vl_SelectRandom11Address keccak num addressArray hash =
    select11_loop keccak (nat num) addressArray hash []"

definition vl_RandomValidatorV3 ::
    "(bytes \<Rightarrow> bytes) \<Rightarrow> (hash \<Rightarrow> address result) \<Rightarrow> ValidatorList \<Rightarrow> int \<Rightarrow> hash \<Rightarrow>
      address list option" where
  "vl_RandomValidatorV3 keccak dropPoint vl k randomHash =
    (case vl_CollectValidatorsV3 dropPoint vl randomHash of
       Inl err \<Rightarrow> Some []
     | Inr validators \<Rightarrow>
         let validators = fill_loop vl validators (k - int (length validators));
             balanceInfos = map (\<lambda>validator. \<lparr>bi_Address = validator,
               bi_Balance = vl_StakeBalance vl validator\<rparr>) validators
         in vl_SelectRandom11Address keccak k (vl_InitAddressArr balanceInfos) (hash_bytes randomHash))"

subsection \<open>Selection weighted by stake\<close>

fun vl_selectAddress_loop :: "ValidatorList \<Rightarrow> int \<Rightarrow> int \<Rightarrow> address result" where
  "vl_selectAddress_loop [] sm rand = Inl ''select address error''"
| "vl_selectAddress_loop (validator # vl) sm rand =
    (let sm = sm + v_Balance validator in
     if sm \<ge> rand then Inr (v_Addr validator) else vl_selectAddress_loop vl sm rand)"

definition vl_selectAddress :: "ValidatorList \<Rightarrow> int \<Rightarrow> address result" where
  "vl_selectAddress vl rand = vl_selectAddress_loop vl 0 rand"

fun vl_select_loop ::
    "(bytes \<Rightarrow> bytes) \<Rightarrow> nat \<Rightarrow> ValidatorList \<Rightarrow> bytes \<Rightarrow> address list \<Rightarrow> address list result option" where
  "vl_select_loop keccak 0 tempValidators hash random11Address = Some (Inr random11Address)"
| "vl_select_loop keccak (Suc i) tempValidators hash random11Address =
    (let total = vl_TotalStakeBalance tempValidators;
         hash = keccak hash in
     case big_Mod (bytes_big hash) total of
       None \<Rightarrow> None
     | Some m \<Rightarrow> (case vl_selectAddress tempValidators m of
         Inl err \<Rightarrow> Some (Inl err)
       | Inr address \<Rightarrow>
           vl_select_loop keccak i
             (snd (vl_RemoveValidator tempValidators address (vl_StakeBalance tempValidators address)))
             hash (random11Address @ [address])))"

definition vl_SelectRandom11AddressV2 ::
    "(bytes \<Rightarrow> bytes) \<Rightarrow> ValidatorList \<Rightarrow> int \<Rightarrow> bytes \<Rightarrow> address list result option" where
  "vl_SelectRandom11AddressV2 keccak vl num hash =
    (let tempValidators = vl_DeepCopy vl in
     if num > int (length tempValidators)
     then Some (Inr (map v_Addr tempValidators))
     else vl_select_loop keccak (nat num) tempValidators hash [])"

text \<open>The validators of the collected addresses, in the order of the addresses.\<close>
definition validators_of :: "ValidatorList \<Rightarrow> address list \<Rightarrow> ValidatorList" where
  "validators_of vl addrs =
    concat (map (\<lambda>a. case find (\<lambda>v. v_Addr v = a) vl of Some v \<Rightarrow> [v] | None \<Rightarrow> []) addrs)"

text \<open>An error of the selection is dropped and the nil slice returned.\<close>
definition vl_RandomValidatorV4 ::
    "(bytes \<Rightarrow> bytes) \<Rightarrow> (hash \<Rightarrow> address result) \<Rightarrow> ValidatorList \<Rightarrow> int \<Rightarrow> hash \<Rightarrow> uint8 list \<Rightarrow>
      address list result option" where
  "vl_RandomValidatorV4 keccak dropPoint vl k randomHash weights =
    (if length vl \<noteq> length weights then Some (Inl ''RandomValidatorV4 invalid length'')
     else case vl_CollectValidatorsV3 dropPoint vl randomHash of
       Inl err \<Rightarrow> Some (Inl err)
     | Inr validators \<Rightarrow> do {
         let diffCount = k - int (length validators);
         validators \<leftarrow> (if diffCount > 0
           then vl_MakeUpValidators vl validators weights randomHash diffCount
           else Some validators);
         selectedValidators \<leftarrow>
           vl_SelectRandom11AddressV2 keccak (validators_of vl validators) k (hash_bytes randomHash);
         Some (Inr (case selectedValidators of Inl err \<Rightarrow> [] | Inr as \<Rightarrow> as))
       })"


subsection \<open>Ranges cover a share of the ring\<close>

lemma vl_AddAddrRange_simps [simp]:
  "map v_Addr (vl_AddAddrRange vl a w) = map v_Addr vl"
  "map v_Balance (vl_AddAddrRange vl a w) = map v_Balance vl"
  "map v_Proxy (vl_AddAddrRange vl a w) = map v_Proxy vl"
  by (auto simp: vl_AddAddrRange_def)

lemma vl_AddAddrRange_twice [simp]:
  "vl_AddAddrRange (vl_AddAddrRange vl a w) a w' = vl_AddAddrRange vl a w'"
  by (simp add: vl_AddAddrRange_def)

lemma v_Weight_AddAddrRange:
  assumes "v \<in> set (vl_AddAddrRange vl a w)" "v_Addr v = a \<or> v_Proxy v = a"
  shows "v_Weight v = Some w"
proof -
  obtain x where "v = (if v_Addr x = a \<or> v_Proxy x = a then x\<lparr>v_Weight := Some w\<rparr> else x)"
    using assms(1) unfolding vl_AddAddrRange_def set_map by (elim imageE)
  then show ?thesis using assms(2) by (cases "v_Addr x = a \<or> v_Proxy x = a") simp_all
qed

text \<open>The first test never has an effect: the range it stores is always overwritten.\<close>
lemma assign_range_eq:
  "assign_range vl addr len = vl_AddAddrRange vl addr
    (if address_big addr + len < maxAddressValue then [address_big addr, address_big addr + len]
     else [address_big addr, maxAddressValue, 0, (address_big addr + len) mod maxAddressValue])"
  by (simp add: assign_range_def Let_def)

text \<open>
  For a range shorter than the ring, a validator covers exactly the points whose distance from
  its address, going up and round the ring, is positive and less than the length of the range.
\<close>
lemma covers_range:
  assumes "v \<in> set (assign_range vl addr len)" "v_Addr v = addr \<or> v_Proxy v = addr"
    and "0 \<le> len" "len < maxAddressValue" "0 < point" "point < maxAddressValue"
  shows "covers point v \<longleftrightarrow>
    0 < (point - address_big addr) mod maxAddressValue \<and>
    (point - address_big addr) mod maxAddressValue < len"
proof -
  let ?a = "address_big addr" and ?M = maxAddressValue
  have a: "0 \<le> ?a" "?a \<le> ?M"
    using address_big_less [of addr] by (simp_all add: maxAddressValue_eq)
  have w: "v_Weight v = Some (if ?a + len < ?M then [?a, ?a + len] else [?a, ?M, 0, (?a + len) mod ?M])"
    using v_Weight_AddAddrRange [OF assms(1) [unfolded assign_range_eq] assms(2)] .
  have fold: "(?a + len) mod ?M = ?a + len - ?M" if "\<not> ?a + len < ?M"
    using that a assms(4) mod_pos_pos_trivial [of "?a + len - ?M" ?M] by simp
  show ?thesis
  proof (cases "?a \<le> point")
    case True
    then have d: "(point - ?a) mod ?M = point - ?a"
      using a assms(6) by (intro mod_pos_pos_trivial) linarith+
    show ?thesis unfolding d using w fold True a assms(3-6) by (auto simp: covers_def)
  next
    case False
    then have d: "(point - ?a) mod ?M = point - ?a + ?M"
      using a assms(5,6) mod_pos_pos_trivial [of "point - ?a + ?M" ?M] by simp
    show ?thesis unfolding d using w fold False a assms(3-6) by (auto simp: covers_def)
  qed
qed


subsection \<open>The pool of validators\<close>

abbreviation vl_entries :: "ValidatorList \<Rightarrow> (address \<times> int) list" where
  "vl_entries vl \<equiv> map (\<lambda>v. (v_Addr v, v_Balance v)) vl"

text \<open>
  A pool fit for selection: distinct addresses, positive stakes, and no validator's proxy is
  the address of another validator.
\<close>
definition vl_pool :: "ValidatorList \<Rightarrow> bool" where
  "vl_pool vl \<longleftrightarrow> distinct (map v_Addr vl) \<and> (\<forall>v \<in> set vl. 0 < v_Balance v) \<and>
    (\<forall>v \<in> set vl. \<forall>w \<in> set vl. v_Proxy v = v_Addr w \<longrightarrow> v_Addr v = v_Addr w)"

lemma vl_pool_subset: "\<lbrakk>vl_pool vl; set vs \<subseteq> set vl; distinct (map v_Addr vs)\<rbrakk> \<Longrightarrow> vl_pool vs"
  unfolding vl_pool_def by blast

lemma vl_pool_distinct: "vl_pool vl \<Longrightarrow> distinct (map v_Addr vl)"
  and vl_pool_proxy: "\<lbrakk>vl_pool vl; v \<in> set vl; w \<in> set vl; v_Proxy v = v_Addr w\<rbrakk> \<Longrightarrow> v_Addr v = v_Addr w"
  unfolding vl_pool_def by blast+

lemma vl_DeepCopy_maps [simp]:
  "map v_Addr (vl_DeepCopy vl) = map v_Addr vl"
  "map v_Balance (vl_DeepCopy vl) = map v_Balance vl"
  "map v_Proxy (vl_DeepCopy vl) = map v_Proxy vl"
  "vl_entries (vl_DeepCopy vl) = vl_entries vl"
  "length (vl_DeepCopy vl) = length vl"
  by (simp_all add: vl_DeepCopy_def)

lemma vl_pool_DeepCopy [simp]: "vl_pool (vl_DeepCopy vl) \<longleftrightarrow> vl_pool vl"
  by (simp add: vl_pool_def vl_DeepCopy_def comp_def)

lemma vl_selectAddress_scan: "vl_selectAddress_loop vl sm r = select_scan (vl_entries vl) sm r"
  by (induction vl arbitrary: sm) (auto simp: Let_def)

lemma vl_StakeBalance_pool:
  assumes "vl_pool vl" "v \<in> set vl"
  shows "vl_StakeBalance vl (v_Addr v) = v_Balance v"
proof -
  have "find (\<lambda>st. v_Addr st = v_Addr v \<or> v_Proxy st = v_Addr v) vl =
      find (\<lambda>st. v_Addr st = v_Addr v) vl"
    using vl_pool_proxy [OF assms(1) _ assms(2)] by (intro find_cong) auto
  also have "\<dots> = Some v"
    using assms by (intro find_member) (simp_all add: vl_pool_distinct)
  finally show ?thesis by (simp add: vl_StakeBalance_def)
qed

lemma vl_RemoveValidator_all:
  assumes "vl_pool vl" "v \<in> set vl"
  shows "snd (vl_RemoveValidator vl (v_Addr v) (vl_StakeBalance vl (v_Addr v))) =
    sort_Sort vl_Less (del_first (\<lambda>w. v_Addr w = v_Addr v) vl)"
  using assms find_member [of v_Addr vl v]
  by (simp add: vl_StakeBalance_pool vl_RemoveValidator_def vl_pool_distinct)

interpretation vlpool: weighted_pool vl_pool vl_entries vl_TotalStakeBalance vl_selectAddress
  "\<lambda>p a. snd (vl_RemoveValidator p a (vl_StakeBalance p a))" vl_select_loop
proof
  fix p a
  assume p: "vl_pool p" and "a \<in> fst ` set (vl_entries p)"
  then obtain v where v: "v \<in> set p" "a = v_Addr v" by auto
  have eq: "snd (vl_RemoveValidator p a (vl_StakeBalance p a)) =
      sort_Sort vl_Less (del_first (\<lambda>v. v_Addr v = a) p)"
    using p v vl_RemoveValidator_all [of p v] by simp
  show "vl_pool (snd (vl_RemoveValidator p a (vl_StakeBalance p a)))"
    using p set_del_first [of "\<lambda>v. v_Addr v = a" p]
    by (intro vl_pool_subset [OF p]) (auto simp: eq vl_pool_distinct keyed)
  show "fst ` set (vl_entries (snd (vl_RemoveValidator p a (vl_StakeBalance p a)))) =
      fst ` set (vl_entries p) - {a}"
    using p by (simp add: eq vl_pool_distinct image_image keyed)
next
  fix p
  show "vl_pool p \<Longrightarrow> distinct (map fst (vl_entries p)) \<and> (\<forall>e \<in> set (vl_entries p). 0 < snd e)"
    by (simp add: vl_pool_def comp_def)
qed (simp_all add: vl_total vl_selectAddress_def vl_selectAddress_scan comp_def)

subsection \<open>Collecting and filling up\<close>

lemma filter_notin_snoc:
  "x \<notin> set ys \<Longrightarrow> filter (\<lambda>a. a \<notin> set (xs @ [x])) ys = filter (\<lambda>a. a \<notin> set xs) ys"
  by (intro filter_cong) auto

lemma fill_loop_eq:
  assumes "distinct (map v_Addr vl)"
  shows "fill_loop vl vs d = vs @ take (nat d) (filter (\<lambda>a. a \<notin> set vs) (map v_Addr vl))"
  using assms
proof (induction vl arbitrary: vs d)
  case (Cons v vl)
  have new: "v_Addr v \<notin> set (map v_Addr vl)" and IH: "fill_loop vl vs' d' =
      vs' @ take (nat d') (filter (\<lambda>a. a \<notin> set vs') (map v_Addr vl))" for vs' d'
    using Cons by simp_all
  show ?case
  proof (cases "v_Addr v \<notin> set vs \<and> d > 0")
    case True
    then have "nat d = Suc (nat (d - 1))" by arith
    then show ?thesis
      using True IH [of "vs @ [v_Addr v]" "d - 1"] filter_notin_snoc [OF new, of vs]
      by (simp add: list_ex_iff)
  next
    case False
    then show ?thesis using IH [of vs d] by (auto simp: list_ex_iff)
  qed
qed simp

lemma mset_tie_loop [simp]: "mset (tie_loop r vl) = mset vl"
  by (induction r vl rule: tie_loop.induct) auto

lemma mset_weighted_fold:
  assumes "distinct (map v_Addr acc @ map (v_Addr \<circ> fst) zs)"
  shows "mset (map v_Addr (foldl (\<lambda>s (v, w).
      snd (vl_AddValidator s (v_Addr v) (v_Balance v * uint w) empty_address)) acc zs)) =
    mset (map v_Addr acc) + mset (map (v_Addr \<circ> fst) zs)"
  using assms
proof (induction zs arbitrary: acc)
  case (Cons z zs)
  obtain v w where z: "z = (v, w)" by fastforce
  let ?acc = "snd (vl_AddValidator acc (v_Addr v) (v_Balance v * uint w) empty_address)"
  have new: "v_Addr v \<notin> v_Addr ` set acc"
    using Cons.prems z by simp
  then have "\<not> list_ex (\<lambda>x. v_Addr x = v_Addr v) acc"
    by (force simp: list_ex_iff)
  then have acc: "?acc = sort_Sort vl_Less (acc @ [NewValidator (v_Addr v) (v_Balance v * uint w) 0])"
    by (simp add: vl_AddValidator_def)
  have "distinct (map v_Addr ?acc @ map (v_Addr \<circ> fst) zs)"
    unfolding distinct_append using Cons.prems z new by (simp add: acc comp_def)
  from Cons.IH [OF this] show ?case using z by (simp add: acc)
qed simp

lemma mset_weighted_set:
  assumes "distinct (map v_Addr vl)" "length vl \<le> length weights"
  shows "mset (map v_Addr (weighted_set vl weights)) = mset (map v_Addr vl)"
proof -
  have "map (v_Addr \<circ> fst) (zip vl weights) = map v_Addr vl"
    using assms(2) by (simp add: map_fst_zip_take flip: map_map)
  then show ?thesis
    using assms(1) mset_weighted_fold [of "[]" "zip vl weights"] by (simp add: weighted_set_def)
qed


lemma find_validator:
  assumes "distinct (map v_Addr vl)" "a \<in> v_Addr ` set vl"
  obtains v where "v \<in> set vl" "v_Addr v = a" "find (\<lambda>v. v_Addr v = a) vl = Some v"
  using assms find_member [OF assms(1)] by auto

lemma validators_of_maps:
  assumes "distinct (map v_Addr vl)" "set addrs \<subseteq> v_Addr ` set vl"
  shows "map v_Addr (validators_of vl addrs) = addrs \<and> set (validators_of vl addrs) \<subseteq> set vl"
  using assms(2)
proof (induction addrs)
  case (Cons a addrs)
  obtain v where "v \<in> set vl" "v_Addr v = a" "find (\<lambda>v. v_Addr v = a) vl = Some v"
    by (rule find_validator [OF assms(1), of a]) (use Cons.prems in auto)
  then show ?case using Cons by (simp add: validators_of_def)
qed (simp add: validators_of_def)

lemma vl_SelectRandom_pool:
  assumes "vl_pool vl" "0 \<le> k"
  shows "\<exists>as. vl_SelectRandom11AddressV2 keccak vl k h = Some (Inr as) \<and>
    length as = min (nat k) (length vl) \<and> distinct as \<and> set as \<subseteq> v_Addr ` set vl"
proof (cases "k > int (length vl)")
  case True
  then show ?thesis
    using vl_pool_distinct [OF assms(1)] by (simp add: vl_SelectRandom11AddressV2_def)
next
  case False
  have card: "card (fst ` set (vl_entries (vl_DeepCopy vl))) = length vl"
    using vl_pool_distinct [OF assms(1)] distinct_card [of "map v_Addr vl"]
    by (simp add: image_image del: distinct_map)
  have "nat k \<le> card (fst ` set (vl_entries (vl_DeepCopy vl)))"
    using False card by linarith
  then obtain as where
    "vl_select_loop keccak (nat k) (vl_DeepCopy vl) h [] = Some (Inr ([] @ as))"
    "length as = nat k" "distinct as" "set as \<subseteq> fst ` set (vl_entries (vl_DeepCopy vl))"
    using vlpool.loop_selects [of "vl_DeepCopy vl" "nat k" keccak h "[]"] assms(1)
      vl_pool_DeepCopy [of vl] by blast
  then show ?thesis
    using False by (auto simp: vl_SelectRandom11AddressV2_def image_image)
qed

text \<open>The addresses RandomValidatorV4 draws from.\<close>
lemma V4_candidates:
  assumes "distinct (map v_Addr vl)" "length weights = length vl"
    and vs: "vs = map v_Addr (filter P vl)" and "d = k - int (length vs)" "0 < d"
  obtains cs where "vl_MakeUpValidators vl vs weights h d = Some cs" "distinct cs"
    "set cs \<subseteq> v_Addr ` set vl" "length cs = min (nat k) (length vl)"
proof -
  let ?ws = "tie_loop (hash_big h) (weighted_set vl weights)"
  let ?new = "filter (\<lambda>a. a \<notin> set vs) (map v_Addr ?ws)"
  have perm: "mset (map v_Addr ?ws) = mset (map v_Addr vl)"
    using mset_weighted_set [OF assms(1)] assms(2) by simp
  have dist: "distinct (map v_Addr ?ws)" and set: "set (map v_Addr ?ws) = v_Addr ` set vl"
    using assms(1) mset_eq_imp_distinct_iff [OF perm] mset_eq_setD [OF perm] by simp_all
  have dvs: "distinct vs" "set vs \<subseteq> v_Addr ` set vl"
    using assms(1) vs by (simp_all add: distinct_map_filter image_mono)
  have new: "distinct ?new" "set ?new = v_Addr ` set vl - set vs"
    unfolding set_filter set using dist by (blast intro: distinct_filter, blast)
  have "length ?new = card (v_Addr ` set vl - set vs)"
    unfolding new(2) [symmetric] using new(1) by (rule distinct_card [symmetric])
  also have "\<dots> = length vl - length vs"
    using dvs(2) distinct_card [OF dvs(1)] distinct_card [OF assms(1)]
    by (simp add: card_Diff_subset)
  finally have len: "length ?new = length vl - length vs" .
  have "length vs \<le> length vl" using vs by simp
  then have "length (vs @ take (nat d) ?new) = min (nat k) (length vl)"
    using assms(4,5) len by (simp add: min_def) linarith
  moreover have "distinct (vs @ take (nat d) ?new)"
    unfolding distinct_append using dvs(1) new set_take_subset [of "nat d" ?new] distinct_take
    by blast
  moreover have "set (vs @ take (nat d) ?new) \<subseteq> v_Addr ` set vl"
    unfolding set_append using dvs(2) new(2) set_take_subset [of "nat d" ?new] by blast
  ultimately show ?thesis
    using that [of "vs @ take (nat d) ?new"] assms(2) fill_loop_eq [OF dist, of vs d]
    by (simp add: vl_MakeUpValidators_def)
qed



end
