(* ===== verification/Active_Miners.thy ===== *)
theory Active_Miners
  imports Staker_Lists
begin

text \<open>
  core/types/active_miner_pool.go: the pool of active miners, ordered by address, and its
  copy ordered by pledge amount, which the code computes with a hand-written insertion sort on
  the slice.  The sort is shown equal to the library's stable sort.
\<close>

record ActiveMiner =
  am_Address :: address
  am_Balance :: int
  am_Height :: uint64

type_synonym ActiveMinerList = "ActiveMiner list"

definition NewActiveMiner :: "address \<Rightarrow> int \<Rightarrow> uint64 \<Rightarrow> ActiveMiner" where
  "NewActiveMiner addr balance height =
    \<lparr>am_Address = addr, am_Balance = balance, am_Height = height\<rparr>"

definition aml_Less :: "ActiveMiner \<Rightarrow> ActiveMiner \<Rightarrow> bool" where
  "aml_Less m n \<longleftrightarrow> address_big (am_Address m) < address_big (am_Address n)"

definition aml_AddAndUpdateActiveAddr ::
    "ActiveMinerList \<Rightarrow> address \<Rightarrow> int \<Rightarrow> uint64 \<Rightarrow> bool \<times> ActiveMinerList" where
  "aml_AddAndUpdateActiveAddr l addr balance height =
    (if list_ex (\<lambda>v. am_Address v = addr) l
     then (True, sort_Sort aml_Less (upd_first (\<lambda>v. am_Address v = addr)
       (\<lambda>v. v\<lparr>am_Height := height\<rparr>) l))
     else (True, sort_Sort aml_Less (l @ [NewActiveMiner addr balance height])))"

definition aml_GetIndex :: "ActiveMinerList \<Rightarrow> address \<Rightarrow> bool \<times> int" where
  "aml_GetIndex l addr =
    (case index_first (\<lambda>v. am_Address v = addr) l of Some i \<Rightarrow> (True, int i) | None \<Rightarrow> (False, -1))"

definition aml_RemoveActiveAddr :: "ActiveMinerList \<Rightarrow> address \<Rightarrow> ActiveMinerList \<times> bool result" where
  "aml_RemoveActiveAddr l addr =
    (case aml_GetIndex l addr of
       (True, index) \<Rightarrow> (take (nat index) l @ drop (nat (index + 1)) l, Inr True)
     | (False, _) \<Rightarrow> (l, Inl ''RemoveActiveAddr: The address was not found''))"

definition aml_ConvertToBigInt :: "ActiveMinerList \<Rightarrow> ActiveMiner list \<Rightarrow> int list" where
  "aml_ConvertToBigInt l validators =
    (if length validators = 0 then map (\<lambda>m. address_big (am_Address m)) l
     else map (\<lambda>m. address_big (am_Address m)) validators)"

definition aml_TotalStakeBalance :: "ActiveMinerList \<Rightarrow> int" where
  "aml_TotalStakeBalance l = foldl (\<lambda>total v. total + am_Balance v) 0 l"

definition aml_StakeBalance :: "ActiveMinerList \<Rightarrow> address \<Rightarrow> int" where
  "aml_StakeBalance l addr =
    (case find (\<lambda>v. am_Address v = addr) l of Some v \<Rightarrow> am_Balance v | None \<Rightarrow> 0)"

definition aml_ValidatorByDistanceAndWeight ::
    "(PairList \<Rightarrow> PairList) \<Rightarrow> ActiveMinerList \<Rightarrow> int list \<Rightarrow> int \<Rightarrow> hash \<Rightarrow> address list option" where
  "aml_ValidatorByDistanceAndWeight rng l addr k randomHash = do {
     let x = address_big (hash_to_address randomHash);
     addrToWeightMap \<leftarrow> those (map (stake_weight (aml_StakeBalance l) (aml_TotalStakeBalance l) x) addr);
     Some (top_k k (rankByWordCount (rng addrToWeightMap)))
   }"

text \<open>
  The inner loop of InsertSort; the last argument is before + 1, the place that is free for
  the current miner.
\<close>
fun shift_loop :: "ActiveMiner \<Rightarrow> ActiveMinerList \<Rightarrow> nat \<Rightarrow> ActiveMinerList \<times> nat" where
  "shift_loop current arr 0 = (arr, 0)"
| "shift_loop current arr (Suc before) =
    (if am_Balance current < am_Balance (arr ! before)
     then shift_loop current (arr[Suc before := arr ! before]) before
     else (arr, Suc before))"

definition insert_step :: "ActiveMinerList \<Rightarrow> nat \<Rightarrow> ActiveMinerList" where
  "insert_step arr i =
    (let current = arr ! i in
     case shift_loop current arr i of (arr, place) \<Rightarrow> arr[place := current])"

definition InsertSort :: "ActiveMinerList \<Rightarrow> ActiveMinerList result" where
  "InsertSort arr =
    (if length arr \<le> 1 then Inl ''active miners less than one''
     else Inr (foldl insert_step arr [1..<length arr]))"

definition aml_SortByPledgeAmount :: "ActiveMinerList \<Rightarrow> ActiveMinerList result" where
  "aml_SortByPledgeAmount l = InsertSort l"

definition aml_GetByAddress :: "ActiveMinerList \<Rightarrow> address \<Rightarrow> int" where
  "aml_GetByAddress al addr =
    (case index_first (\<lambda>v. am_Address v = addr) al of Some i \<Rightarrow> int i | None \<Rightarrow> -1)"

text \<open>None stands for the zero ActiveMiner.\<close>
definition aml_GetByIndex :: "ActiveMinerList \<Rightarrow> uint64 \<Rightarrow> ActiveMiner option" where
  "aml_GetByIndex al i = (if unat i \<ge> length al then None else Some (al ! unat i))"

subsection \<open>The pool ordered by address\<close>

interpretation amlsort: sort_interface aml_Less
  by unfold_locales (auto simp: aml_Less_def)

definition aml_wf :: "ActiveMinerList \<Rightarrow> bool" where
  "aml_wf l \<longleftrightarrow> sorted_by aml_Less l \<and> distinct (map am_Address l)"

lemma aml_RemoveActiveAddr_del:
  "fst (aml_RemoveActiveAddr l addr) = del_first (\<lambda>v. am_Address v = addr) l"
  by (auto simp: aml_RemoveActiveAddr_def aml_GetIndex_def nat_add_distrib
      del_first_index [of _ l] split: option.splits)

lemma sorted_by_del_first: "sorted_wrt R xs \<Longrightarrow> sorted_wrt R (del_first P xs)"
  using set_del_first [of P] by (induction xs) auto

lemma aml_wf_ops:
  assumes "aml_wf l"
  shows "aml_wf (snd (aml_AddAndUpdateActiveAddr l a b h))"
    and "aml_wf (fst (aml_RemoveActiveAddr l a))"
  using assms sorted_by_del_first [of _ l]
  by (auto simp: aml_wf_def aml_AddAndUpdateActiveAddr_def aml_RemoveActiveAddr_del
      amlsort.sorted_sort_Sort keyed NewActiveMiner_def list_ex_iff)

subsection \<open>InsertSort is a stable sort by pledge amount\<close>

text \<open>What one step does to the sorted prefix, read from its end.\<close>
fun ins_rev :: "ActiveMiner \<Rightarrow> ActiveMiner list \<Rightarrow> ActiveMiner list" where
  "ins_rev cur [] = [cur]"
| "ins_rev cur (z # zs) =
    (if am_Balance cur < am_Balance z then z # ins_rev cur zs else cur # z # zs)"

abbreviation ins :: "ActiveMiner \<Rightarrow> ActiveMiner list \<Rightarrow> ActiveMiner list" where
  "ins cur xs \<equiv> rev (ins_rev cur (rev xs))"

lemma shift_loop_ins:
  "(case shift_loop cur (xs @ x # ys) (length xs) of (arr, place) \<Rightarrow> arr[place := cur]) = ins cur xs @ ys"
proof (induction xs arbitrary: x ys rule: rev_induct)
  case (snoc z xs)
  show ?case
    using snoc.IH [of z "z # ys"] by (simp add: nth_append list_update_append)
qed simp

lemma insert_step_ins: "insert_step (xs @ x # ys) (length xs) = ins x xs @ ys"
  using shift_loop_ins [of x xs x ys] by (simp add: insert_step_def nth_append)

lemma mset_ins_rev [simp]: "mset (ins_rev cur zs) = add_mset cur (mset zs)"
  by (induction zs) auto

lemma length_ins_rev [simp]: "length (ins_rev cur zs) = Suc (length zs)"
  by (induction zs) auto

lemma sorted_ins_rev:
  "sorted_wrt (\<lambda>m n. am_Balance n \<le> am_Balance m) zs \<Longrightarrow>
    sorted_wrt (\<lambda>m n. am_Balance n \<le> am_Balance m) (ins_rev cur zs)"
proof (induction zs)
  case (Cons z zs)
  have "set (ins_rev cur zs) = insert cur (set zs)"
    using mset_eq_setD [of "ins_rev cur zs" "cur # zs"] by simp
  then show ?case using Cons by force
qed simp

text \<open>Entries of equal balance keep their order.\<close>
lemma filter_ins_rev:
  "sorted_wrt (\<lambda>m n. am_Balance n \<le> am_Balance m) zs \<Longrightarrow>
    filter (\<lambda>m. b = am_Balance m) (ins_rev cur zs) = filter (\<lambda>m. b = am_Balance m) (cur # zs)"
  by (induction zs) auto

lemma insert_sort_fold:
  assumes "sorted_wrt (\<lambda>m n. am_Balance n \<le> am_Balance m) (rev xs)"
  shows "\<exists>zs. foldl insert_step (xs @ ys) [length xs..<length xs + length ys] = zs \<and>
    sorted_wrt (\<lambda>m n. am_Balance n \<le> am_Balance m) (rev zs) \<and> mset zs = mset (xs @ ys) \<and>
    (\<forall>b. filter (\<lambda>m. b = am_Balance m) zs = filter (\<lambda>m. b = am_Balance m) (xs @ ys))"
  using assms
proof (induction ys arbitrary: xs)
  case (Cons y ys)
  have len: "length (ins y xs) = Suc (length xs)"
    by simp
  have "[length xs..<length xs + length (y # ys)] = length xs # [length (ins y xs)..<length (ins y xs) + length ys]"
    using len upt_conv_Cons [of "length xs" "length xs + length (y # ys)"] by simp
  then have eq: "foldl insert_step (xs @ y # ys) [length xs..<length xs + length (y # ys)] =
      foldl insert_step (ins y xs @ ys) [length (ins y xs)..<length (ins y xs) + length ys]"
    by (simp add: insert_step_ins)
  have fil: "filter (\<lambda>m. b = am_Balance m) (ins y xs) = filter (\<lambda>m. b = am_Balance m) (xs @ [y])" for b
    using filter_ins_rev [OF Cons.prems, of b y] by (simp flip: rev_filter)
  show ?case
    unfolding eq using Cons.IH [of "ins y xs"] sorted_ins_rev [OF Cons.prems, of y] fil by simp
qed simp

lemma InsertSort_sort_key:
  assumes "1 < length arr"
  shows "InsertSort arr = Inr (sort_key am_Balance arr)"
proof -
  obtain x ys where arr: "arr = [x] @ ys" using assms by (cases arr) auto
  let ?zs = "foldl insert_step ([x] @ ys) [1..<1 + length ys]"
  have zs: "sorted_wrt (\<lambda>m n. am_Balance n \<le> am_Balance m) (rev ?zs)" "mset ?zs = mset arr"
    "\<And>b. filter (\<lambda>m. b = am_Balance m) ?zs = filter (\<lambda>m. b = am_Balance m) arr"
    using insert_sort_fold [of "[x]" ys] arr by auto
  have "sort_key am_Balance arr = ?zs"
    using zs by (intro properties_for_sort_key) (auto simp: sorted_wrt_rev sorted_wrt_map)
  then show ?thesis using assms arr by (simp add: InsertSort_def)
qed

text \<open>
  C32.  SortByPledgeAmount on a pool of at least two miners returns the pool in ascending order of
  balance, with miners of equal balance in the order they had, and reports an error for
  smaller pools.
\<close>
theorem SortByPledgeAmount_stable_sort:
  "aml_SortByPledgeAmount l =
    (if length l \<le> 1 then Inl ''active miners less than one'' else Inr (sort_key am_Balance l))"
  using InsertSort_sort_key [of l] by (auto simp: aml_SortByPledgeAmount_def InsertSort_def)

end
