(* ===== verification/CSBT_Types.thy ===== *)
theory CSBT_Types
  imports Prelude
begin

text \<open>
  core/types/nfttypes.go and core/types/online_validator.go: the mint counters, the list of
  injected CSBT collections, the staking/CSBT transaction payload (struct Wormholes) with its
  format check and intrinsic gas, and the list of online validators.
\<close>

subsection \<open>Injected collections\<close>

text \<open>The fields UserMint and OfficialMint are nil until they are first set.\<close>
record MintDeep =
  md_UserMint :: "int option"
  md_OfficialMint :: "int option"

record InjectedOfficialNFT =
  inj_Dir :: string
  inj_StartIndex :: int
  inj_Number :: uint64
  inj_Royalty :: "16 word"
  inj_Creator :: string
  inj_Address :: address
  inj_VoteWeight :: int

type_synonym InjectedOfficialNFTList = "InjectedOfficialNFT list"

text \<open>The constant 0x8000000000000000000000000000000000000000, the first CSBT address.\<close>
definition maskB :: int where
  "maskB = 0x8000000000000000000000000000000000000000"

text \<open>The index after the last one of a collection.\<close>
definition inj_end :: "InjectedOfficialNFT \<Rightarrow> int" where
  "inj_end n = inj_StartIndex n + uint (inj_Number n)"

definition inj_GetInjectedInfo :: "InjectedOfficialNFTList \<Rightarrow> address \<Rightarrow> InjectedOfficialNFT option" where
  "inj_GetInjectedInfo l addr =
    (let addrInt = address_big addr - maskB in
     find (\<lambda>n. inj_StartIndex n = addrInt \<or> (inj_StartIndex n < addrInt \<and> inj_end n > addrInt)) l)"

text \<open>The index found by the loop, 0 when the loop finds none.\<close>
definition inj_DeleteExpireElem :: "InjectedOfficialNFTList \<Rightarrow> int \<Rightarrow> InjectedOfficialNFTList" where
  "inj_DeleteExpireElem l num =
    (let index = (case index_first (\<lambda>n. inj_end n + maskB > num) l of Some k \<Rightarrow> k | None \<Rightarrow> 0)
     in drop index l)"

text \<open>Both tests of the loop body of RemainderNum, on one collection; the sum wraps at 2^64.\<close>
definition remainder_step :: "int \<Rightarrow> uint64 \<Rightarrow> InjectedOfficialNFT \<Rightarrow> uint64" where
  "remainder_step addrInt sm n =
    (let sm = (if inj_StartIndex n \<ge> addrInt then sm + inj_Number n else sm) in
     if inj_StartIndex n < addrInt
     then let tempInt = inj_end n + maskB in
       if tempInt \<ge> addrInt then sm + word_of_int \<bar>tempInt - addrInt\<bar> else sm
     else sm)"

definition inj_RemainderNum :: "InjectedOfficialNFTList \<Rightarrow> int \<Rightarrow> uint64" where
  "inj_RemainderNum l addrInt = foldl (remainder_step addrInt) 0 l"

definition inj_MaxIndex :: "InjectedOfficialNFTList \<Rightarrow> int" where
  "inj_MaxIndex l = foldl (\<lambda>mx n. let index = inj_end n in if index > mx then index else mx) 0 l"

definition inj_DeepCopy :: "InjectedOfficialNFTList \<Rightarrow> InjectedOfficialNFTList" where
  "inj_DeepCopy l = map (\<lambda>v. \<lparr>inj_Dir = inj_Dir v, inj_StartIndex = inj_StartIndex v,
    inj_Number = inj_Number v, inj_Royalty = inj_Royalty v, inj_Creator = inj_Creator v,
    inj_Address = inj_Address v, inj_VoteWeight = inj_VoteWeight v\<rparr>) l"

lemma inj_DeepCopy_id [simp]: "inj_DeepCopy l = l"
  by (simp add: inj_DeepCopy_def map_idI)

text \<open>MaxIndex is the least upper bound, with 0, of the ends of all collections.\<close>
lemma inj_MaxIndex_Max: "inj_MaxIndex l = Max (insert 0 (inj_end ` set l))"
proof -
  have step: "(\<lambda>mx n. let index = inj_end n in if index > mx then index else mx) =
      (\<lambda>mx n. max mx (inj_end n))"
    by (auto simp: max_def Let_def fun_eq_iff)
  have "foldl (\<lambda>mx n. max mx (inj_end n)) acc l = Max (insert acc (inj_end ` set l))" for acc
  proof (induction l arbitrary: acc)
    case (Cons n l)
    then show ?case
      by (cases "set l = {}") (simp_all add: max.assoc)
  qed simp
  then show ?thesis by (simp only: inj_MaxIndex_def step)
qed

lemma index_first_dropWhile:
  "index_first P l = Some k \<Longrightarrow> drop k l = dropWhile (\<lambda>x. \<not> P x) l"
  by (induction l arbitrary: k) (auto split: if_splits)

text \<open>
  C35.  DeleteExpireElem drops exactly the leading collections that lie below the given number when
  some collection of the list reaches past it; when all of them are used up it drops nothing.
\<close>
theorem DeleteExpireElem_behaviour:
  "inj_DeleteExpireElem l num =
    (if \<exists>n \<in> set l. inj_end n + maskB > num
     then dropWhile (\<lambda>n. inj_end n + maskB \<le> num) l else l)"
proof (cases "index_first (\<lambda>n. inj_end n + maskB > num) l")
  case None
  then show ?thesis
    using index_first_None [of "\<lambda>n. inj_end n + maskB > num" l]
    by (simp add: inj_DeleteExpireElem_def list_ex_iff)
next
  case (Some k)
  moreover from this have "\<exists>n \<in> set l. inj_end n + maskB > num"
    using index_first_None [of "\<lambda>n. inj_end n + maskB > num" l] by (auto simp: list_ex_iff)
  ultimately show ?thesis
    using index_first_dropWhile [OF Some] by (simp add: inj_DeleteExpireElem_def not_less)
qed

text \<open>What GetInjectedInfo finds contains the address, unless it is an empty collection.\<close>
lemma GetInjectedInfo_contains:
  assumes "inj_GetInjectedInfo l addr = Some n" "0 < inj_Number n"
  shows "n \<in> set l" "inj_StartIndex n \<le> address_big addr - maskB"
    "address_big addr - maskB < inj_end n"
  using assms find_SomeD [of _ l n]
  by (auto simp: inj_GetInjectedInfo_def inj_end_def Let_def word_less_def dest!: find_SomeD)

subsection \<open>Staking and CSBT transactions\<close>

record Wormholes =
  w_Type :: uint8
  w_CSBTAddress :: string
  w_ProxyAddress :: string
  w_ProxySign :: string
  w_Creator :: string
  w_Version :: string

definition WormholesVersion :: string where
  "WormholesVersion = ''v0.0.1''"

definition CheckFormat :: "Wormholes \<Rightarrow> unit result" where
  "CheckFormat w =
    (if w_Type w = 1 then Inr () else if w_Type w = 2 then Inr () else if w_Type w = 3 then Inr ()
     else if w_Type w = 4 then Inr () else if w_Type w = 5 then Inr ()
     else Inl ''not exist nft type'')"

definition WormholesTx1 :: uint64 where
  "WormholesTx1 = 42000"

definition WormholesTx2 :: uint64 where
  "WormholesTx2 = 42000"

definition WormholesTx3 :: uint64 where
  "WormholesTx3 = 63000"

definition WormholesTx4 :: uint64 where
  "WormholesTx4 = 42000"

definition WormholesTx5 :: uint64 where
  "WormholesTx5 = 42000"

definition TxGas_wormholes :: "Wormholes \<Rightarrow> uint64 result" where
  "TxGas_wormholes w =
    (if w_Type w = 1 then Inr WormholesTx1 else if w_Type w = 2 then Inr WormholesTx2
     else if w_Type w = 3 then Inr WormholesTx3 else if w_Type w = 4 then Inr WormholesTx4
     else if w_Type w = 5 then Inr WormholesTx5 else Inl ''not exist nft type'')"

lemmas WormholesTx_defs = WormholesTx1_def WormholesTx2_def WormholesTx3_def WormholesTx4_def
  WormholesTx5_def

text \<open>A payload has an intrinsic gas cost exactly when its format check succeeds.\<close>
lemma TxGas_CheckFormat:
  "(\<exists>g. TxGas_wormholes w = Inr g) \<longleftrightarrow> CheckFormat w = Inr ()"
  by (simp add: TxGas_wormholes_def CheckFormat_def)

lemma TxGas_bounds: "TxGas_wormholes w = Inr g \<Longrightarrow> 42000 \<le> g \<and> g \<le> 63000"
  by (auto simp: TxGas_wormholes_def WormholesTx_defs word_le_def split: if_splits)

subsection \<open>Online validators\<close>

record OnlineValidator =
  ov_Height :: int
  ov_Address :: address
  ov_Hash :: hash
  ov_Signature :: bytes

definition NewOnlineValidator :: "int \<Rightarrow> address \<Rightarrow> hash \<Rightarrow> bytes \<Rightarrow> OnlineValidator" where
  "NewOnlineValidator height addr h sig =
    \<lparr>ov_Height = height, ov_Address = addr, ov_Hash = h, ov_Signature = sig\<rparr>"

record OnlineValidatorList =
  ol_Height :: int
  ol_Validators :: "OnlineValidator list"

definition ol_Size :: "OnlineValidatorList \<Rightarrow> nat" where
  "ol_Size ol = length (ol_Validators ol)"

definition ol_ExistAddress :: "OnlineValidatorList \<Rightarrow> address \<Rightarrow> bool" where
  "ol_ExistAddress ol addr = list_ex (\<lambda>v. ov_Address v = addr) (ol_Validators ol)"

end
