(* ===== verification/Common_Bytes.thy ===== *)
theory Common_Bytes
  imports Prelude
begin

text \<open>
  common/bytes.go and the conversions of common/types.go: hexadecimal strings to bytes,
  bytes to addresses and hashes, padding and trimming.  encoding/hex of the standard library is
  modelled as the sources use it: the error of DecodeString is dropped, and the bytes decoded
  before the first invalid character are kept.
\<close>

subsection \<open>Hexadecimal strings\<close>

definition hexDigits :: string where
  "hexDigits = ''0123456789abcdef''"

definition fromHexChar :: "char \<Rightarrow> nat option" where
  "fromHexChar c = (let n = (of_char c :: nat) in
     if 48 \<le> n \<and> n \<le> 57 then Some (n - 48)
     else if 97 \<le> n \<and> n \<le> 102 then Some (n - 87)
     else if 65 \<le> n \<and> n \<le> 70 then Some (n - 55)
     else None)"

fun hex_DecodeString :: "string \<Rightarrow> bytes" where
  "hex_DecodeString (p # q # src) =
    (case (fromHexChar p, fromHexChar q) of
       (Some a, Some b) \<Rightarrow> word_of_nat (16 * a + b) # hex_DecodeString src
     | _ \<Rightarrow> [])"
| "hex_DecodeString _ = []"

definition hex_EncodeToString :: "bytes \<Rightarrow> string" where
  "hex_EncodeToString bs =
    concat (map (\<lambda>b. [hexDigits ! (unat b div 16), hexDigits ! (unat b mod 16)]) bs)"

definition has0xPrefix :: "string \<Rightarrow> bool" where
  "has0xPrefix str \<longleftrightarrow> length str \<ge> 2 \<and> str ! 0 = CHR ''0'' \<and> (str ! 1 = CHR ''x'' \<or> str ! 1 = CHR ''X'')"

definition isHexCharacter :: "char \<Rightarrow> bool" where
  "isHexCharacter c = (let n = (of_char c :: nat) in
     (48 \<le> n \<and> n \<le> 57) \<or> (97 \<le> n \<and> n \<le> 102) \<or> (65 \<le> n \<and> n \<le> 70))"

definition isHex :: "string \<Rightarrow> bool" where
  "isHex str = (if length str mod 2 \<noteq> 0 then False else list_all isHexCharacter str)"

definition Bytes2Hex :: "bytes \<Rightarrow> string" where
  "Bytes2Hex d = hex_EncodeToString d"

definition Hex2Bytes :: "string \<Rightarrow> bytes" where
  "Hex2Bytes str = hex_DecodeString str"

definition FromHex :: "string \<Rightarrow> bytes" where
  "FromHex s =
    (let s = (if has0xPrefix s then drop 2 s else s);
         s = (if length s mod 2 = 1 then CHR ''0'' # s else s)
     in Hex2Bytes s)"

text \<open>A negative length is not used.\<close>
definition Hex2BytesFixed :: "string \<Rightarrow> nat \<Rightarrow> bytes" where
  "Hex2BytesFixed str flen =
    (let h = hex_DecodeString str in
     if length h = flen then h
     else if length h > flen then drop (length h - flen) h
     else replicate (flen - length h) 0 @ h)"

subsection \<open>Padding and trimming\<close>

definition RightPadBytes :: "bytes \<Rightarrow> nat \<Rightarrow> bytes" where
  "RightPadBytes sl l = (if l \<le> length sl then sl else sl @ replicate (l - length sl) 0)"

definition LeftPadBytes :: "bytes \<Rightarrow> nat \<Rightarrow> bytes" where
  "LeftPadBytes sl l = (if l \<le> length sl then sl else replicate (l - length sl) 0 @ sl)"

fun TrimLeftZeroes :: "bytes \<Rightarrow> bytes" where
  "TrimLeftZeroes [] = []"
| "TrimLeftZeroes (b # s) = (if b \<noteq> 0 then b # s else TrimLeftZeroes s)"

text \<open>The loop runs the index down from the end.\<close>
function TrimRightZeroes :: "bytes \<Rightarrow> bytes" where
  "TrimRightZeroes s =
    (if s \<noteq> [] \<and> last s = 0 then TrimRightZeroes (butlast s) else s)"
  by pat_completeness auto
termination
  by (relation "measure length") auto

declare TrimRightZeroes.simps [simp del]

subsection \<open>Addresses and hashes\<close>

definition BytesToAddress :: "bytes \<Rightarrow> address" where
  "BytesToAddress b = word_of_int (bytes_big (if length b > 20 then drop (length b - 20) b else b))"

definition BytesToHash :: "bytes \<Rightarrow> hash" where
  "BytesToHash b = word_of_int (bytes_big (if length b > 32 then drop (length b - 32) b else b))"

definition HexToAddress :: "string \<Rightarrow> address" where
  "HexToAddress s = BytesToAddress (FromHex s)"

definition HexToHash :: "string \<Rightarrow> hash" where
  "HexToHash s = BytesToHash (FromHex s)"

definition IsHexAddress :: "string \<Rightarrow> bool" where
  "IsHexAddress s =
    (let s = (if has0xPrefix s then drop 2 s else s) in length s = 2 * 20 \<and> isHex s)"

subsection \<open>Round trips\<close>

lemma fromHexChar_hexDigits: "n < 16 \<Longrightarrow> fromHexChar (hexDigits ! n) = Some n"
proof -
  have "\<forall>n \<in> set [0..<16]. fromHexChar (hexDigits ! n) = Some n" by code_simp
  then show "n < 16 \<Longrightarrow> fromHexChar (hexDigits ! n) = Some n" by simp
qed

lemma byte_nibble: "unat (b :: 8 word) div 16 < 16"
  using unsigned_less [of b, where ?'a = nat] by simp

lemma isHexCharacter_iff: "isHexCharacter c \<longleftrightarrow> fromHexChar c \<noteq> None"
  by (auto simp: isHexCharacter_def fromHexChar_def Let_def)

lemma Hex2Bytes_Bytes2Hex: "Hex2Bytes (Bytes2Hex d) = d"
proof (induction d)
  case (Cons b d)
  have "unat b div 16 < 16" by (rule byte_nibble)
  then show ?case
    using Cons
    by (simp add: Hex2Bytes_def Bytes2Hex_def hex_EncodeToString_def fromHexChar_hexDigits)
qed (simp add: Hex2Bytes_def Bytes2Hex_def hex_EncodeToString_def)

lemma length_Bytes2Hex: "length (Bytes2Hex d) = 2 * length d"
  by (induction d) (simp_all add: Bytes2Hex_def hex_EncodeToString_def)

lemma FromHex_0x: "FromHex (''0x'' @ Bytes2Hex d) = d"
  by (simp add: FromHex_def has0xPrefix_def length_Bytes2Hex Hex2Bytes_Bytes2Hex)

lemma BytesToAddress_bytes [simp]: "BytesToAddress (address_bytes a) = a"
  using bytes_big_address_bytes [of a]
  by (simp add: BytesToAddress_def address_bytes_def address_big_def)

text \<open>
  C36.  Writing an address as 0x followed by its forty hexadecimal digits and reading it back with
  HexToAddress gives the address, and the text passes IsHexAddress.
\<close>
theorem HexToAddress_roundtrip:
  "HexToAddress (''0x'' @ Bytes2Hex (address_bytes a)) = a \<and>
    IsHexAddress (''0x'' @ Bytes2Hex (address_bytes a))"
proof -
  have "list_all isHexCharacter (Bytes2Hex d)" for d
  proof (induction d)
    case (Cons b d)
    have "unat b div 16 < 16" by (rule byte_nibble)
    then show ?case
      using Cons
      by (simp add: Bytes2Hex_def hex_EncodeToString_def isHexCharacter_iff fromHexChar_hexDigits)
  qed (simp add: Bytes2Hex_def hex_EncodeToString_def)
  then have "IsHexAddress (''0x'' @ Bytes2Hex (address_bytes a))"
    by (simp add: IsHexAddress_def has0xPrefix_def isHex_def length_Bytes2Hex address_bytes_def)
  moreover have "HexToAddress (''0x'' @ Bytes2Hex (address_bytes a)) = a"
    unfolding HexToAddress_def FromHex_0x by simp
  ultimately show ?thesis by simp
qed

lemma bytes_big_zeros: "bytes_big (replicate n 0 @ bs) = bytes_big bs"
  by (induction n) (simp_all add: bytes_big_def)

text \<open>Padding and trimming on the left keep the number.\<close>
lemma bytes_big_pad_trim:
  "bytes_big (LeftPadBytes s l) = bytes_big s" "bytes_big (TrimLeftZeroes s) = bytes_big s"
proof -
  show "bytes_big (LeftPadBytes s l) = bytes_big s"
    by (simp add: LeftPadBytes_def bytes_big_zeros)
  show "bytes_big (TrimLeftZeroes s) = bytes_big s"
    by (induction s) (simp_all add: bytes_big_def)
qed

lemma TrimLeftZeroes_head: "TrimLeftZeroes s = b # bs \<Longrightarrow> b \<noteq> 0"
  by (induction s) (auto split: if_splits)

lemma TrimRightZeroes_rev: "TrimRightZeroes s = rev (TrimLeftZeroes (rev s))"
proof (induction s rule: TrimRightZeroes.induct)
  case (1 s)
  then show ?case by (cases s rule: rev_cases) (simp_all add: TrimRightZeroes.simps)
qed

end
