(* ===== verification/Access_List.thy ===== *)
theory Access_List
  imports Prelude
begin

text \<open>
  The per-transaction access list (core/state/access_list.go): the addresses that have been
  touched, each with the index of its set of storage slots, or -1 when it has none.  The journal
  deletes entries in the opposite order of their addition; the lemmas show that DeleteSlot and
  DeleteAddress then restore the list exactly, although DeleteSlot truncates the slice of slot sets.
\<close>

record accessList =
  al_addresses :: "address \<rightharpoonup> int"
  al_slots :: "hash set list"

definition ContainsAddress :: "accessList \<Rightarrow> address \<Rightarrow> bool" where
  "ContainsAddress al address \<longleftrightarrow> al_addresses al address \<noteq> None"

text \<open>An index out of range panics.\<close>
definition al_Contains :: "accessList \<Rightarrow> address \<Rightarrow> hash \<Rightarrow> (bool \<times> bool) option" where
  "al_Contains al address slot =
    (case al_addresses al address of
       None \<Rightarrow> Some (False, False)
     | Some idx \<Rightarrow>
         if idx = -1 then Some (True, False)
         else if 0 \<le> idx \<and> idx < int (length (al_slots al))
         then Some (True, slot \<in> al_slots al ! nat idx)
         else None)"

definition newAccessList :: accessList where
  "newAccessList = \<lparr>al_addresses = Map.empty, al_slots = []\<rparr>"

definition AddAddress :: "accessList \<Rightarrow> address \<Rightarrow> bool \<times> accessList" where
  "AddAddress al address =
    (case al_addresses al address of
       Some _ \<Rightarrow> (False, al)
     | None \<Rightarrow> (True, al\<lparr>al_addresses := (al_addresses al)(address \<mapsto> -1)\<rparr>))"

definition AddSlot :: "accessList \<Rightarrow> address \<Rightarrow> hash \<Rightarrow> ((bool \<times> bool) \<times> accessList) option" where
  "AddSlot al address slot =
    (let present = al_addresses al address in
     if present = None \<or> present = Some (-1)
     then Some ((present = None, True),
       \<lparr>al_addresses = (al_addresses al)(address \<mapsto> int (length (al_slots al))), al_slots = al_slots al @ [{slot}]\<rparr>)
     else let idx = the present in
       if 0 \<le> idx \<and> idx < int (length (al_slots al))
       then if slot \<notin> al_slots al ! nat idx
         then Some ((False, True), al\<lparr>al_slots := (al_slots al)[nat idx := insert slot (al_slots al ! nat idx)]\<rparr>)
         else Some ((False, False), al)
       else None)"

text \<open>The missing address and an index out of range panic.\<close>
definition DeleteSlot :: "accessList \<Rightarrow> address \<Rightarrow> hash \<Rightarrow> accessList option" where
  "DeleteSlot al address slot =
    (case al_addresses al address of
       None \<Rightarrow> None
     | Some idx \<Rightarrow>
         if 0 \<le> idx \<and> idx < int (length (al_slots al))
         then let slotmap = al_slots al ! nat idx - {slot} in
           Some (if slotmap = {}
             then \<lparr>al_addresses = (al_addresses al)(address \<mapsto> -1), al_slots = take (nat idx) (al_slots al)\<rparr>
             else al\<lparr>al_slots := (al_slots al)[nat idx := slotmap]\<rparr>)
         else None)"

definition DeleteAddress :: "accessList \<Rightarrow> address \<Rightarrow> accessList" where
  "DeleteAddress al address = al\<lparr>al_addresses := (al_addresses al)(address := None)\<rparr>"

subsection \<open>Undoing additions\<close>

text \<open>Every index but -1 is in range, and no set of slots is empty.\<close>
definition al_ok :: "accessList \<Rightarrow> bool" where
  "al_ok al \<longleftrightarrow> (\<forall>a idx. al_addresses al a = Some idx \<longrightarrow> idx = -1 \<or> 0 \<le> idx \<and> idx < int (length (al_slots al))) \<and>
    {} \<notin> set (al_slots al)"

lemma al_okD: "\<lbrakk>al_ok al; al_addresses al a = Some idx; idx \<noteq> -1\<rbrakk> \<Longrightarrow> 0 \<le> idx \<and> idx < int (length (al_slots al))"
  by (auto simp: al_ok_def)

lemma al_ok_new [simp]: "al_ok newAccessList"
  by (simp add: al_ok_def newAccessList_def)

lemma AddAddress_undo:
  assumes "AddAddress al a = (added, al')"
  shows "al_ok al \<Longrightarrow> al_ok al'" "\<not> added \<Longrightarrow> al' = al" "added \<Longrightarrow> DeleteAddress al' a = al"
  using assms
  by (fastforce simp: AddAddress_def DeleteAddress_def al_ok_def fun_upd_idem split: option.splits if_splits)+

lemma AddSlot_new:
  assumes "al_ok al" "al_addresses al a = None \<or> al_addresses al a = Some (-1)"
  obtains al' where "AddSlot al a slot = Some ((al_addresses al a = None, True), al')" "al_ok al'"
    "DeleteSlot al' a slot = Some (al\<lparr>al_addresses := (al_addresses al)(a \<mapsto> -1)\<rparr>)"
proof
  let ?al' = "\<lparr>al_addresses = (al_addresses al)(a \<mapsto> int (length (al_slots al))), al_slots = al_slots al @ [{slot}]\<rparr>"
  show "AddSlot al a slot = Some ((al_addresses al a = None, True), ?al')"
    using assms(2) by (simp add: AddSlot_def Let_def)
  show "al_ok ?al'" using assms(1) by (fastforce simp: al_ok_def split: if_splits)
  show "DeleteSlot ?al' a slot = Some (al\<lparr>al_addresses := (al_addresses al)(a \<mapsto> -1)\<rparr>)"
    by (simp add: DeleteSlot_def)
qed

lemma AddSlot_more:
  assumes "al_ok al" "al_addresses al a = Some idx" "idx \<noteq> -1" "slot \<notin> al_slots al ! nat idx"
  obtains al' where "AddSlot al a slot = Some ((False, True), al')" "al_ok al'" "DeleteSlot al' a slot = Some al"
proof
  have idx: "0 \<le> idx \<and> idx < int (length (al_slots al))" "nat idx < length (al_slots al)"
    using al_okD [OF assms(1-3)] by linarith+
  let ?al' = "al\<lparr>al_slots := (al_slots al)[nat idx := insert slot (al_slots al ! nat idx)]\<rparr>"
  show "AddSlot al a slot = Some ((False, True), ?al')" using assms(2-4) idx by (simp add: AddSlot_def)
  have "al_slots al ! nat idx \<in> set (al_slots al)" using idx by simp
  then have "al_slots al ! nat idx \<noteq> {}" using assms(1) by (auto simp: al_ok_def)
  then have "al_slots al ! nat idx - {slot} \<noteq> {}" "insert slot (al_slots al ! nat idx) - {slot} = al_slots al ! nat idx"
    using assms(4) by auto
  then show "DeleteSlot ?al' a slot = Some al"
    using assms(2) idx by (auto simp: DeleteSlot_def Let_def)
  show "al_ok ?al'" using assms(1) set_update_subset_insert by (fastforce simp: al_ok_def)
qed

lemma AddSlot_same:
  assumes "al_ok al" "al_addresses al a = Some idx" "idx \<noteq> -1" "slot \<in> al_slots al ! nat idx"
  shows "AddSlot al a slot = Some ((False, False), al)"
  using assms al_okD [OF assms(1-3)] by (simp add: AddSlot_def)

end
