(* ===== verification/State_Objects.thy ===== *)
theory State_Objects
  imports Pledge_Lists Validator_Lists CSBT_Types Access_List
begin

text \<open>
  The account data of core/types/account_extension.go and core/state/state_object.go, and the
  in-memory state of core/state/statedb.go with its journal (core/state/journal.go).

  A state object is reached in Go through a pointer that the map stateObjects holds under the
  object's address; the model names an object by that address.  A nil pointer (no object, or a
  nil Worm, Csbt or Staker) is None, and following it panics.  The account trie is a map from
  addresses to decoded accounts; the snapshot layer is off (snap is nil).  Contract code and
  storage belong to the EVM interpreter and are not part of the model.
\<close>

subsection \<open>Account extensions\<close>

record WormholesExtension =
  we_PledgedBalance :: "int option"
  we_PledgedBlockNumber :: "int option"
  we_Coefficient :: uint8
  we_StakerExtension :: StakersExtensionList
  we_ValidatorExtension :: ValidatorsExtensionList
  we_ValidatorProxy :: address

text \<open>The zero value \<^verbatim>\<open>WormholesExtension{}\<close>.\<close>
definition WormholesExtension_zero :: WormholesExtension where
  "WormholesExtension_zero = \<lparr>we_PledgedBalance = None, we_PledgedBlockNumber = None,
    we_Coefficient = 0, we_StakerExtension = [], we_ValidatorExtension = [],
    we_ValidatorProxy = empty_address\<rparr>"

definition we_DeepCopy :: "WormholesExtension \<Rightarrow> WormholesExtension" where
  "we_DeepCopy worm = \<lparr>
    we_PledgedBalance = (case we_PledgedBalance worm of Some b \<Rightarrow> Some b | None \<Rightarrow> None),
    we_PledgedBlockNumber = (case we_PledgedBlockNumber worm of Some b \<Rightarrow> Some b | None \<Rightarrow> None),
    we_Coefficient = we_Coefficient worm,
    we_StakerExtension = sel_DeepCopy (we_StakerExtension worm),
    we_ValidatorExtension = vel_DeepCopy (we_ValidatorExtension worm),
    we_ValidatorProxy = we_ValidatorProxy worm\<rparr>"

record AccountCSBT =
  cs_Owner :: address
  cs_Creator :: address

definition AccountCSBT_zero :: AccountCSBT where
  "AccountCSBT_zero = \<lparr>cs_Owner = empty_address, cs_Creator = empty_address\<rparr>"

definition cs_DeepCopy :: "AccountCSBT \<Rightarrow> AccountCSBT" where
  "cs_DeepCopy csbt = \<lparr>cs_Owner = cs_Owner csbt, cs_Creator = cs_Creator csbt\<rparr>"

record AccountStaker =
  as_Mint :: MintDeep
  as_Validators :: ValidatorList
  as_CSBTCreators :: StakerList

definition AccountStaker_zero :: AccountStaker where
  "AccountStaker_zero = \<lparr>as_Mint = \<lparr>md_UserMint = None, md_OfficialMint = None\<rparr>,
    as_Validators = [], as_CSBTCreators = []\<rparr>"

definition as_DeepCopy :: "AccountStaker \<Rightarrow> AccountStaker" where
  "as_DeepCopy staker = \<lparr>
    as_Mint = \<lparr>
      md_UserMint = (case md_UserMint (as_Mint staker) of Some b \<Rightarrow> Some b | None \<Rightarrow> None),
      md_OfficialMint = (case md_OfficialMint (as_Mint staker) of Some b \<Rightarrow> Some b | None \<Rightarrow> None)\<rparr>,
    as_Validators = vl_DeepCopy (as_Validators staker),
    as_CSBTCreators = sl_DeepCopy (as_CSBTCreators staker)\<rparr>"

subsection \<open>Accounts and state objects\<close>

text \<open>A nil Extra slice is None.\<close>
record Account =
  a_Nonce :: uint64
  a_Balance :: int
  a_Root :: hash
  a_CodeHash :: hash
  a_Worm :: "WormholesExtension option"
  a_Csbt :: "AccountCSBT option"
  a_Staker :: "AccountStaker option"
  a_Extra :: "bytes option"

text \<open>crypto.Keccak256(nil).\<close>
definition emptyCodeHash :: hash where
  "emptyCodeHash = 0xc5d2460186f7233c927e7db2dcc703c0e500b653ca82273b7bfad8045d85a470"

definition emptyRoot :: hash where
  "emptyRoot = 0x56e81f171bcc55a6ff8345e692c0f86e5b48e01b996cadc001622fb5e363b421"

text \<open>
  The zero value \<^verbatim>\<open>Account{}\<close>.  Its nil balance and nil code hash are written as the values that
  newObject puts in their place.
\<close>
definition Account_zero :: Account where
  "Account_zero = \<lparr>a_Nonce = 0, a_Balance = 0, a_Root = 0, a_CodeHash = emptyCodeHash,
    a_Worm = None, a_Csbt = None, a_Staker = None, a_Extra = None\<rparr>"

record stateObject =
  so_address :: address
  so_data :: Account
  so_suicided :: bool
  so_deleted :: bool

definition newObject :: "address \<Rightarrow> Account \<Rightarrow> stateObject" where
  "newObject addr data = \<lparr>so_address = addr,
    so_data = \<lparr>a_Nonce = a_Nonce data, a_Balance = a_Balance data,
      a_Root = (if a_Root data = 0 then emptyRoot else a_Root data),
      a_CodeHash = a_CodeHash data,
      a_Worm = map_option we_DeepCopy (a_Worm data),
      a_Csbt = map_option cs_DeepCopy (a_Csbt data),
      a_Staker = map_option as_DeepCopy (a_Staker data),
      a_Extra = Some (case a_Extra data of Some bs \<Rightarrow> bs | None \<Rightarrow> [])\<rparr>,
    so_suicided = False, so_deleted = False\<rparr>"

definition so_empty :: "stateObject \<Rightarrow> bool" where
  "so_empty s \<longleftrightarrow> a_Nonce (so_data s) = 0 \<and> a_Balance (so_data s) = 0 \<and>
    a_CodeHash (so_data s) = emptyCodeHash \<and> a_Worm (so_data s) = None \<and>
    a_Csbt (so_data s) = None \<and> a_Staker (so_data s) = None \<and> a_Extra (so_data s) = None"

definition so_deepCopy :: "stateObject \<Rightarrow> stateObject" where
  "so_deepCopy s = (newObject (so_address s) (so_data s))
    \<lparr>so_suicided := so_suicided s, so_deleted := so_deleted s\<rparr>"

text \<open>The field updates behind the unexported setters (setBalance, setNonce, setOwner, ...).\<close>

definition setBalance :: "int \<Rightarrow> stateObject \<Rightarrow> stateObject" where
  "setBalance amount s = s\<lparr>so_data := so_data s\<lparr>a_Balance := amount\<rparr>\<rparr>"

definition setNonce :: "uint64 \<Rightarrow> stateObject \<Rightarrow> stateObject" where
  "setNonce nonce s = s\<lparr>so_data := so_data s\<lparr>a_Nonce := nonce\<rparr>\<rparr>"

definition setExtra :: "bytes option \<Rightarrow> stateObject \<Rightarrow> stateObject" where
  "setExtra extra s = s\<lparr>so_data := so_data s\<lparr>a_Extra := extra\<rparr>\<rparr>"

definition set_Worm :: "WormholesExtension option \<Rightarrow> stateObject \<Rightarrow> stateObject" where
  "set_Worm w s = s\<lparr>so_data := so_data s\<lparr>a_Worm := w\<rparr>\<rparr>"

definition set_Csbt :: "AccountCSBT option \<Rightarrow> stateObject \<Rightarrow> stateObject" where
  "set_Csbt c s = s\<lparr>so_data := so_data s\<lparr>a_Csbt := c\<rparr>\<rparr>"

definition set_Staker :: "AccountStaker option \<Rightarrow> stateObject \<Rightarrow> stateObject" where
  "set_Staker st s = s\<lparr>so_data := so_data s\<lparr>a_Staker := st\<rparr>\<rparr>"

text \<open>
  Assignments through \<^verbatim>\<open>s.data.Worm\<close>, \<^verbatim>\<open>s.data.Csbt\<close> and \<^verbatim>\<open>s.data.Staker\<close>: None when the pointer
  is nil.
\<close>
definition with_Worm ::
    "(WormholesExtension \<Rightarrow> WormholesExtension) \<Rightarrow> stateObject \<Rightarrow> stateObject option" where
  "with_Worm f s = map_option (\<lambda>w. set_Worm (Some (f w)) s) (a_Worm (so_data s))"

definition with_Csbt :: "(AccountCSBT \<Rightarrow> AccountCSBT) \<Rightarrow> stateObject \<Rightarrow> stateObject option" where
  "with_Csbt f s = map_option (\<lambda>c. set_Csbt (Some (f c)) s) (a_Csbt (so_data s))"

definition with_Staker :: "(AccountStaker \<Rightarrow> AccountStaker) \<Rightarrow> stateObject \<Rightarrow> stateObject option" where
  "with_Staker f s = map_option (\<lambda>st. set_Staker (Some (f st)) s) (a_Staker (so_data s))"

lemmas setter_defs = setBalance_def setNonce_def setExtra_def set_Worm_def set_Csbt_def
  set_Staker_def

lemmas with_defs = with_Worm_def with_Csbt_def with_Staker_def

subsection \<open>The journal\<close>

datatype journalEntry =
    createObjectChange address
  | resetObjectChange stateObject
  | suicideChange address bool int
  | balanceChange address int
  | nonceChange address uint64
  | refundChange uint64
  | touchChange address
  | nftOwnerChange address address
  | nftInfoChange address address address
  | pledgedBalanceChange address int
  | pledgedBlockNumberChange address int
  | coefficientChange address uint8
  | extraChange address bytes
  | userMintChange address int
  | officialMintChange address int
  | validatorsChange address ValidatorList
  | stakersChange address StakerList
  | stakerExtensionChange address StakersExtensionList
  | validatorExtensionChange address ValidatorsExtensionList
  | validatorProxyChange address address
  | accessListAddAccountChange address
  | accessListAddSlotChange address hash

fun dirtied :: "journalEntry \<Rightarrow> address option" where
  "dirtied (createObjectChange a) = Some a"
| "dirtied (resetObjectChange p) = None"
| "dirtied (suicideChange a p b) = Some a"
| "dirtied (balanceChange a p) = Some a"
| "dirtied (nonceChange a p) = Some a"
| "dirtied (refundChange p) = None"
| "dirtied (touchChange a) = Some a"
| "dirtied (nftOwnerChange a p) = Some a"
| "dirtied (nftInfoChange a p q) = Some a"
| "dirtied (pledgedBalanceChange a p) = Some a"
| "dirtied (pledgedBlockNumberChange a p) = Some a"
| "dirtied (coefficientChange a p) = Some a"
| "dirtied (extraChange a p) = Some a"
| "dirtied (userMintChange a p) = Some a"
| "dirtied (officialMintChange a p) = Some a"
| "dirtied (validatorsChange a p) = Some a"
| "dirtied (stakersChange a p) = Some a"
| "dirtied (stakerExtensionChange a p) = Some a"
| "dirtied (validatorExtensionChange a p) = Some a"
| "dirtied (validatorProxyChange a p) = Some a"
| "dirtied (accessListAddAccountChange a) = None"
| "dirtied (accessListAddSlotChange a k) = None"

text \<open>The map dirties; an absent key reads as 0.\<close>
record journal =
  j_entries :: "journalEntry list"
  j_dirties :: "address \<rightharpoonup> int"

definition newJournal :: journal where
  "newJournal = \<lparr>j_entries = [], j_dirties = Map.empty\<rparr>"

definition dirties_add :: "(address \<rightharpoonup> int) \<Rightarrow> address \<Rightarrow> int \<Rightarrow> (address \<rightharpoonup> int)" where
  "dirties_add d a k = d(a \<mapsto> (case d a of Some n \<Rightarrow> n | None \<Rightarrow> 0) + k)"

definition j_append :: "journal \<Rightarrow> journalEntry \<Rightarrow> journal" where
  "j_append j e = \<lparr>j_entries = j_entries j @ [e],
    j_dirties = (case dirtied e of Some a \<Rightarrow> dirties_add (j_dirties j) a 1 | None \<Rightarrow> j_dirties j)\<rparr>"

definition j_dirty :: "journal \<Rightarrow> address \<Rightarrow> journal" where
  "j_dirty j addr = j\<lparr>j_dirties := dirties_add (j_dirties j) addr 1\<rparr>"

definition j_length :: "journal \<Rightarrow> nat" where
  "j_length j = length (j_entries j)"

subsection \<open>StateDB\<close>

record revision =
  rev_id :: nat
  rev_journalIndex :: nat

record StateDB =
  trie :: "address \<rightharpoonup> Account"
  stateObjects :: "address \<rightharpoonup> stateObject"
  stateObjectsPending :: "address set"
  stateObjectsDirty :: "address set"
  refund :: uint64
  db_journal :: journal
  validRevisions :: "revision list"
  nextRevisionId :: nat
  db_accessList :: accessList

text \<open>state.New on the accounts of an opened trie.\<close>
definition state_New :: "(address \<rightharpoonup> Account) \<Rightarrow> StateDB" where
  "state_New tr = \<lparr>trie = tr, stateObjects = Map.empty, stateObjectsPending = {}, stateObjectsDirty = {},
    refund = 0, db_journal = newJournal, validRevisions = [], nextRevisionId = 0,
    db_accessList = newAccessList\<rparr>"

definition db_append :: "StateDB \<Rightarrow> journalEntry \<Rightarrow> StateDB" where
  "db_append s e = s\<lparr>db_journal := j_append (db_journal s) e\<rparr>"

definition setStateObject :: "StateDB \<Rightarrow> stateObject \<Rightarrow> StateDB" where
  "setStateObject s ob = s\<lparr>stateObjects := (stateObjects s)(so_address ob \<mapsto> ob)\<rparr>"

text \<open>A live object is preferred; otherwise the account is read from the trie and made live.\<close>
definition getDeletedStateObject :: "StateDB \<Rightarrow> address \<Rightarrow> stateObject option \<times> StateDB" where
  "getDeletedStateObject s addr =
    (case stateObjects s addr of
       Some obj \<Rightarrow> (Some obj, s)
     | None \<Rightarrow> (case trie s addr of
         None \<Rightarrow> (None, s)
       | Some data \<Rightarrow> let obj = newObject addr data in (Some obj, setStateObject s obj)))"

definition getStateObject :: "StateDB \<Rightarrow> address \<Rightarrow> stateObject option \<times> StateDB" where
  "getStateObject s addr =
    (case getDeletedStateObject s addr of
       (Some obj, s) \<Rightarrow> (if \<not> so_deleted obj then Some obj else None, s)
     | (None, s) \<Rightarrow> (None, s))"

text \<open>The new object and, unless it was deleted, the one it replaces.\<close>
definition createObject :: "StateDB \<Rightarrow> address \<Rightarrow> stateObject option \<times> StateDB" where
  "createObject s addr =
    (let (prev, s) = getDeletedStateObject s addr;
         newobj = newObject addr Account_zero;
         s = db_append s (case prev of None \<Rightarrow> createObjectChange addr | Some p \<Rightarrow> resetObjectChange p);
         s = setStateObject s newobj
     in (case prev of Some p \<Rightarrow> (if \<not> so_deleted p then Some p else None) | None \<Rightarrow> None, s))"

end
