(* ===== verification/State_DB.thy ===== *)
theory State_DB
  imports State_Objects
begin

text \<open>
  The methods of stateObject (core/state/state_object.go) and the object accessors of StateDB
  (core/state/statedb.go): GetOrNewStateObject and its three variants, the journalled setters,
  and the getters.  A method of the object with address \<open>a\<close> takes the database and \<open>a\<close>; it is
  None when it panics.
\<close>

subsection \<open>Writing objects\<close>

text \<open>An assignment through the pointer to the object, without a journal entry.\<close>
definition modify_obj :: "StateDB \<Rightarrow> address \<Rightarrow> (stateObject \<Rightarrow> stateObject) \<Rightarrow> StateDB" where
  "modify_obj s a f = s\<lparr>stateObjects := (stateObjects s)(a := map_option f (stateObjects s a))\<rparr>"

text \<open>
  The shape of every journalled setter: append an entry with the old value to s.db.journal, then
  assign.  The function gives the entry and the changed object, None if it panics.
\<close>
definition so_write ::
    "StateDB \<Rightarrow> address \<Rightarrow> (stateObject \<Rightarrow> (journalEntry \<times> stateObject) option) \<Rightarrow> StateDB option" where
  "so_write s a f = do {
     ob \<leftarrow> stateObjects s a;
     (e, ob') \<leftarrow> f ob;
     Some ((db_append s e)\<lparr>stateObjects := (stateObjects s)(a \<mapsto> ob')\<rparr>)
   }"

text \<open>The pointer \<^verbatim>\<open>s.data.Worm\<close> and its relatives.\<close>
definition so_Worm :: "StateDB \<Rightarrow> address \<Rightarrow> WormholesExtension option" where
  "so_Worm s a = do { ob \<leftarrow> stateObjects s a; a_Worm (so_data ob) }"

definition so_Csbt :: "StateDB \<Rightarrow> address \<Rightarrow> AccountCSBT option" where
  "so_Csbt s a = do { ob \<leftarrow> stateObjects s a; a_Csbt (so_data ob) }"

subsection \<open>Finding or creating objects\<close>

definition GetOrNewStateObject :: "StateDB \<Rightarrow> address \<Rightarrow> StateDB" where
  "GetOrNewStateObject s addr =
    (case getStateObject s addr of
       (None, s) \<Rightarrow> snd (createObject s addr)
     | (Some _, s) \<Rightarrow> s)"

definition GetOrNewNFTStateObject :: "StateDB \<Rightarrow> address \<Rightarrow> StateDB" where
  "GetOrNewNFTStateObject s addr =
    (let s = (case getStateObject s addr of
           (None, s) \<Rightarrow>
             let (_, s) = createObject s addr in
             modify_obj s addr (\<lambda>ob. set_Csbt (Some AccountCSBT_zero) (set_Worm None ob))
         | (Some _, s) \<Rightarrow> s)
     in modify_obj s addr (\<lambda>ob.
          if a_Csbt (so_data ob) = None then set_Csbt (Some AccountCSBT_zero) ob else ob))"

text \<open>The nil checks on Worm, PledgedBlockNumber and PledgedBalance.\<close>
definition init_Worm :: "stateObject \<Rightarrow> stateObject" where
  "init_Worm ob =
    (let w = (case a_Worm (so_data ob) of None \<Rightarrow> WormholesExtension_zero | Some w \<Rightarrow> w);
         w = (if we_PledgedBlockNumber w = None then w\<lparr>we_PledgedBlockNumber := Some 0\<rparr> else w);
         w = (if we_PledgedBalance w = None then w\<lparr>we_PledgedBalance := Some 0\<rparr> else w)
     in set_Worm (Some w) ob)"

definition GetOrNewAccountStateObject :: "StateDB \<Rightarrow> address \<Rightarrow> StateDB" where
  "GetOrNewAccountStateObject s addr =
    (let s = (case getStateObject s addr of
           (None, s) \<Rightarrow>
             let (prev, s) = createObject s addr;
                 s = (case prev of
                     Some p \<Rightarrow> modify_obj s addr (setBalance (a_Balance (so_data p)))
                   | None \<Rightarrow> s)
             in modify_obj s addr (\<lambda>ob. set_Csbt None (set_Worm (Some WormholesExtension_zero) ob))
         | (Some _, s) \<Rightarrow> s)
     in modify_obj s addr init_Worm)"

text \<open>The AccountStaker a storage account starts with.\<close>
definition default_Staker :: "address \<Rightarrow> AccountStaker" where
  "default_Staker addr =
    (if addr = MintDeepStorageAddress
     then AccountStaker_zero\<lparr>as_Mint := \<lparr>md_UserMint = Some 1, md_OfficialMint = Some maskB\<rparr>\<rparr>
     else AccountStaker_zero)"

definition GetOrNewStakerStateObject :: "StateDB \<Rightarrow> address \<Rightarrow> StateDB" where
  "GetOrNewStakerStateObject s addr =
    (let s = (case getStateObject s addr of
           (None, s) \<Rightarrow>
             let (_, s) = createObject s addr in
             modify_obj s addr (set_Staker (Some (default_Staker addr)))
         | (Some _, s) \<Rightarrow> s)
     in modify_obj s addr (\<lambda>ob.
          if a_Staker (so_data ob) = None then set_Staker (Some (default_Staker addr)) ob else ob))"

subsection \<open>Balance, nonce, extra data\<close>

definition ripemd :: address where
  "ripemd = 0x0000000000000000000000000000000000000003"

definition so_touch :: "StateDB \<Rightarrow> address \<Rightarrow> StateDB" where
  "so_touch s a =
    (let s = db_append s (touchChange a) in
     if a = ripemd then s\<lparr>db_journal := j_dirty (db_journal s) a\<rparr> else s)"

definition so_SetBalance :: "StateDB \<Rightarrow> address \<Rightarrow> int \<Rightarrow> StateDB option" where
  "so_SetBalance s a amount =
    so_write s a (\<lambda>ob. Some (balanceChange a (a_Balance (so_data ob)), setBalance amount ob))"

definition so_AddBalance :: "StateDB \<Rightarrow> address \<Rightarrow> int \<Rightarrow> StateDB option" where
  "so_AddBalance s a amount = do {
     ob \<leftarrow> stateObjects s a;
     if amount = 0 then (if so_empty ob then Some (so_touch s a) else Some s)
     else so_SetBalance s a (a_Balance (so_data ob) + amount)
   }"

definition so_SubBalance :: "StateDB \<Rightarrow> address \<Rightarrow> int \<Rightarrow> StateDB option" where
  "so_SubBalance s a amount = do {
     ob \<leftarrow> stateObjects s a;
     if amount = 0 then Some s else so_SetBalance s a (a_Balance (so_data ob) - amount)
   }"

definition so_SetNonce :: "StateDB \<Rightarrow> address \<Rightarrow> uint64 \<Rightarrow> StateDB option" where
  "so_SetNonce s a nonce =
    so_write s a (\<lambda>ob. Some (nonceChange a (a_Nonce (so_data ob)), setNonce nonce ob))"

definition so_SetExtra :: "StateDB \<Rightarrow> address \<Rightarrow> bytes option \<Rightarrow> StateDB option" where
  "so_SetExtra s a extra =
    so_write s a (\<lambda>ob. Some (extraChange a (case a_Extra (so_data ob) of Some bs \<Rightarrow> bs | None \<Rightarrow> []),
      setExtra extra ob))"

subsection \<open>CSBT ownership\<close>

definition so_SetOwner :: "StateDB \<Rightarrow> address \<Rightarrow> address \<Rightarrow> StateDB option" where
  "so_SetOwner s a newOwner =
    so_write s a (\<lambda>ob. do {
      c \<leftarrow> a_Csbt (so_data ob);
      ob' \<leftarrow> with_Csbt (\<lambda>c. c\<lparr>cs_Owner := newOwner\<rparr>) ob;
      Some (nftOwnerChange a (cs_Owner c), ob') })"

definition so_ChangeNFTOwner :: "StateDB \<Rightarrow> address \<Rightarrow> address \<Rightarrow> StateDB option" where
  "so_ChangeNFTOwner s a newOwner = do {
     c \<leftarrow> so_Csbt s a;
     if cs_Owner c = newOwner then Some s else so_SetOwner s a newOwner
   }"

definition so_NFTOwner :: "StateDB \<Rightarrow> address \<Rightarrow> address option" where
  "so_NFTOwner s a = map_option cs_Owner (so_Csbt s a)"

definition so_GetCreator :: "StateDB \<Rightarrow> address \<Rightarrow> address option" where
  "so_GetCreator s a = map_option cs_Creator (so_Csbt s a)"

definition so_SetNFTInfo :: "StateDB \<Rightarrow> address \<Rightarrow> address \<Rightarrow> address \<Rightarrow> StateDB option" where
  "so_SetNFTInfo s a owner creator =
    so_write s a (\<lambda>ob. do {
      c \<leftarrow> a_Csbt (so_data ob);
      ob' \<leftarrow> with_Csbt (\<lambda>c. c\<lparr>cs_Owner := owner, cs_Creator := creator\<rparr>) ob;
      Some (nftInfoChange a (cs_Owner c) (cs_Creator c), ob') })"

definition so_CleanNFT :: "StateDB \<Rightarrow> address \<Rightarrow> StateDB option" where
  "so_CleanNFT s a =
    so_write s a (\<lambda>ob. do {
      c \<leftarrow> a_Csbt (so_data ob);
      ob' \<leftarrow> with_Csbt (\<lambda>c. c\<lparr>cs_Owner := empty_address, cs_Creator := empty_address\<rparr>) ob;
      Some (nftInfoChange a (cs_Owner c) (cs_Creator c), ob') })"

subsection \<open>Pledges and coefficient\<close>

definition so_SetStakerPledge :: "StateDB \<Rightarrow> address \<Rightarrow> StakersExtensionList \<Rightarrow> StateDB option" where
  "so_SetStakerPledge s a newStakers =
    so_write s a (\<lambda>ob. do {
      w \<leftarrow> a_Worm (so_data ob);
      ob' \<leftarrow> with_Worm (\<lambda>w. w\<lparr>we_StakerExtension := newStakers\<rparr>) ob;
      Some (stakerExtensionChange a (we_StakerExtension w), ob') })"

definition so_StakerPledge :: "StateDB \<Rightarrow> address \<Rightarrow> address \<Rightarrow> int \<Rightarrow> int \<Rightarrow> StateDB option" where
  "so_StakerPledge s a addr amount blocknumber = do {
     w \<leftarrow> so_Worm s a;
     so_SetStakerPledge s a
       (snd (sel_AddStakerPledge (sel_DeepCopy (we_StakerExtension w)) addr amount blocknumber))
   }"

definition so_RemoveStakerPledge :: "StateDB \<Rightarrow> address \<Rightarrow> address \<Rightarrow> int \<Rightarrow> StateDB option" where
  "so_RemoveStakerPledge s a addr amount = do {
     w \<leftarrow> so_Worm s a;
     so_SetStakerPledge s a
       (snd (sel_RemoveStakerPledge (sel_DeepCopy (we_StakerExtension w)) addr amount))
   }"

definition so_StakerPledgeLength :: "StateDB \<Rightarrow> address \<Rightarrow> nat option" where
  "so_StakerPledgeLength s a = map_option (\<lambda>w. length (sel_DeepCopy (we_StakerExtension w))) (so_Worm s a)"

definition so_GetStakerExtension :: "StateDB \<Rightarrow> address \<Rightarrow> StakersExtensionList option" where
  "so_GetStakerExtension s a = map_option we_StakerExtension (so_Worm s a)"

definition so_SetValidatorExtension ::
    "StateDB \<Rightarrow> address \<Rightarrow> ValidatorsExtensionList \<Rightarrow> StateDB option" where
  "so_SetValidatorExtension s a newStakers =
    so_write s a (\<lambda>ob. do {
      w \<leftarrow> a_Worm (so_data ob);
      ob' \<leftarrow> with_Worm (\<lambda>w. w\<lparr>we_ValidatorExtension := newStakers\<rparr>) ob;
      Some (validatorExtensionChange a (we_ValidatorExtension w), ob') })"

definition so_AddValidatorExtension :: "StateDB \<Rightarrow> address \<Rightarrow> address \<Rightarrow> int \<Rightarrow> int \<Rightarrow> StateDB option" where
  "so_AddValidatorExtension s a addr amount blocknumber = do {
     w \<leftarrow> so_Worm s a;
     so_SetValidatorExtension s a
       (snd (vel_AddValidatorPledge (vel_DeepCopy (we_ValidatorExtension w)) addr amount blocknumber))
   }"

definition so_RemoveValidatorExtension :: "StateDB \<Rightarrow> address \<Rightarrow> address \<Rightarrow> int \<Rightarrow> StateDB option" where
  "so_RemoveValidatorExtension s a addr amount = do {
     w \<leftarrow> so_Worm s a;
     so_SetValidatorExtension s a
       (snd (vel_RemoveValidatorPledge (vel_DeepCopy (we_ValidatorExtension w)) addr amount))
   }"

definition so_GetValidatorExtension :: "StateDB \<Rightarrow> address \<Rightarrow> ValidatorsExtensionList option" where
  "so_GetValidatorExtension s a = map_option we_ValidatorExtension (so_Worm s a)"

definition so_PledgedBalance :: "StateDB \<Rightarrow> address \<Rightarrow> int option" where
  "so_PledgedBalance s a = do {
     w \<leftarrow> so_Worm s a;
     Some (case we_PledgedBalance w of None \<Rightarrow> 0 | Some b \<Rightarrow> b)
   }"

definition so_PledgedBlockNumber :: "StateDB \<Rightarrow> address \<Rightarrow> int option" where
  "so_PledgedBlockNumber s a = do {
     w \<leftarrow> so_Worm s a;
     Some (case we_PledgedBlockNumber w of None \<Rightarrow> 0 | Some b \<Rightarrow> b)
   }"

definition so_StakerPledgedBlockNumber :: "StateDB \<Rightarrow> address \<Rightarrow> address \<Rightarrow> int option" where
  "so_StakerPledgedBlockNumber s a addr = do {
     w \<leftarrow> so_Worm s a;
     Some (if we_PledgedBlockNumber w = None then 0
       else case find (\<lambda>v. se_Addr v = addr) (we_StakerExtension w) of
         Some v \<Rightarrow> se_BlockNumber v | None \<Rightarrow> 0)
   }"

definition so_SetPledgedBalance :: "StateDB \<Rightarrow> address \<Rightarrow> int \<Rightarrow> StateDB option" where
  "so_SetPledgedBalance s a amount =
    so_write s a (\<lambda>ob. do {
      w \<leftarrow> a_Worm (so_data ob);
      let prev = (case we_PledgedBalance w of None \<Rightarrow> 0 | Some b \<Rightarrow> b);
      ob' \<leftarrow> with_Worm (\<lambda>w. w\<lparr>we_PledgedBalance := Some amount\<rparr>) ob;
      Some (pledgedBalanceChange a prev, ob') })"

definition so_AddPledgedBalance :: "StateDB \<Rightarrow> address \<Rightarrow> int \<Rightarrow> StateDB option" where
  "so_AddPledgedBalance s a amount =
    (if amount = 0 then Some s
     else do {
       pledgedBalance \<leftarrow> so_PledgedBalance s a;
       so_SetPledgedBalance s a (pledgedBalance + amount)
     })"

definition so_SubPledgedBalance :: "StateDB \<Rightarrow> address \<Rightarrow> int \<Rightarrow> StateDB option" where
  "so_SubPledgedBalance s a amount =
    (if amount = 0 then Some s
     else do {
       pledgedBalance \<leftarrow> so_PledgedBalance s a;
       so_SetPledgedBalance s a (pledgedBalance - amount)
     })"

definition so_SetPledgedBlockNumber :: "StateDB \<Rightarrow> address \<Rightarrow> int \<Rightarrow> StateDB option" where
  "so_SetPledgedBlockNumber s a blocknumber =
    so_write s a (\<lambda>ob. do {
      w \<leftarrow> a_Worm (so_data ob);
      let prev = (case we_PledgedBlockNumber w of None \<Rightarrow> 0 | Some b \<Rightarrow> b);
      ob' \<leftarrow> with_Worm (\<lambda>w. w\<lparr>we_PledgedBlockNumber := Some blocknumber\<rparr>) ob;
      Some (pledgedBlockNumberChange a prev, ob') })"

definition VALIDATOR_COEFFICIENT :: uint8 where
  "VALIDATOR_COEFFICIENT = 70"

definition so_Coefficient :: "StateDB \<Rightarrow> address \<Rightarrow> uint8 option" where
  "so_Coefficient s a = map_option we_Coefficient (so_Worm s a)"

definition so_SetCoefficient :: "StateDB \<Rightarrow> address \<Rightarrow> uint8 \<Rightarrow> StateDB option" where
  "so_SetCoefficient s a coe =
    so_write s a (\<lambda>ob. do {
      w \<leftarrow> a_Worm (so_data ob);
      ob' \<leftarrow> with_Worm (\<lambda>w. w\<lparr>we_Coefficient := coe\<rparr>) ob;
      Some (coefficientChange a (we_Coefficient w), ob') })"

text \<open>The argument is not used.\<close>
definition so_AddCoefficient :: "StateDB \<Rightarrow> address \<Rightarrow> uint8 \<Rightarrow> StateDB option" where
  "so_AddCoefficient s a coe = so_SetCoefficient s a VALIDATOR_COEFFICIENT"

text \<open>The new coefficient of SubCoefficient, in 8-bit arithmetic.\<close>
definition sub_coefficient :: "uint8 \<Rightarrow> uint8 \<Rightarrow> uint8" where
  "sub_coefficient current coe =
    (if current < coe then 1
     else let preSub = current - coe in if preSub \<ge> 1 then preSub else 1)"

definition so_SubCoefficient :: "StateDB \<Rightarrow> address \<Rightarrow> uint8 \<Rightarrow> StateDB option" where
  "so_SubCoefficient s a coe = do {
     c \<leftarrow> so_Coefficient s a;
     so_SetCoefficient s a (sub_coefficient c coe)
   }"

definition so_RemoveCoefficient :: "StateDB \<Rightarrow> address \<Rightarrow> StateDB option" where
  "so_RemoveCoefficient s a = so_SetCoefficient s a 0"

definition so_GetValidatorProxy :: "StateDB \<Rightarrow> address \<Rightarrow> address option" where
  "so_GetValidatorProxy s a = map_option we_ValidatorProxy (so_Worm s a)"

definition so_SetValidatorProxy :: "StateDB \<Rightarrow> address \<Rightarrow> address \<Rightarrow> StateDB option" where
  "so_SetValidatorProxy s a newValidatorProxy =
    so_write s a (\<lambda>ob. do {
      w \<leftarrow> a_Worm (so_data ob);
      ob' \<leftarrow> with_Worm (\<lambda>w. w\<lparr>we_ValidatorProxy := newValidatorProxy\<rparr>) ob;
      Some (validatorProxyChange a (we_ValidatorProxy w), ob') })"

subsection \<open>Mint counters, validators and stakers of the storage accounts\<close>

text \<open>Some None is the nil *big.Int that the methods return when the counter is not set.\<close>
definition so_UserMint :: "StateDB \<Rightarrow> address \<Rightarrow> int option option" where
  "so_UserMint s a = do {
     ob \<leftarrow> stateObjects s a;
     Some (case a_Staker (so_data ob) of Some st \<Rightarrow> md_UserMint (as_Mint st) | None \<Rightarrow> Some 0)
   }"

definition so_OfficialMint :: "StateDB \<Rightarrow> address \<Rightarrow> int option option" where
  "so_OfficialMint s a = do {
     ob \<leftarrow> stateObjects s a;
     Some (case a_Staker (so_data ob) of Some st \<Rightarrow> md_OfficialMint (as_Mint st) | None \<Rightarrow> Some 0)
   }"

definition so_SetUserMint :: "StateDB \<Rightarrow> address \<Rightarrow> int \<Rightarrow> StateDB option" where
  "so_SetUserMint s a amount =
    so_write s a (\<lambda>ob. do {
      st \<leftarrow> a_Staker (so_data ob);
      prev \<leftarrow> md_UserMint (as_Mint st);
      ob' \<leftarrow> with_Staker (\<lambda>st. st\<lparr>as_Mint := (as_Mint st)\<lparr>md_UserMint := Some amount\<rparr>\<rparr>) ob;
      Some (userMintChange a prev, ob') })"

definition so_AddUserMint :: "StateDB \<Rightarrow> address \<Rightarrow> int \<Rightarrow> StateDB option" where
  "so_AddUserMint s a amount =
    (if amount = 0 then Some s
     else do {
       m \<leftarrow> so_UserMint s a;
       um \<leftarrow> m;
       so_SetUserMint s a (um + amount)
     })"

definition so_SetOfficialMint :: "StateDB \<Rightarrow> address \<Rightarrow> int \<Rightarrow> StateDB option" where
  "so_SetOfficialMint s a amount =
    so_write s a (\<lambda>ob. do {
      st \<leftarrow> a_Staker (so_data ob);
      prev \<leftarrow> md_OfficialMint (as_Mint st);
      ob' \<leftarrow> with_Staker (\<lambda>st. st\<lparr>as_Mint := (as_Mint st)\<lparr>md_OfficialMint := Some amount\<rparr>\<rparr>) ob;
      Some (officialMintChange a prev, ob') })"

definition so_AddOfficialMint :: "StateDB \<Rightarrow> address \<Rightarrow> int \<Rightarrow> StateDB option" where
  "so_AddOfficialMint s a amount =
    (if amount = 0 then Some s
     else do {
       m \<leftarrow> so_OfficialMint s a;
       om \<leftarrow> m;
       so_SetOfficialMint s a (om + amount)
     })"

definition so_SetValidators :: "StateDB \<Rightarrow> address \<Rightarrow> ValidatorList \<Rightarrow> StateDB option" where
  "so_SetValidators s a validators =
    so_write s a (\<lambda>ob. do {
      st \<leftarrow> a_Staker (so_data ob);
      ob' \<leftarrow> with_Staker (\<lambda>st. st\<lparr>as_Validators := validators\<rparr>) ob;
      Some (validatorsChange a (as_Validators st), ob') })"

text \<open>The pointer \<^verbatim>\<open>s.data.Staker\<close>.\<close>
definition so_Staker :: "StateDB \<Rightarrow> address \<Rightarrow> AccountStaker option" where
  "so_Staker s a = do { ob \<leftarrow> stateObjects s a; a_Staker (so_data ob) }"

text \<open>
  AddValidator, AddValidatorAmount, RemoveValidator, SetValidatorAmount and ResetemoveValidator:
  copy the list, change the copy, and store it when the change reports success.
\<close>
definition change_validators ::
    "StateDB \<Rightarrow> address \<Rightarrow> (ValidatorList \<Rightarrow> bool \<times> ValidatorList) \<Rightarrow> (bool \<times> StateDB) option" where
  "change_validators s a f = do {
     st \<leftarrow> so_Staker s a;
     let (ok, newValidators) = f (vl_DeepCopy (as_Validators st));
     if \<not> ok then Some (False, s)
     else do { s \<leftarrow> so_SetValidators s a newValidators; Some (True, s) }
   }"

definition so_AddValidatorAmount :: "StateDB \<Rightarrow> address \<Rightarrow> address \<Rightarrow> int \<Rightarrow> (bool \<times> StateDB) option" where
  "so_AddValidatorAmount s a addr balance =
    change_validators s a (\<lambda>vl. vl_AddValidatorAmount vl addr balance)"

definition so_AddValidator ::
    "StateDB \<Rightarrow> address \<Rightarrow> address \<Rightarrow> int \<Rightarrow> address \<Rightarrow> (bool \<times> StateDB) option" where
  "so_AddValidator s a addr balance proxy =
    change_validators s a (\<lambda>vl. vl_AddValidator vl addr balance proxy)"

definition so_RemoveValidator :: "StateDB \<Rightarrow> address \<Rightarrow> address \<Rightarrow> int \<Rightarrow> (bool \<times> StateDB) option" where
  "so_RemoveValidator s a addr balance =
    change_validators s a (\<lambda>vl. vl_RemoveValidator vl addr balance)"

definition so_SetValidatorAmount ::
    "StateDB \<Rightarrow> address \<Rightarrow> address \<Rightarrow> int \<Rightarrow> address \<Rightarrow> (bool \<times> StateDB) option" where
  "so_SetValidatorAmount s a addr balance proxy =
    change_validators s a (\<lambda>vl. vl_SetValidatorAmount vl addr balance proxy)"

definition so_ResetemoveValidator :: "StateDB \<Rightarrow> address \<Rightarrow> address \<Rightarrow> (bool \<times> StateDB) option" where
  "so_ResetemoveValidator s a addr =
    change_validators s a (\<lambda>vl. vl_ResetRemoveValidator vl addr)"

text \<open>Some None is the nil list of an account without Staker data.\<close>
definition so_GetValidators :: "StateDB \<Rightarrow> address \<Rightarrow> ValidatorList option option" where
  "so_GetValidators s a = do {
     ob \<leftarrow> stateObjects s a;
     Some (map_option as_Validators (a_Staker (so_data ob)))
   }"

definition so_SetStakers :: "StateDB \<Rightarrow> address \<Rightarrow> StakerList \<Rightarrow> StateDB option" where
  "so_SetStakers s a stakers =
    so_write s a (\<lambda>ob. do {
      st \<leftarrow> a_Staker (so_data ob);
      ob' \<leftarrow> with_Staker (\<lambda>st. st\<lparr>as_CSBTCreators := stakers\<rparr>) ob;
      Some (stakersChange a (as_CSBTCreators st), ob') })"

definition so_AddStaker :: "StateDB \<Rightarrow> address \<Rightarrow> address \<Rightarrow> int \<Rightarrow> StateDB option" where
  "so_AddStaker s a addr balance = do {
     st \<leftarrow> so_Staker s a;
     so_SetStakers s a (snd (sl_AddStaker (sl_DeepCopy (as_CSBTCreators st)) addr balance))
   }"

definition so_RemoveStaker :: "StateDB \<Rightarrow> address \<Rightarrow> address \<Rightarrow> int \<Rightarrow> StateDB option" where
  "so_RemoveStaker s a addr balance = do {
     st \<leftarrow> so_Staker s a;
     so_SetStakers s a (snd (sl_RemoveStaker (sl_DeepCopy (as_CSBTCreators st)) addr balance))
   }"

definition so_CancelStaker :: "StateDB \<Rightarrow> address \<Rightarrow> address \<Rightarrow> StateDB option" where
  "so_CancelStaker s a addr = do {
     st \<leftarrow> so_Staker s a;
     so_SetStakers s a (snd (sl_CancelStaker (sl_DeepCopy (as_CSBTCreators st)) addr))
   }"

definition so_GetStakers :: "StateDB \<Rightarrow> address \<Rightarrow> StakerList option option" where
  "so_GetStakers s a = do {
     ob \<leftarrow> stateObjects s a;
     Some (map_option as_CSBTCreators (a_Staker (so_data ob)))
   }"

end
