(* ===== verification/Ledger.thy ===== *)
theory Ledger
  imports State_DB
begin

text \<open>
  What the state database promises: a total map from addresses to account values, the ledger.
  Caching of trie accounts, the zero values put into nil fields, and objects created on demand
  are invisible in it.  \<open>ledger_of\<close> is the abstraction function; every setter of State_DB is
  shown to update one field of one ledger account and nothing else.
\<close>

subsection \<open>The abstraction\<close>

record ledger_account =
  l_Nonce :: uint64
  l_Balance :: int
  l_Root :: hash
  l_CodeHash :: hash
  l_Pledged :: int
  l_Block :: int
  l_Coef :: uint8
  l_Stakes :: StakersExtensionList
  l_Backers :: ValidatorsExtensionList
  l_Proxy :: address
  l_Owner :: address
  l_Creator :: address
  l_Staker :: AccountStaker
  l_Extra :: bytes

type_synonym ledger = "address \<Rightarrow> ledger_account"

text \<open>A nil pointer reads as the zero value it will be initialised to.\<close>
definition worm_of :: "Account \<Rightarrow> WormholesExtension" where
  "worm_of d = (case a_Worm d of Some w \<Rightarrow> w | None \<Rightarrow> WormholesExtension_zero)"

definition csbt_of :: "Account \<Rightarrow> AccountCSBT" where
  "csbt_of d = (case a_Csbt d of Some c \<Rightarrow> c | None \<Rightarrow> AccountCSBT_zero)"

definition staker_of :: "address \<Rightarrow> Account \<Rightarrow> AccountStaker" where
  "staker_of a d = (case a_Staker d of Some st \<Rightarrow> st | None \<Rightarrow> default_Staker a)"

definition zero_if_nil :: "int option \<Rightarrow> int" where
  "zero_if_nil x = (case x of Some n \<Rightarrow> n | None \<Rightarrow> 0)"

definition account_of :: "address \<Rightarrow> Account \<Rightarrow> ledger_account" where
  "account_of a d = \<lparr>l_Nonce = a_Nonce d, l_Balance = a_Balance d, l_Root = a_Root d,
    l_CodeHash = a_CodeHash d,
    l_Pledged = zero_if_nil (we_PledgedBalance (worm_of d)),
    l_Block = zero_if_nil (we_PledgedBlockNumber (worm_of d)),
    l_Coef = we_Coefficient (worm_of d), l_Stakes = we_StakerExtension (worm_of d),
    l_Backers = we_ValidatorExtension (worm_of d), l_Proxy = we_ValidatorProxy (worm_of d),
    l_Owner = cs_Owner (csbt_of d), l_Creator = cs_Creator (csbt_of d),
    l_Staker = staker_of a d,
    l_Extra = (case a_Extra d of Some bs \<Rightarrow> bs | None \<Rightarrow> [])\<rparr>"

lemmas nil_defs = worm_of_def csbt_of_def staker_of_def zero_if_nil_def

lemma zero_if_nil_simps [simp]: "zero_if_nil (Some n) = n" "zero_if_nil None = 0"
  by (simp_all add: zero_if_nil_def)

text \<open>The object an address leads to, loaded or not, and the one getStateObject finds.\<close>
definition peek :: "StateDB \<Rightarrow> address \<Rightarrow> stateObject option" where
  "peek s a = (case stateObjects s a of Some ob \<Rightarrow> Some ob | None \<Rightarrow> map_option (newObject a) (trie s a))"

definition visible :: "StateDB \<Rightarrow> address \<Rightarrow> stateObject option" where
  "visible s a = (case peek s a of Some ob \<Rightarrow> if so_deleted ob then None else Some ob | None \<Rightarrow> None)"

text \<open>An absent or deleted account reads like a freshly created one.\<close>
definition ledger_of :: "StateDB \<Rightarrow> ledger" where
  "ledger_of s a = account_of a (so_data (case visible s a of
     Some ob \<Rightarrow> ob | None \<Rightarrow> newObject a Account_zero))"

subsection \<open>Lookup and caching\<close>

text \<open>Every live object is stored under its own address, and the access list is well-formed.\<close>
definition objects_ok :: "StateDB \<Rightarrow> bool" where
  "objects_ok s \<longleftrightarrow> (\<forall>a ob. stateObjects s a = Some ob \<longrightarrow> so_address ob = a)"

definition db_ok :: "StateDB \<Rightarrow> bool" where
  "db_ok s \<longleftrightarrow> objects_ok s \<and> al_ok (db_accessList s)"

lemma newObject_simps [simp]:
  "so_address (newObject a d) = a" "so_deleted (newObject a d) = False"
  "so_suicided (newObject a d) = False"
  by (simp_all add: newObject_def)

lemma getDeletedStateObject_eq:
  "getDeletedStateObject s a = (peek s a, s\<lparr>stateObjects := (stateObjects s)(a := peek s a)\<rparr>)"
  by (auto simp: getDeletedStateObject_def peek_def setStateObject_def Let_def fun_upd_idem
      split: option.split)

lemma getStateObject_eq:
  "getStateObject s a = (visible s a, s\<lparr>stateObjects := (stateObjects s)(a := peek s a)\<rparr>)"
  by (auto simp: getStateObject_def getDeletedStateObject_eq visible_def split: option.split)

lemma peek_update [simp]:
  "peek (s\<lparr>stateObjects := (stateObjects s)(a \<mapsto> ob)\<rparr>) b = (if b = a then Some ob else peek s b)"
  by (simp add: peek_def split: option.split)

lemma peek_load [simp]:
  "peek (s\<lparr>stateObjects := (stateObjects s)(a := peek s a)\<rparr>) b = peek s b"
  by (auto simp: peek_def split: option.split)

lemma peek_live: "stateObjects s a = Some ob \<Longrightarrow> peek s a = Some ob"
  by (simp add: peek_def split: option.split)

lemma peek_journal [simp]:
  "peek (s\<lparr>db_journal := j\<rparr>) a = peek s a" "peek (db_append s e) a = peek s a"
  "peek (s\<lparr>refund := r\<rparr>) a = peek s a" "peek (s\<lparr>validRevisions := vr\<rparr>) a = peek s a"
  "peek (s\<lparr>nextRevisionId := n\<rparr>) a = peek s a" "peek (s\<lparr>db_accessList := al\<rparr>) a = peek s a"
  by (simp_all add: peek_def db_append_def split: option.split)

lemma objects_ok_peek: "\<lbrakk>objects_ok s; peek s a = Some ob\<rbrakk> \<Longrightarrow> so_address ob = a"
  by (auto simp: objects_ok_def peek_def split: option.splits)

lemma db_ok_peek: "\<lbrakk>db_ok s; peek s a = Some ob\<rbrakk> \<Longrightarrow> so_address ob = a"
  by (auto simp: db_ok_def intro: objects_ok_peek)

lemma ledger_of_cong:
  "(\<And>a. peek s a = peek t a) \<Longrightarrow> ledger_of s = ledger_of t"
  by (simp add: ledger_of_def visible_def fun_eq_iff)

subsection \<open>Live objects with initialised fields\<close>

definition live :: "StateDB \<Rightarrow> address \<Rightarrow> bool" where
  "live s a \<longleftrightarrow> (\<exists>ob. stateObjects s a = Some ob \<and> \<not> so_deleted ob)"

definition has_Worm :: "StateDB \<Rightarrow> address \<Rightarrow> bool" where
  "has_Worm s a \<longleftrightarrow> live s a \<and> so_Worm s a \<noteq> None"

definition has_Csbt :: "StateDB \<Rightarrow> address \<Rightarrow> bool" where
  "has_Csbt s a \<longleftrightarrow> live s a \<and> so_Csbt s a \<noteq> None"

definition has_Staker :: "StateDB \<Rightarrow> address \<Rightarrow> bool" where
  "has_Staker s a \<longleftrightarrow> live s a \<and> so_Staker s a \<noteq> None"

lemmas has_defs = has_Worm_def has_Csbt_def has_Staker_def live_def so_Worm_def so_Csbt_def
  so_Staker_def

text \<open>An operation keeps every object live and initialised that was so before.\<close>
definition keeps :: "StateDB \<Rightarrow> StateDB \<Rightarrow> bool" where
  "keeps s s' \<longleftrightarrow> (\<forall>a. (live s a \<longrightarrow> live s' a) \<and> (has_Worm s a \<longrightarrow> has_Worm s' a) \<and>
    (has_Csbt s a \<longrightarrow> has_Csbt s' a) \<and> (has_Staker s a \<longrightarrow> has_Staker s' a))"

lemma keeps_refl [simp]: "keeps s s"
  by (simp add: keeps_def)

lemma keeps_trans: "\<lbrakk>keeps s t; keeps t u\<rbrakk> \<Longrightarrow> keeps s u"
  by (simp add: keeps_def)

lemma keepsD:
  assumes "keeps s s'"
  shows "live s a \<Longrightarrow> live s' a" "has_Worm s a \<Longrightarrow> has_Worm s' a"
    "has_Csbt s a \<Longrightarrow> has_Csbt s' a" "has_Staker s a \<Longrightarrow> has_Staker s' a"
  using assms by (simp_all add: keeps_def)

lemma has_live: "has_Worm s a \<Longrightarrow> live s a" "has_Csbt s a \<Longrightarrow> live s a" "has_Staker s a \<Longrightarrow> live s a"
  by (simp_all add: has_Worm_def has_Csbt_def has_Staker_def)

subsection \<open>A calculus for operations that succeed\<close>

text \<open>
  The computation succeeds, acts on the ledger as the function says, and keeps what is
  initialised.
\<close>
definition yields :: "StateDB option \<Rightarrow> StateDB \<Rightarrow> (ledger \<Rightarrow> ledger) \<Rightarrow> bool" where
  "yields r s g \<longleftrightarrow> (\<exists>s'. r = Some s' \<and> ledger_of s' = g (ledger_of s) \<and> keeps s s')"

lemma yieldsI: "\<lbrakk>r = Some s'; ledger_of s' = g (ledger_of s); keeps s s'\<rbrakk> \<Longrightarrow> yields r s g"
  by (auto simp: yields_def)

lemma yieldsE:
  assumes "yields r s g"
  obtains s' where "r = Some s'" "ledger_of s' = g (ledger_of s)" "keeps s s'"
  using assms by (auto simp: yields_def)

lemma yields_skip: "yields (Some s) s (\<lambda>L. L)"
  by (simp add: yields_def)

text \<open>Change one field of one account.\<close>
definition on_account :: "address \<Rightarrow> (ledger_account \<Rightarrow> ledger_account) \<Rightarrow> ledger \<Rightarrow> ledger" where
  "on_account a f L = L(a := f (L a))"

lemma on_account_same [simp]: "on_account a f L a = f (L a)"
  and on_account_other [simp]: "b \<noteq> a \<Longrightarrow> on_account a f L b = L b"
  by (simp_all add: on_account_def)

lemma on_account_id [simp]: "on_account a (\<lambda>x. x) L = L"
  by (simp add: on_account_def)

lemma on_account_field: "(\<And>x. fld (f x) = fld x) \<Longrightarrow> fld (on_account a f L b) = fld (L b)"
  by (simp add: on_account_def)

lemmas on_account_fields [simp] = on_account_field [of l_Balance] on_account_field [of l_Pledged]
  on_account_field [of l_Block] on_account_field [of l_Coef] on_account_field [of l_Stakes]
  on_account_field [of l_Backers] on_account_field [of l_Proxy] on_account_field [of l_Owner]
  on_account_field [of l_Creator] on_account_field [of l_Staker] on_account_field [of l_Nonce]

lemma ledger_of_write:
  assumes "\<not> so_deleted ob'" "\<And>b. peek s' b = (if b = a then Some ob' else peek s b)"
  shows "ledger_of s' = (ledger_of s)(a := account_of a (so_data ob'))"
  using assms by (auto simp: ledger_of_def visible_def fun_eq_iff)

lemma ledger_of_live:
  "\<lbrakk>stateObjects s a = Some ob; \<not> so_deleted ob\<rbrakk> \<Longrightarrow> ledger_of s a = account_of a (so_data ob)"
  by (simp add: ledger_of_def visible_def peek_def)

text \<open>A journalled setter whose field change is known.\<close>
lemma so_write_yields:
  assumes "stateObjects s a = Some ob" "\<not> so_deleted ob"
    and f: "case f ob of None \<Rightarrow> False | Some (e, ob') \<Rightarrow> so_deleted ob' = so_deleted ob \<and>
      account_of a (so_data ob') = g (account_of a (so_data ob)) \<and>
      (a_Worm (so_data ob) \<noteq> None \<longrightarrow> a_Worm (so_data ob') \<noteq> None) \<and>
      (a_Csbt (so_data ob) \<noteq> None \<longrightarrow> a_Csbt (so_data ob') \<noteq> None) \<and>
      (a_Staker (so_data ob) \<noteq> None \<longrightarrow> a_Staker (so_data ob') \<noteq> None)"
  shows "yields (so_write s a f) s (on_account a g)"
proof -
  obtain e ob' where e: "f ob = Some (e, ob')" "\<not> so_deleted ob'"
    using f assms(2) by (auto split: option.splits)
  let ?s' = "(db_append s e)\<lparr>stateObjects := (stateObjects s)(a \<mapsto> ob')\<rparr>"
  have "so_write s a f = Some ?s'"
    using assms(1) e(1) by (simp add: so_write_def)
  moreover have "ledger_of ?s' = on_account a g (ledger_of s)"
    using ledger_of_write [OF e(2), of ?s' a s] ledger_of_live [OF assms(1,2)] f e(1)
    by (simp add: on_account_def peek_def db_append_def split: option.split)
  moreover have "keeps s ?s'"
    using assms(1) f e by (auto simp: keeps_def has_defs db_append_def)
  ultimately show ?thesis by (rule yieldsI)
qed

lemmas write_simps = setter_defs with_defs account_of_def nil_defs

lemma yields_cong: "\<lbrakk>yields r s g; g (ledger_of s) = g' (ledger_of s)\<rbrakk> \<Longrightarrow> yields r s g'"
  by (simp add: yields_def)

subsection \<open>Reading fields\<close>

lemma ledger_reads:
  assumes "has_Worm s a"
  obtains ob w where "stateObjects s a = Some ob" "\<not> so_deleted ob" "a_Worm (so_data ob) = Some w"
    "ledger_of s a = account_of a (so_data ob)" "so_Worm s a = Some w"
  using assms by (auto simp: has_Worm_def live_def so_Worm_def ledger_of_live)

lemma csbt_reads:
  assumes "has_Csbt s a"
  obtains ob c where "stateObjects s a = Some ob" "\<not> so_deleted ob" "a_Csbt (so_data ob) = Some c"
    "ledger_of s a = account_of a (so_data ob)"
  using assms by (auto simp: has_Csbt_def live_def so_Csbt_def ledger_of_live)

lemma staker_reads:
  assumes "has_Staker s a"
  obtains ob st where "stateObjects s a = Some ob" "\<not> so_deleted ob" "a_Staker (so_data ob) = Some st"
    "ledger_of s a = account_of a (so_data ob)"
  using assms by (auto simp: has_Staker_def live_def so_Staker_def ledger_of_live)

lemma so_Worm_ledger:
  assumes "has_Worm s a"
  shows "so_PledgedBalance s a = Some (l_Pledged (ledger_of s a))"
    "so_PledgedBlockNumber s a = Some (l_Block (ledger_of s a))"
    "so_Coefficient s a = Some (l_Coef (ledger_of s a))"
    "so_GetStakerExtension s a = Some (l_Stakes (ledger_of s a))"
    "so_GetValidatorExtension s a = Some (l_Backers (ledger_of s a))"
    "so_GetValidatorProxy s a = Some (l_Proxy (ledger_of s a))"
    "map_option we_StakerExtension (so_Worm s a) = Some (l_Stakes (ledger_of s a))"
    "map_option we_ValidatorExtension (so_Worm s a) = Some (l_Backers (ledger_of s a))"
  by (rule ledger_reads [OF assms]; simp add: so_PledgedBalance_def so_PledgedBlockNumber_def
      so_Coefficient_def so_GetStakerExtension_def so_GetValidatorExtension_def
      so_GetValidatorProxy_def account_of_def worm_of_def zero_if_nil_def)+

lemma so_Csbt_ledger:
  assumes "has_Csbt s a"
  shows "so_NFTOwner s a = Some (l_Owner (ledger_of s a))"
    "so_GetCreator s a = Some (l_Creator (ledger_of s a))"
  using assms
  by (auto simp: has_Csbt_def live_def so_Csbt_def so_NFTOwner_def so_GetCreator_def
      ledger_of_live account_of_def csbt_of_def)

lemma so_Staker_ledger:
  assumes "has_Staker s a"
  shows "so_Staker s a = Some (l_Staker (ledger_of s a))"
    "so_GetValidators s a = Some (Some (as_Validators (l_Staker (ledger_of s a))))"
    "so_GetStakers s a = Some (Some (as_CSBTCreators (l_Staker (ledger_of s a))))"
    "so_UserMint s a = Some (md_UserMint (as_Mint (l_Staker (ledger_of s a))))"
    "so_OfficialMint s a = Some (md_OfficialMint (as_Mint (l_Staker (ledger_of s a))))"
  using assms
  by (auto simp: has_Staker_def live_def so_Staker_def so_GetValidators_def so_GetStakers_def
      so_UserMint_def so_OfficialMint_def ledger_of_live account_of_def staker_of_def)

lemma live_Balance:
  assumes "live s a"
  obtains ob where "stateObjects s a = Some ob" "a_Balance (so_data ob) = l_Balance (ledger_of s a)"
  using assms by (auto simp: live_def ledger_of_live account_of_def)

subsection \<open>The setters on the ledger\<close>

lemma so_SetBalance_yields:
  "live s a \<Longrightarrow> yields (so_SetBalance s a v) s (on_account a (l_Balance_update (\<lambda>_. v)))"
  unfolding so_SetBalance_def live_def
  by (elim exE conjE, rule so_write_yields) (simp_all add: write_simps)

lemma so_SetNonce_yields:
  "live s a \<Longrightarrow> yields (so_SetNonce s a v) s (on_account a (l_Nonce_update (\<lambda>_. v)))"
  unfolding so_SetNonce_def live_def
  by (elim exE conjE, rule so_write_yields) (simp_all add: write_simps)

lemma so_SetExtra_yields:
  "live s a \<Longrightarrow> yields (so_SetExtra s a v) s
    (on_account a (l_Extra_update (\<lambda>_. case v of Some bs \<Rightarrow> bs | None \<Rightarrow> [])))"
  unfolding so_SetExtra_def live_def
  by (elim exE conjE, rule so_write_yields) (simp_all add: write_simps)

lemma Worm_setters:
  assumes "has_Worm s a"
  shows "yields (so_SetCoefficient s a c) s (on_account a (l_Coef_update (\<lambda>_. c)))"
    and "yields (so_SetStakerPledge s a sl) s (on_account a (l_Stakes_update (\<lambda>_. sl)))"
    and "yields (so_SetValidatorExtension s a vx) s (on_account a (l_Backers_update (\<lambda>_. vx)))"
    and "yields (so_SetPledgedBalance s a v) s (on_account a (l_Pledged_update (\<lambda>_. v)))"
    and "yields (so_SetPledgedBlockNumber s a v) s (on_account a (l_Block_update (\<lambda>_. v)))"
    and "yields (so_SetValidatorProxy s a p) s (on_account a (l_Proxy_update (\<lambda>_. p)))"
  unfolding so_SetCoefficient_def so_SetStakerPledge_def so_SetValidatorExtension_def
    so_SetPledgedBalance_def so_SetPledgedBlockNumber_def so_SetValidatorProxy_def
  by (rule ledger_reads [OF assms], erule so_write_yields, assumption, simp add: write_simps)+

lemma Csbt_setters:
  assumes "has_Csbt s a"
  shows "yields (so_SetOwner s a v) s (on_account a (l_Owner_update (\<lambda>_. v)))"
    and "yields (so_SetNFTInfo s a v c) s
      (on_account a (\<lambda>x. x\<lparr>l_Owner := v, l_Creator := c\<rparr>))"
    and "yields (so_CleanNFT s a) s (on_account a (\<lambda>x. x\<lparr>l_Owner := 0, l_Creator := 0\<rparr>))"
  unfolding so_SetOwner_def so_SetNFTInfo_def so_CleanNFT_def
  by (rule csbt_reads [OF assms], erule so_write_yields, assumption, simp add: write_simps)+

lemma Staker_setters:
  assumes "has_Staker s a"
  shows "yields (so_SetValidators s a v) s
      (on_account a (l_Staker_update (as_Validators_update (\<lambda>_. v))))"
    and "yields (so_SetStakers s a sl) s
      (on_account a (l_Staker_update (as_CSBTCreators_update (\<lambda>_. sl))))"
    and "md_OfficialMint (as_Mint (l_Staker (ledger_of s a))) \<noteq> None \<Longrightarrow>
      yields (so_SetOfficialMint s a n) s
        (on_account a (l_Staker_update (as_Mint_update (md_OfficialMint_update (\<lambda>_. Some n)))))"
    and "md_UserMint (as_Mint (l_Staker (ledger_of s a))) \<noteq> None \<Longrightarrow>
      yields (so_SetUserMint s a n) s
        (on_account a (l_Staker_update (as_Mint_update (md_UserMint_update (\<lambda>_. Some n)))))"
  unfolding so_SetValidators_def so_SetStakers_def so_SetOfficialMint_def so_SetUserMint_def
  by (rule staker_reads [OF assms], erule so_write_yields, assumption, force simp: write_simps)+


subsection \<open>Additions, subtractions and list changes\<close>

lemma touch_simps [simp]:
  "peek (so_touch s a) b = peek s b" "stateObjects (so_touch s a) = stateObjects s"
  by (simp_all add: so_touch_def Let_def db_append_def peek_def split: option.split)

lemma keeps_same_objects: "stateObjects s' = stateObjects s \<Longrightarrow> keeps s s'"
  by (simp add: keeps_def has_defs)

lemma so_touch_yields: "yields (Some (so_touch s a)) s (\<lambda>L. L)"
  by (rule yieldsI [OF refl]) (simp_all add: ledger_of_cong [of "so_touch s a" s] keeps_same_objects)

lemma so_AddBalance_yields:
  assumes "live s a"
  shows "yields (so_AddBalance s a v) s (on_account a (\<lambda>x. x\<lparr>l_Balance := l_Balance x + v\<rparr>))"
proof -
  obtain ob where ob: "stateObjects s a = Some ob" "a_Balance (so_data ob) = l_Balance (ledger_of s a)"
    using assms by (rule live_Balance)
  show ?thesis
  proof (cases "v = 0")
    case True
    then show ?thesis
      using ob yields_cong [OF so_touch_yields] yields_cong [OF yields_skip]
      by (simp add: so_AddBalance_def)
  next
    case False
    then show ?thesis
      using ob yields_cong [OF so_SetBalance_yields [OF assms]]
      by (simp add: so_AddBalance_def on_account_def)
  qed
qed

lemma so_SubBalance_yields:
  assumes "live s a"
  shows "yields (so_SubBalance s a v) s (on_account a (\<lambda>x. x\<lparr>l_Balance := l_Balance x - v\<rparr>))"
proof -
  obtain ob where ob: "stateObjects s a = Some ob" "a_Balance (so_data ob) = l_Balance (ledger_of s a)"
    using assms by (rule live_Balance)
  then show ?thesis
    using yields_cong [OF so_SetBalance_yields [OF assms]] yields_cong [OF yields_skip]
    by (cases "v = 0") (simp_all add: so_SubBalance_def on_account_def)
qed

lemma PledgedBalance_yields:
  assumes "has_Worm s a"
  shows "yields (so_AddPledgedBalance s a v) s (on_account a (\<lambda>x. x\<lparr>l_Pledged := l_Pledged x + v\<rparr>))"
    and "yields (so_SubPledgedBalance s a v) s (on_account a (\<lambda>x. x\<lparr>l_Pledged := l_Pledged x - v\<rparr>))"
  using yields_cong [OF Worm_setters(4) [OF assms]] yields_cong [OF yields_skip]
  by (cases "v = 0"; simp add: so_AddPledgedBalance_def so_SubPledgedBalance_def
      so_Worm_ledger [OF assms] on_account_def)+

lemma Extension_yields:
  assumes "has_Worm s a"
  shows "yields (so_StakerPledge s a b v n) s (on_account a (\<lambda>x.
      x\<lparr>l_Stakes := snd (sel_AddStakerPledge (l_Stakes x) b v n)\<rparr>))"
    and "yields (so_RemoveStakerPledge s a b v) s (on_account a (\<lambda>x.
      x\<lparr>l_Stakes := snd (sel_RemoveStakerPledge (l_Stakes x) b v)\<rparr>))"
    and "yields (so_AddValidatorExtension s a b v n) s (on_account a (\<lambda>x.
      x\<lparr>l_Backers := snd (vel_AddValidatorPledge (l_Backers x) b v n)\<rparr>))"
    and "yields (so_RemoveValidatorExtension s a b v) s (on_account a (\<lambda>x.
      x\<lparr>l_Backers := snd (vel_RemoveValidatorPledge (l_Backers x) b v)\<rparr>))"
proof -
  obtain w where w: "so_Worm s a = Some w"
    using assms by (auto simp: has_Worm_def)
  then have "we_StakerExtension w = l_Stakes (ledger_of s a)"
    "we_ValidatorExtension w = l_Backers (ledger_of s a)"
    using so_Worm_ledger(7,8) [OF assms] by simp_all
  then show "yields (so_StakerPledge s a b v n) s (on_account a (\<lambda>x.
      x\<lparr>l_Stakes := snd (sel_AddStakerPledge (l_Stakes x) b v n)\<rparr>))"
    and "yields (so_RemoveStakerPledge s a b v) s (on_account a (\<lambda>x.
      x\<lparr>l_Stakes := snd (sel_RemoveStakerPledge (l_Stakes x) b v)\<rparr>))"
    and "yields (so_AddValidatorExtension s a b v n) s (on_account a (\<lambda>x.
      x\<lparr>l_Backers := snd (vel_AddValidatorPledge (l_Backers x) b v n)\<rparr>))"
    and "yields (so_RemoveValidatorExtension s a b v) s (on_account a (\<lambda>x.
      x\<lparr>l_Backers := snd (vel_RemoveValidatorPledge (l_Backers x) b v)\<rparr>))"
    using yields_cong [OF Worm_setters(2) [OF assms]] yields_cong [OF Worm_setters(3) [OF assms]] w
    by (simp_all add: so_StakerPledge_def so_RemoveStakerPledge_def so_AddValidatorExtension_def
        so_RemoveValidatorExtension_def on_account_def)
qed

lemma Coefficient_yields:
  assumes "has_Worm s a"
  shows "yields (so_AddCoefficient s a c) s (on_account a (\<lambda>x. x\<lparr>l_Coef := VALIDATOR_COEFFICIENT\<rparr>))"
    and "yields (so_SubCoefficient s a c) s (on_account a (\<lambda>x. x\<lparr>l_Coef := sub_coefficient (l_Coef x) c\<rparr>))"
    and "yields (so_RemoveCoefficient s a) s (on_account a (\<lambda>x. x\<lparr>l_Coef := 0\<rparr>))"
  using yields_cong [OF Worm_setters(1) [OF assms]]
  by (simp_all add: so_AddCoefficient_def so_SubCoefficient_def so_RemoveCoefficient_def
      so_Worm_ledger [OF assms] on_account_def)

lemma l_Staker_fold: "x\<lparr>l_Staker := f (l_Staker x)\<rparr> = l_Staker_update f x"
  by (cases x) simp

lemma official_mint_same:
  assumes "md_OfficialMint (as_Mint (l_Staker x)) = Some m"
  shows "l_Staker_update (as_Mint_update (md_OfficialMint_update (\<lambda>_. Some m))) x = x"
  using assms by (cases x; cases "l_Staker x"; cases "as_Mint (l_Staker x)") simp

lemma so_AddOfficialMint_yields:
  assumes "has_Staker s a" "md_OfficialMint (as_Mint (l_Staker (ledger_of s a))) = Some m"
  shows "yields (so_AddOfficialMint s a n) s
    (on_account a (l_Staker_update (as_Mint_update (md_OfficialMint_update (\<lambda>_. Some (m + n))))))"
proof (cases "n = 0")
  case True
  then have "ledger_of s = on_account a
      (l_Staker_update (as_Mint_update (md_OfficialMint_update (\<lambda>_. Some (m + n))))) (ledger_of s)"
    using assms(2) official_mint_same by (simp add: on_account_def fun_upd_idem)
  then show ?thesis
    using True yields_cong [OF yields_skip] by (simp add: so_AddOfficialMint_def)
next
  case False
  then show ?thesis
    using assms(2) Staker_setters(3) [OF assms(1), of "m + n"]
    by (simp add: so_AddOfficialMint_def so_Staker_ledger [OF assms(1)])
qed

text \<open>
  Change the validator list of a storage account the way the methods AddValidator,
  RemoveValidator, ... do: work on a copy and keep it when the change reports success.
\<close>
definition upd_validators ::
    "(ValidatorList \<Rightarrow> bool \<times> ValidatorList) \<Rightarrow> ledger_account \<Rightarrow> ledger_account" where
  "upd_validators f x =
    (let (ok, vl) = f (vl_DeepCopy (as_Validators (l_Staker x))) in
     if ok then x\<lparr>l_Staker := (l_Staker x)\<lparr>as_Validators := vl\<rparr>\<rparr> else x)"

lemma change_validators_yields:
  assumes "has_Staker s a"
  shows "\<exists>ok s'. change_validators s a f = Some (ok, s') \<and> keeps s s' \<and>
    ledger_of s' = on_account a (upd_validators f) (ledger_of s)"
proof -
  obtain ok vl where f: "f (vl_DeepCopy (as_Validators (l_Staker (ledger_of s a)))) = (ok, vl)"
    by fastforce
  show ?thesis
  proof (cases ok)
    case True
    have "yields (so_SetValidators s a vl) s
        (on_account a (l_Staker_update (as_Validators_update (\<lambda>_. vl))))"
      by (rule Staker_setters(1) [OF assms])
    then show ?thesis
      using True f
      by (auto simp: change_validators_def so_Staker_ledger [OF assms] yields_def upd_validators_def
          on_account_def l_Staker_fold [of "as_Validators_update (\<lambda>_. vl)"])
  next
    case False
    then show ?thesis
      using f
      by (auto simp: change_validators_def so_Staker_ledger [OF assms] on_account_def upd_validators_def)
  qed
qed

subsection \<open>Finding or creating an object does not change the ledger\<close>

text \<open>The state in which the address leads to the given live object.\<close>
definition put :: "StateDB \<Rightarrow> address \<Rightarrow> stateObject \<Rightarrow> StateDB" where
  "put s a ob = s\<lparr>stateObjects := (stateObjects s)(a \<mapsto> ob)\<rparr>"

lemma put_simps [simp]:
  "peek (put s a ob) b = (if b = a then Some ob else peek s b)"
  "stateObjects (put s a ob) = (stateObjects s)(a \<mapsto> ob)"
  "modify_obj (put s a ob) a f = put s a (f ob)"
  "put (put s a ob) a ob' = put s a ob'"
  "db_journal (put s a ob) = db_journal s"
  by (simp_all add: put_def modify_obj_def)

lemma put_append [simp]: "stateObjects (db_append s e) = stateObjects s"
  by (simp add: db_append_def)

text \<open>What getStateObject and createObject leave behind.\<close>
lemma getStateObject_Some: "visible s a = Some ob \<Longrightarrow> getStateObject s a = (Some ob, put s a ob)"
  by (auto simp: getStateObject_eq put_def visible_def split: option.splits if_splits)

lemma createObject_None:
  assumes "visible s a = None"
  obtains e where "getStateObject s a = (None, s\<lparr>stateObjects := (stateObjects s)(a := peek s a)\<rparr>)"
    "createObject (s\<lparr>stateObjects := (stateObjects s)(a := peek s a)\<rparr>) a =
      (None, put (db_append s e) a (newObject a Account_zero))"
proof -
  let ?e = "case peek s a of None \<Rightarrow> createObjectChange a | Some p \<Rightarrow> resetObjectChange p"
  have "createObject (s\<lparr>stateObjects := (stateObjects s)(a := peek s a)\<rparr>) a =
      (None, put (db_append s ?e) a (newObject a Account_zero))"
    using assms
    by (auto simp: createObject_def getDeletedStateObject_eq Let_def visible_def put_def
        setStateObject_def db_append_def split: option.splits if_splits)
  then show ?thesis using that assms by (simp add: getStateObject_eq)
qed

text \<open>
  Replacing an object that nobody can tell from the one before, or a fresh one where none was
  visible.
\<close>
lemma put_ledger:
  assumes "\<not> so_deleted ob'"
    and "account_of a (so_data ob') = ledger_of s a"
    and "\<And>ob. visible s a = Some ob \<Longrightarrow>
      (a_Worm (so_data ob) \<noteq> None \<longrightarrow> a_Worm (so_data ob') \<noteq> None) \<and>
      (a_Csbt (so_data ob) \<noteq> None \<longrightarrow> a_Csbt (so_data ob') \<noteq> None) \<and>
      (a_Staker (so_data ob) \<noteq> None \<longrightarrow> a_Staker (so_data ob') \<noteq> None)"
  shows "ledger_of (put s a ob') = ledger_of s" "keeps s (put s a ob')"
proof -
  show "ledger_of (put s a ob') = ledger_of s"
    using ledger_of_write [OF assms(1), of "put s a ob'" a s] assms(2) by (simp add: fun_upd_idem)
  have "live s a \<Longrightarrow> \<exists>ob. stateObjects s a = Some ob \<and> visible s a = Some ob"
    by (auto simp: live_def visible_def peek_def)
  then show "keeps s (put s a ob')"
    using assms(1,3) by (auto simp: keeps_def has_defs put_def)
qed

lemma ledger_of_append [simp]: "ledger_of (db_append s e) = ledger_of s"
  by (rule ledger_of_cong) simp

lemma keeps_append: "keeps (db_append s e) t \<Longrightarrow> keeps s t"
  by (rule keeps_trans [OF keeps_same_objects]) simp_all

lemma visible_append [simp]: "visible (db_append s e) a = visible s a"
  by (simp add: visible_def)

lemma ledger_of_visible:
  "visible s a = Some ob \<Longrightarrow> ledger_of s a = account_of a (so_data ob)"
  "visible s a = None \<Longrightarrow> ledger_of s a = account_of a (so_data (newObject a Account_zero))"
  by (simp_all add: ledger_of_def)

lemma visible_not_deleted: "visible s a = Some ob \<Longrightarrow> \<not> so_deleted ob"
  by (auto simp: visible_def split: option.splits if_splits)

text \<open>The three GetOrNew methods share this form: an object is fetched or made, then patched.\<close>
lemma get_or_new:
  assumes some: "\<And>ob. visible s a = Some ob \<Longrightarrow> r = put s a (f ob)"
    and none: "\<And>e. \<lbrakk>visible s a = None;
        getStateObject s a = (None, s\<lparr>stateObjects := (stateObjects s)(a := peek s a)\<rparr>);
        createObject (s\<lparr>stateObjects := (stateObjects s)(a := peek s a)\<rparr>) a =
          (None, put (db_append s e) a (newObject a Account_zero))\<rbrakk> \<Longrightarrow>
        r = put (db_append s e) a (f (newObject a Account_zero))"
    and f: "\<And>ob. so_deleted (f ob) = so_deleted ob \<and> account_of a (so_data (f ob)) = account_of a (so_data ob) \<and>
      (a_Worm (so_data ob) \<noteq> None \<longrightarrow> a_Worm (so_data (f ob)) \<noteq> None) \<and>
      (a_Csbt (so_data ob) \<noteq> None \<longrightarrow> a_Csbt (so_data (f ob)) \<noteq> None) \<and>
      (a_Staker (so_data ob) \<noteq> None \<longrightarrow> a_Staker (so_data (f ob)) \<noteq> None)"
  shows "ledger_of r = ledger_of s \<and> keeps s r \<and> (\<exists>ob. stateObjects r a = Some (f ob) \<and> \<not> so_deleted (f ob))"
proof (cases "visible s a")
  case (Some ob)
  then show ?thesis
    using put_ledger [of "f ob" a s] f [of ob] visible_not_deleted [OF Some]
    by (auto simp: some [OF Some] ledger_of_visible)
next
  case None
  obtain e where "getStateObject s a = (None, s\<lparr>stateObjects := (stateObjects s)(a := peek s a)\<rparr>)"
    "createObject (s\<lparr>stateObjects := (stateObjects s)(a := peek s a)\<rparr>) a =
      (None, put (db_append s e) a (newObject a Account_zero))"
    using None by (rule createObject_None)
  then have r: "r = put (db_append s e) a (f (newObject a Account_zero))" by (rule none [OF None])
  show ?thesis
    using put_ledger [of "f (newObject a Account_zero)" a "db_append s e"] f [of "newObject a Account_zero"]
      None keeps_append by (auto simp: r ledger_of_visible)
qed

lemma GetOrNewAccount:
  "ledger_of (GetOrNewAccountStateObject s a) = ledger_of s"
  "keeps s (GetOrNewAccountStateObject s a)" "has_Worm (GetOrNewAccountStateObject s a) a"
proof -
  have "ledger_of (GetOrNewAccountStateObject s a) = ledger_of s \<and> keeps s (GetOrNewAccountStateObject s a) \<and>
      (\<exists>ob. stateObjects (GetOrNewAccountStateObject s a) a = Some (init_Worm ob) \<and> \<not> so_deleted (init_Worm ob))"
  proof (rule get_or_new)
    have "init_Worm (set_Csbt None (set_Worm (Some WormholesExtension_zero) (newObject a Account_zero))) =
        init_Worm (newObject a Account_zero)"
      by (simp add: init_Worm_def newObject_def Account_zero_def setter_defs)
    then show "GetOrNewAccountStateObject s a = put (db_append s e) a (init_Worm (newObject a Account_zero))"
      if "getStateObject s a = (None, s\<lparr>stateObjects := (stateObjects s)(a := peek s a)\<rparr>)"
        "createObject (s\<lparr>stateObjects := (stateObjects s)(a := peek s a)\<rparr>) a =
          (None, put (db_append s e) a (newObject a Account_zero))" for e
      using that by (simp add: GetOrNewAccountStateObject_def)
  qed (auto simp: GetOrNewAccountStateObject_def getStateObject_Some init_Worm_def setter_defs
      account_of_def nil_defs Let_def WormholesExtension_zero_def split: option.split)
  then show "ledger_of (GetOrNewAccountStateObject s a) = ledger_of s"
    "keeps s (GetOrNewAccountStateObject s a)" "has_Worm (GetOrNewAccountStateObject s a) a"
    by (auto simp: has_defs init_Worm_def Let_def setter_defs)
qed


abbreviation init_Csbt :: "stateObject \<Rightarrow> stateObject" where
  "init_Csbt ob \<equiv> if a_Csbt (so_data ob) = None then set_Csbt (Some AccountCSBT_zero) ob else ob"

lemma GetOrNewNFT:
  "ledger_of (GetOrNewNFTStateObject s a) = ledger_of s"
  "keeps s (GetOrNewNFTStateObject s a)" "has_Csbt (GetOrNewNFTStateObject s a) a"
proof -
  have "ledger_of (GetOrNewNFTStateObject s a) = ledger_of s \<and> keeps s (GetOrNewNFTStateObject s a) \<and>
      (\<exists>ob. stateObjects (GetOrNewNFTStateObject s a) a = Some (init_Csbt ob) \<and> \<not> so_deleted (init_Csbt ob))"
  proof (rule get_or_new)
    have "init_Csbt (set_Csbt (Some AccountCSBT_zero) (set_Worm None (newObject a Account_zero))) =
        init_Csbt (newObject a Account_zero)"
      by (simp add: newObject_def Account_zero_def setter_defs)
    then show "GetOrNewNFTStateObject s a = put (db_append s e) a (init_Csbt (newObject a Account_zero))"
      if "getStateObject s a = (None, s\<lparr>stateObjects := (stateObjects s)(a := peek s a)\<rparr>)"
        "createObject (s\<lparr>stateObjects := (stateObjects s)(a := peek s a)\<rparr>) a =
          (None, put (db_append s e) a (newObject a Account_zero))" for e
      using that by (simp add: GetOrNewNFTStateObject_def)
  qed (auto simp: GetOrNewNFTStateObject_def getStateObject_Some setter_defs account_of_def nil_defs
      split: option.split)
  then show "ledger_of (GetOrNewNFTStateObject s a) = ledger_of s"
    "keeps s (GetOrNewNFTStateObject s a)" "has_Csbt (GetOrNewNFTStateObject s a) a"
    by (auto simp: has_defs setter_defs)
qed

abbreviation init_Staker :: "address \<Rightarrow> stateObject \<Rightarrow> stateObject" where
  "init_Staker a ob \<equiv> if a_Staker (so_data ob) = None then set_Staker (Some (default_Staker a)) ob else ob"

lemma GetOrNewStaker:
  "ledger_of (GetOrNewStakerStateObject s a) = ledger_of s"
  "keeps s (GetOrNewStakerStateObject s a)" "has_Staker (GetOrNewStakerStateObject s a) a"
proof -
  have "ledger_of (GetOrNewStakerStateObject s a) = ledger_of s \<and> keeps s (GetOrNewStakerStateObject s a) \<and>
      (\<exists>ob. stateObjects (GetOrNewStakerStateObject s a) a = Some (init_Staker a ob) \<and>
        \<not> so_deleted (init_Staker a ob))"
  proof (rule get_or_new)
    have "init_Staker a (set_Staker (Some (default_Staker a)) (newObject a Account_zero)) =
        init_Staker a (newObject a Account_zero)"
      by (simp add: newObject_def Account_zero_def setter_defs)
    then show "GetOrNewStakerStateObject s a = put (db_append s e) a (init_Staker a (newObject a Account_zero))"
      if "getStateObject s a = (None, s\<lparr>stateObjects := (stateObjects s)(a := peek s a)\<rparr>)"
        "createObject (s\<lparr>stateObjects := (stateObjects s)(a := peek s a)\<rparr>) a =
          (None, put (db_append s e) a (newObject a Account_zero))" for e
      using that by (simp add: GetOrNewStakerStateObject_def)
  qed (auto simp: GetOrNewStakerStateObject_def getStateObject_Some setter_defs account_of_def nil_defs
      split: option.split)
  then show "ledger_of (GetOrNewStakerStateObject s a) = ledger_of s"
    "keeps s (GetOrNewStakerStateObject s a)" "has_Staker (GetOrNewStakerStateObject s a) a"
    by (auto simp: has_defs setter_defs)
qed

lemma GetOrNewState:
  "ledger_of (GetOrNewStateObject s a) = ledger_of s"
  "keeps s (GetOrNewStateObject s a)" "live (GetOrNewStateObject s a) a"
proof -
  have "ledger_of (GetOrNewStateObject s a) = ledger_of s \<and> keeps s (GetOrNewStateObject s a) \<and>
      (\<exists>ob. stateObjects (GetOrNewStateObject s a) a = Some ob \<and> \<not> so_deleted ob)"
    by (rule get_or_new [where f = "\<lambda>ob. ob"]) (auto simp: GetOrNewStateObject_def getStateObject_Some)
  then show "ledger_of (GetOrNewStateObject s a) = ledger_of s"
    "keeps s (GetOrNewStateObject s a)" "live (GetOrNewStateObject s a) a"
    by (auto simp: live_def)
qed

lemma getStateObject_invisible:
  "ledger_of (snd (getStateObject s a)) = ledger_of s" "keeps s (snd (getStateObject s a))"
proof -
  show "ledger_of (snd (getStateObject s a)) = ledger_of s"
    by (rule ledger_of_cong) (simp add: getStateObject_eq)
  show "keeps s (snd (getStateObject s a))"
    by (auto simp: keeps_def has_defs getStateObject_eq peek_live)
qed

lemmas get_or_new_simps [simp] = GetOrNewAccount GetOrNewNFT GetOrNewStaker GetOrNewState
  getStateObject_invisible

lemmas get_or_new_keeps [simp] = keepsD [OF GetOrNewAccount(2)] keepsD [OF GetOrNewNFT(2)]
  keepsD [OF GetOrNewStaker(2)] keepsD [OF GetOrNewState(2)]
  keepsD [OF getStateObject_invisible(2)]

lemmas get_or_new_trans [simp] = keeps_trans [OF _ GetOrNewAccount(2)]
  keeps_trans [OF _ GetOrNewNFT(2)] keeps_trans [OF _ GetOrNewStaker(2)]
  keeps_trans [OF _ GetOrNewState(2)] keeps_trans [OF _ getStateObject_invisible(2)]

end
