(* ===== verification/Staking_Ops.thy ===== *)
theory Staking_Ops
  imports Ledger Common_Bytes
begin

text \<open>
  The staking operations of StateDB (core/state/statedb.go): pledging, withdrawing, becoming a
  validator, rewards, coefficients and CSBT ownership, each as the code composes it from the
  methods of the state objects, with the error the Go function returns next to the state it
  leaves behind.

  Parameter: \<open>rewardAmount\<close> is GetRewardAmount(blocknumber, DREBlockReward), a floating-point
  computation.
\<close>

type_synonym 'r outcome = "('r \<times> StateDB) option"

subsection \<open>Balances and nonces\<close>

definition db_AddBalance :: "StateDB \<Rightarrow> address \<Rightarrow> int \<Rightarrow> StateDB option" where
  "db_AddBalance s addr amount =
    (let s = GetOrNewAccountStateObject s addr in so_AddBalance s addr amount)"

definition db_SubBalance :: "StateDB \<Rightarrow> address \<Rightarrow> int \<Rightarrow> StateDB option" where
  "db_SubBalance s addr amount =
    (let s = GetOrNewAccountStateObject s addr in so_SubBalance s addr amount)"

definition db_SetBalance :: "StateDB \<Rightarrow> address \<Rightarrow> int \<Rightarrow> StateDB option" where
  "db_SetBalance s addr amount =
    (let s = GetOrNewAccountStateObject s addr in so_SetBalance s addr amount)"

definition db_SetNonce :: "StateDB \<Rightarrow> address \<Rightarrow> uint64 \<Rightarrow> StateDB option" where
  "db_SetNonce s addr nonce =
    (let s = GetOrNewAccountStateObject s addr in so_SetNonce s addr nonce)"

text \<open>The getters return the value and the state in which the object has been loaded.\<close>
definition db_GetBalance :: "StateDB \<Rightarrow> address \<Rightarrow> int \<times> StateDB" where
  "db_GetBalance s addr =
    (case getStateObject s addr of
       (Some ob, s) \<Rightarrow> (a_Balance (so_data ob), s) | (None, s) \<Rightarrow> (0, s))"

definition db_GetNonce :: "StateDB \<Rightarrow> address \<Rightarrow> uint64 \<times> StateDB" where
  "db_GetNonce s addr =
    (case getStateObject s addr of
       (Some ob, s) \<Rightarrow> (a_Nonce (so_data ob), s) | (None, s) \<Rightarrow> (0, s))"

definition db_Exist :: "StateDB \<Rightarrow> address \<Rightarrow> bool \<times> StateDB" where
  "db_Exist s addr = (case getStateObject s addr of (ob, s) \<Rightarrow> (ob \<noteq> None, s))"

definition db_Empty :: "StateDB \<Rightarrow> address \<Rightarrow> bool \<times> StateDB" where
  "db_Empty s addr =
    (case getStateObject s addr of (Some ob, s) \<Rightarrow> (so_empty ob, s) | (None, s) \<Rightarrow> (True, s))"

definition db_CreateAccount :: "StateDB \<Rightarrow> address \<Rightarrow> StateDB" where
  "db_CreateAccount s addr = GetOrNewAccountStateObject s addr"

subsection \<open>Pledging\<close>

definition db_PledgeToken :: "StateDB \<Rightarrow> address \<Rightarrow> int \<Rightarrow> address \<Rightarrow> int \<Rightarrow> unit result outcome" where
  "db_PledgeToken s address amount proxy blocknumber = do {
     let s = GetOrNewAccountStateObject s address;
     let s = GetOrNewStakerStateObject s ValidatorStorageAddress;
     vs \<leftarrow> so_GetValidators s ValidatorStorageAddress;
     validators \<leftarrow> vs;
     if list_ex (\<lambda>v. v_Proxy v \<noteq> empty_address \<and> v_Addr v \<noteq> address \<and> v_Proxy v = proxy) validators
     then Some (Inl ''cannot delegate repeatedly'', s)
     else do {
       (_, s) \<leftarrow> so_AddValidator s ValidatorStorageAddress address amount proxy;
       s \<leftarrow> so_SubBalance s address amount;
       s \<leftarrow> so_AddPledgedBalance s address amount;
       s \<leftarrow> so_SetPledgedBlockNumber s address blocknumber;
       Some (Inr (), s)
     }
   }"

text \<open>GetOrNewAccountStateObject never returns nil, so the error branch is not reached.\<close>
definition db_StakerPledge ::
    "StateDB \<Rightarrow> address \<Rightarrow> address \<Rightarrow> int \<Rightarrow> int \<Rightarrow> Wormholes \<Rightarrow> unit result outcome" where
  "db_StakerPledge s frm address amount blocknumber wh = do {
     let s = GetOrNewAccountStateObject s address;
     let s = GetOrNewAccountStateObject s frm;
     let newProxy = (if w_ProxyAddress wh \<noteq> [] then HexToAddress (w_ProxyAddress wh) else empty_address);
     s \<leftarrow> so_SubBalance s frm amount;
     s \<leftarrow> so_StakerPledge s frm address amount blocknumber;
     s \<leftarrow> so_AddPledgedBalance s address amount;
     s \<leftarrow> (if frm = address then so_SetValidatorProxy s address newProxy else Some s);
     s \<leftarrow> so_AddValidatorExtension s address frm amount blocknumber;
     s \<leftarrow> so_SetPledgedBlockNumber s frm blocknumber;
     Some (Inr (), s)
   }"

definition db_MinerConsign :: "StateDB \<Rightarrow> address \<Rightarrow> address \<Rightarrow> unit result outcome" where
  "db_MinerConsign s address proxy = do {
     let s = GetOrNewAccountStateObject s address;
     let s = GetOrNewStakerStateObject s ValidatorStorageAddress;
     vs \<leftarrow> so_GetValidators s ValidatorStorageAddress;
     validators \<leftarrow> vs;
     if \<not> list_ex (\<lambda>v. address = v_Addr v) validators then Some (Inl ''no repeated pledge'', s)
     else if list_ex (\<lambda>v. v_Proxy v \<noteq> empty_address \<and> v_Proxy v = proxy) validators
     then Some (Inl ''cannot delegate repeatedly'', s)
     else do {
       (_, s) \<leftarrow> so_AddValidator s ValidatorStorageAddress address 0 proxy;
       Some (Inr (), s)
     }
   }"

definition db_MinerBecome :: "StateDB \<Rightarrow> address \<Rightarrow> address \<Rightarrow> unit result outcome" where
  "db_MinerBecome s address proxy = do {
     let s = GetOrNewAccountStateObject s address;
     let s = GetOrNewStakerStateObject s ValidatorStorageAddress;
     pledged \<leftarrow> so_PledgedBalance s address;
     (_, s) \<leftarrow> so_AddValidator s ValidatorStorageAddress address pledged proxy;
     Some (Inr (), s)
   }"

definition db_AddValidatorCoefficient :: "StateDB \<Rightarrow> address \<Rightarrow> uint8 \<Rightarrow> StateDB option" where
  "db_AddValidatorCoefficient s addr coe =
    (let s = GetOrNewAccountStateObject s addr in so_AddCoefficient s addr coe)"

definition db_SubValidatorCoefficient :: "StateDB \<Rightarrow> address \<Rightarrow> uint8 \<Rightarrow> StateDB option" where
  "db_SubValidatorCoefficient s addr coe =
    (let s = GetOrNewAccountStateObject s addr in so_SubCoefficient s addr coe)"

definition db_RemoveValidatorCoefficient :: "StateDB \<Rightarrow> address \<Rightarrow> StateDB option" where
  "db_RemoveValidatorCoefficient s addr =
    (let s = GetOrNewAccountStateObject s addr in so_RemoveCoefficient s addr)"

definition db_GetValidatorCoefficient :: "StateDB \<Rightarrow> address \<Rightarrow> uint8 outcome" where
  "db_GetValidatorCoefficient s addr = do {
     let s = GetOrNewAccountStateObject s addr;
     coe \<leftarrow> so_Coefficient s addr;
     Some (coe, s)
   }"

definition db_ResetMinerBecome :: "StateDB \<Rightarrow> address \<Rightarrow> unit result outcome" where
  "db_ResetMinerBecome s address = do {
     let s = GetOrNewAccountStateObject s address;
     let s = GetOrNewStakerStateObject s ValidatorStorageAddress;
     (_, s) \<leftarrow> so_ResetemoveValidator s ValidatorStorageAddress address;
     pledged \<leftarrow> so_PledgedBalance s address;
     if pledged < ValidatorBase then Some (Inr (), s)
     else do {
       proxy \<leftarrow> so_GetValidatorProxy s address;
       vs \<leftarrow> so_GetValidators s ValidatorStorageAddress;
       validators \<leftarrow> vs;
       if proxy \<noteq> empty_address \<and> vl_Exist validators proxy
       then Some (Inl ''cannot have the same proxy'', s)
       else do {
         (coefficient, s) \<leftarrow> db_GetValidatorCoefficient s address;
         s \<leftarrow> (if coefficient = 0 then db_AddValidatorCoefficient s address VALIDATOR_COEFFICIENT
               else Some s);
         pledged \<leftarrow> so_PledgedBalance s address;
         (_, s) \<leftarrow> so_SetValidatorAmount s ValidatorStorageAddress address pledged proxy;
         Some (Inr (), s)
       }
     }
   }"

definition db_CancelPledgedToken :: "StateDB \<Rightarrow> address \<Rightarrow> int \<Rightarrow> StateDB option" where
  "db_CancelPledgedToken s address amount = do {
     let s = GetOrNewAccountStateObject s address;
     let s = GetOrNewStakerStateObject s ValidatorStorageAddress;
     (_, s) \<leftarrow> so_RemoveValidator s ValidatorStorageAddress address amount;
     s \<leftarrow> so_SubPledgedBalance s address amount;
     so_AddBalance s address amount
   }"

subsection \<open>Withdrawing\<close>

text \<open>The loop over the backers of the address, taken before the loop starts.\<close>
fun revocate_loop :: "StateDB \<Rightarrow> address \<Rightarrow> ValidatorsExtensionList \<Rightarrow> StateDB option" where
  "revocate_loop s addr [] = Some s"
| "revocate_loop s addr (staker # stakers) = do {
     let s = GetOrNewAccountStateObject s (ve_Addr staker);
     s \<leftarrow> so_RemoveStakerPledge s (ve_Addr staker) addr (ve_Balance staker);
     s \<leftarrow> so_AddBalance s (ve_Addr staker) (ve_Balance staker);
     s \<leftarrow> so_SubPledgedBalance s addr (ve_Balance staker);
     (_, s) \<leftarrow> so_RemoveValidator s ValidatorStorageAddress addr (ve_Balance staker);
     revocate_loop s addr stakers
   }"

definition db_RevocateAllStakers :: "StateDB \<Rightarrow> address \<Rightarrow> StateDB option" where
  "db_RevocateAllStakers s addr = do {
     let s = GetOrNewAccountStateObject s addr;
     stakers \<leftarrow> so_GetValidatorExtension s addr;
     let s = GetOrNewStakerStateObject s ValidatorStorageAddress;
     s \<leftarrow> revocate_loop s addr stakers;
     so_SetValidatorExtension s addr []
   }"

text \<open>The amount deducted from a validator's own withdrawal: 0.1 ERB per lost credit point.\<close>
definition punishErb :: "uint8 \<Rightarrow> int" where
  "punishErb coefficient = (if coefficient \<noteq> 0 then 70 - uint coefficient else 0)"

definition coebaseErb :: int where
  "coebaseErb = 100000000000000000"

text \<open>The three calls that take the pledge out of both lists and of the validator's total.\<close>
definition take_pledge :: "StateDB \<Rightarrow> address \<Rightarrow> address \<Rightarrow> int \<Rightarrow> StateDB option" where
  "take_pledge s frm address amount = do {
     s \<leftarrow> so_RemoveStakerPledge s frm address amount;
     s \<leftarrow> so_RemoveValidatorExtension s address frm amount;
     s \<leftarrow> so_SubPledgedBalance s address amount;
     (_, s) \<leftarrow> so_RemoveValidator s ValidatorStorageAddress address amount;
     Some s
   }"

definition db_NewCancelStakerPledge ::
    "StateDB \<Rightarrow> address \<Rightarrow> address \<Rightarrow> int \<Rightarrow> unit result outcome" where
  "db_NewCancelStakerPledge s frm address amount = do {
     let s = GetOrNewAccountStateObject s address;
     let s = GetOrNewAccountStateObject s frm;
     let s = GetOrNewStakerStateObject s ValidatorStorageAddress;
     if frm = address
     then do {
       coefficient \<leftarrow> so_Coefficient s address;
       let punish = punishErb coefficient;
       if punish > 0 \<and> amount < punish * coebaseErb
       then Some (Inl ''cancel pledge for insufficient punish amount'', s)
       else do {
         s \<leftarrow> (if punish > 0
           then do {
             s \<leftarrow> so_AddBalance s frm (amount - punish * coebaseErb);
             let s = GetOrNewAccountStateObject s empty_address;
             s \<leftarrow> so_AddBalance s empty_address (punish * coebaseErb);
             so_SetCoefficient s frm VALIDATOR_COEFFICIENT
           }
           else so_AddBalance s frm amount);
         validators \<leftarrow> so_GetStakerExtension s frm;
         let pledgedAmount = sel_GetBalance validators frm;
         s \<leftarrow> take_pledge s frm address amount;
         s \<leftarrow> (if pledgedAmount = amount then db_RevocateAllStakers s address else Some s);
         Some (Inr (), s)
       }
     }
     else do {
       s \<leftarrow> so_AddBalance s frm amount;
       s \<leftarrow> take_pledge s frm address amount;
       Some (Inr (), s)
     }
   }"

subsection \<open>Rewards\<close>

fun reward_validators :: "StateDB \<Rightarrow> int \<Rightarrow> address list \<Rightarrow> StateDB option" where
  "reward_validators s rewardAmount [] = Some s"
| "reward_validators s rewardAmount (owner # validators) = do {
     let s = GetOrNewAccountStateObject s owner;
     s \<leftarrow> so_AddBalance s owner rewardAmount;
     reward_validators s rewardAmount validators
   }"

text \<open>A nil mint counter panics where its bytes are read.\<close>
fun mint_to_exchangers :: "StateDB \<Rightarrow> address list \<Rightarrow> StateDB option" where
  "mint_to_exchangers s [] = Some s"
| "mint_to_exchangers s (awardee # exchangers) = do {
     m \<leftarrow> so_OfficialMint s MintDeepStorageAddress;
     mint \<leftarrow> m;
     let nftAddr = BigToAddress mint;
     let s = GetOrNewNFTStateObject s nftAddr;
     s \<leftarrow> so_SetNFTInfo s nftAddr awardee awardee;
     s \<leftarrow> so_AddOfficialMint s MintDeepStorageAddress 1;
     mint_to_exchangers s exchangers
   }"

definition db_CreateNFTByOfficial16 ::
    "StateDB \<Rightarrow> address list \<Rightarrow> address list \<Rightarrow> int \<Rightarrow> StateDB option" where
  "db_CreateNFTByOfficial16 s validators exchangers rewardAmount = do {
     s \<leftarrow> reward_validators s rewardAmount validators;
     let s = GetOrNewStakerStateObject s MintDeepStorageAddress;
     mint_to_exchangers s exchangers
   }"

text \<open>The loop over the backers of one validator; returns what was paid out.\<close>
fun distribute_loop ::
    "StateDB \<Rightarrow> address \<Rightarrow> int \<Rightarrow> int \<Rightarrow> ValidatorsExtensionList \<Rightarrow> int \<Rightarrow> int outcome" where
  "distribute_loop s owner sumStakerReward sumStakerBalance [] actual = Some (actual, s)"
| "distribute_loop s owner sumStakerReward sumStakerBalance (staker # stakers) actual =
    (if ve_Addr staker \<noteq> owner
     then do {
       stakerReward \<leftarrow> big_Div (sumStakerReward * ve_Balance staker) sumStakerBalance;
       let s = GetOrNewAccountStateObject s (ve_Addr staker);
       s \<leftarrow> so_AddBalance s (ve_Addr staker) stakerReward;
       distribute_loop s owner sumStakerReward sumStakerBalance stakers (actual + stakerReward)
     }
     else distribute_loop s owner sumStakerReward sumStakerBalance stakers actual)"

fun distribute_validators :: "StateDB \<Rightarrow> int \<Rightarrow> address list \<Rightarrow> StateDB option" where
  "distribute_validators s sumStakerReward [] = Some s"
| "distribute_validators s sumStakerReward (owner # validators) = do {
     let s = GetOrNewAccountStateObject s owner;
     stakerList \<leftarrow> so_GetValidatorExtension s owner;
     let ownerStakerBalance = vel_GetBalance stakerList owner;
     let sumStakerBalance = vel_GetAllBalance stakerList - ownerStakerBalance;
     (actualSumStakerReward, s) \<leftarrow>
       distribute_loop s owner sumStakerReward sumStakerBalance stakerList 0;
     s \<leftarrow> so_SubBalance s owner actualSumStakerReward;
     distribute_validators s sumStakerReward validators
   }"

definition db_DistributeRewardsToStakers :: "StateDB \<Rightarrow> address list \<Rightarrow> int \<Rightarrow> StateDB option" where
  "db_DistributeRewardsToStakers s validators rewardAmount =
    (let stakersPercentage = 100 - PercentageValidatorReward;
         sumStakerReward = (rewardAmount * stakersPercentage) div 100
     in distribute_validators s sumStakerReward validators)"

fun punish_loop :: "StateDB \<Rightarrow> address list \<Rightarrow> StateDB option" where
  "punish_loop s [] = Some s"
| "punish_loop s (evil # evilValidators) = do {
     s \<leftarrow> db_SubValidatorCoefficient s evil DEFAULT_VALIDATOR_COEFFICIENT;
     punish_loop s evilValidators
   }"

definition db_PunishEvilValidators :: "StateDB \<Rightarrow> address list \<Rightarrow> StateDB option" where
  "db_PunishEvilValidators s evilValidators =
    (if length evilValidators = 0 then Some s else punish_loop s evilValidators)"

subsection \<open>CSBT ownership and the remaining getters\<close>

definition db_ChangeNFTOwner :: "StateDB \<Rightarrow> address \<Rightarrow> address \<Rightarrow> StateDB option" where
  "db_ChangeNFTOwner s nftAddr newOwner =
    (let s = GetOrNewNFTStateObject s nftAddr in so_ChangeNFTOwner s nftAddr newOwner)"

definition db_GetNFTOwner16 :: "StateDB \<Rightarrow> address \<Rightarrow> address outcome" where
  "db_GetNFTOwner16 s nftAddr = do {
     let s = GetOrNewNFTStateObject s nftAddr;
     owner \<leftarrow> so_NFTOwner s nftAddr;
     Some (owner, s)
   }"

definition db_GetNFTCreator :: "StateDB \<Rightarrow> address \<Rightarrow> address outcome" where
  "db_GetNFTCreator s addr = do {
     let s = GetOrNewNFTStateObject s addr;
     creator \<leftarrow> so_GetCreator s addr;
     Some (creator, s)
   }"

definition db_IsExistNFT :: "StateDB \<Rightarrow> address \<Rightarrow> bool outcome" where
  "db_IsExistNFT s addr = do {
     let s = GetOrNewNFTStateObject s addr;
     owner \<leftarrow> so_NFTOwner s addr;
     Some (owner \<noteq> empty_address, s)
   }"

text \<open>The top bit of the first byte is set.\<close>
definition db_IsOfficialNFT :: "address \<Rightarrow> bool" where
  "db_IsOfficialNFT nftAddress \<longleftrightarrow> and (128 :: 8 word) (ucast (drop_bit 152 nftAddress)) = 128"

definition db_calculateExchangeAmount :: "uint8 \<Rightarrow> 32 word \<Rightarrow> int" where
  "db_calculateExchangeAmount level mergenumber =
    (let nftNumber = uint mergenumber in
     if level = 0 then nftNumber * SNFTL0
     else if level = 1 then nftNumber * SNFTL1
     else if level = 2 then nftNumber * SNFTL2
     else nftNumber * SNFTL3)"

definition db_GetPledgedTime :: "StateDB \<Rightarrow> address \<Rightarrow> address \<Rightarrow> int outcome" where
  "db_GetPledgedTime s frm addr = do {
     let s = GetOrNewAccountStateObject s frm;
     n \<leftarrow> so_StakerPledgedBlockNumber s frm addr;
     Some (n, s)
   }"

text \<open>A pair of balance and block number; zeros when there is no such pledge.\<close>
definition db_GetStakerPledged :: "StateDB \<Rightarrow> address \<Rightarrow> address \<Rightarrow> StakerExtension outcome" where
  "db_GetStakerPledged s frm addr = do {
     let s = GetOrNewAccountStateObject s frm;
     stakes \<leftarrow> so_GetStakerExtension s frm;
     Some (case find (\<lambda>v. se_Addr v = addr) stakes of Some v \<Rightarrow> v
       | None \<Rightarrow> \<lparr>se_Addr = empty_address, se_Balance = 0, se_BlockNumber = 0\<rparr>, s)
   }"

definition db_GetPledgedBalance :: "StateDB \<Rightarrow> address \<Rightarrow> int outcome" where
  "db_GetPledgedBalance s addr = do {
     let s = GetOrNewAccountStateObject s addr;
     b \<leftarrow> so_PledgedBalance s addr;
     Some (b, s)
   }"

definition db_GetStakerPledgedBalance :: "StateDB \<Rightarrow> address \<Rightarrow> address \<Rightarrow> int outcome" where
  "db_GetStakerPledgedBalance s frm addr = do {
     let s = GetOrNewAccountStateObject s frm;
     stakes \<leftarrow> so_GetStakerExtension s frm;
     Some (case find (\<lambda>v. se_Addr v = addr) stakes of Some v \<Rightarrow> se_Balance v | None \<Rightarrow> 0, s)
   }"

definition db_GetStakers :: "StateDB \<Rightarrow> address \<Rightarrow> StakerList option outcome" where
  "db_GetStakers s addr = do {
     let s = GetOrNewStakerStateObject s addr;
     sl \<leftarrow> so_GetStakers s addr;
     Some (sl, s)
   }"

definition db_GetStakerStorageAddress :: "StateDB \<Rightarrow> StakerList option outcome" where
  "db_GetStakerStorageAddress s = db_GetStakers s StakerStorageAddress"

definition db_GetValidators :: "StateDB \<Rightarrow> address \<Rightarrow> ValidatorList option outcome" where
  "db_GetValidators s addr = do {
     let s = GetOrNewStakerStateObject s addr;
     vl \<leftarrow> so_GetValidators s addr;
     Some (vl, s)
   }"

text \<open>Copying a nil counter panics.\<close>
definition db_GetOfficialMint :: "StateDB \<Rightarrow> int outcome" where
  "db_GetOfficialMint s = do {
     let s = GetOrNewStakerStateObject s MintDeepStorageAddress;
     m \<leftarrow> so_OfficialMint s MintDeepStorageAddress;
     mint \<leftarrow> m;
     Some (mint, s)
   }"

definition db_GetUserMint :: "StateDB \<Rightarrow> int outcome" where
  "db_GetUserMint s = do {
     let s = GetOrNewStakerStateObject s MintDeepStorageAddress;
     m \<leftarrow> so_UserMint s MintDeepStorageAddress;
     mint \<leftarrow> m;
     Some (mint, s)
   }"

definition db_ChangeValidatorProxy :: "StateDB \<Rightarrow> address \<Rightarrow> address \<Rightarrow> StateDB option" where
  "db_ChangeValidatorProxy s addr newValidatorProxy =
    (let s = GetOrNewAccountStateObject s addr in so_SetValidatorProxy s addr newValidatorProxy)"

definition db_GetValidatorProxy :: "StateDB \<Rightarrow> address \<Rightarrow> address outcome" where
  "db_GetValidatorProxy s addr = do {
     let s = GetOrNewAccountStateObject s addr;
     p \<leftarrow> so_GetValidatorProxy s addr;
     Some (p, s)
   }"

end
