(* ===== verification/Staking_Refinement.thy ===== *)
theory Staking_Refinement
  imports Staking_Ops
begin

text \<open>
  The staking operations refine operations on the ledger: each one succeeds without a panic and
  changes the ledger exactly as its specification says.  The specifications name, for every
  account, the fields that change.
\<close>

subsection \<open>Composing operations\<close>

text \<open>
  A computation on the database refines a computation on the ledger: it does not panic, returns
  the same value, ends in a state with the specified ledger and keeps objects initialised.
\<close>
definition refines :: "('r \<times> StateDB) option \<Rightarrow> StateDB \<Rightarrow> (ledger \<Rightarrow> 'r \<times> ledger) \<Rightarrow> bool" where
  "refines r s G \<longleftrightarrow> (\<exists>s'. r = Some (fst (G (ledger_of s)), s') \<and>
    ledger_of s' = snd (G (ledger_of s)) \<and> keeps s s')"

lemma refines_return: "refines (Some (x, s)) s (\<lambda>L. (x, L))"
  by (simp add: refines_def)

lemma refines_bind:
  assumes "yields r s g" "\<And>s'. keeps s s' \<Longrightarrow> refines (k s') s' H"
  shows "refines (Option.bind r k) s (\<lambda>L. H (g L))"
  using assms by (fastforce simp: yields_def refines_def intro: keeps_trans)

lemma refines_bindR:
  assumes "refines r s G" "\<And>x s'. keeps s s' \<Longrightarrow> refines (k x s') s' (H x)"
  shows "refines (Option.bind r (case_prod k)) s (\<lambda>L. case G L of (x, L') \<Rightarrow> H x L')"
  using assms by (fastforce simp: refines_def intro: keeps_trans split: prod.split)

lemma refines_read:
  assumes "r = Some (f (ledger_of s))" "\<And>v. refines (k v) s (H v)"
  shows "refines (Option.bind r k) s (\<lambda>L. H (f L) L)"
  using assms by (simp add: refines_def)

lemma refines_validators:
  assumes "has_Staker s a" "\<And>ok s'. keeps s s' \<Longrightarrow> refines (k ok s') s' H"
  shows "refines (Option.bind (change_validators s a f) (case_prod k)) s
    (\<lambda>L. H (on_account a (upd_validators f) L))"
  using change_validators_yields [OF assms(1), of f] assms(2)
  by (fastforce simp: refines_def intro: keeps_trans)

lemma refines_if:
  "\<lbrakk>b \<Longrightarrow> refines r s G; \<not> b \<Longrightarrow> refines r' s G'\<rbrakk> \<Longrightarrow>
    refines (if b then r else r') s (\<lambda>L. if b then G L else G' L)"
  by simp

text \<open>A change of the state that the ledger does not show comes first.\<close>
lemma refines_pre:
  assumes "refines r s0 G" "keeps s s0" "ledger_of s0 = ledger_of s"
  shows "refines r s G"
  using assms by (auto simp: refines_def intro: keeps_trans)

lemma refines_cong: "\<lbrakk>refines r s G; G (ledger_of s) = G' (ledger_of s)\<rbrakk> \<Longrightarrow> refines r s G'"
  by (simp add: refines_def)

text \<open>The same rules for computations that only change the state.\<close>

lemma yields_bind:
  assumes "yields r s g" "\<And>s'. keeps s s' \<Longrightarrow> yields (k s') s' h"
  shows "yields (Option.bind r k) s (\<lambda>L. h (g L))"
  using assms by (fastforce simp: yields_def intro: keeps_trans)

lemma yields_read:
  assumes "r = Some (f (ledger_of s))" "\<And>v. yields (k v) s (h v)"
  shows "yields (Option.bind r k) s (\<lambda>L. h (f L) L)"
  using assms by (simp add: yields_def)

lemma yields_validators:
  assumes "has_Staker s a" "\<And>ok s'. keeps s s' \<Longrightarrow> yields (k ok s') s' h"
  shows "yields (Option.bind (change_validators s a f) (case_prod k)) s
    (\<lambda>L. h (on_account a (upd_validators f) L))"
  using change_validators_yields [OF assms(1), of f] assms(2)
  by (fastforce simp: yields_def intro: keeps_trans)

lemma yields_if:
  "\<lbrakk>b \<Longrightarrow> yields r s g; \<not> b \<Longrightarrow> yields r' s g'\<rbrakk> \<Longrightarrow>
    yields (if b then r else r') s (\<lambda>L. if b then g L else g' L)"
  by simp

lemma yields_pre:
  assumes "yields r s0 g" "keeps s s0" "ledger_of s0 = ledger_of s"
  shows "yields r s g"
  using assms by (auto simp: yields_def intro: keeps_trans)

lemmas reads = so_Worm_ledger(1-6) so_Csbt_ledger so_Staker_ledger(2-5)

lemmas refines_reads =
  refines_read [where f = "\<lambda>L. l_Pledged (L a)" for a, OF so_Worm_ledger(1)]
  refines_read [where f = "\<lambda>L. l_Coef (L a)" for a, OF so_Worm_ledger(3)]
  refines_read [where f = "\<lambda>L. l_Stakes (L a)" for a, OF so_Worm_ledger(4)]
  refines_read [where f = "\<lambda>L. l_Backers (L a)" for a, OF so_Worm_ledger(5)]
  refines_read [where f = "\<lambda>L. l_Proxy (L a)" for a, OF so_Worm_ledger(6)]
  refines_read [where f = "\<lambda>L. l_Owner (L a)" for a, OF so_Csbt_ledger(1)]
  refines_read [where f = "\<lambda>L. l_Creator (L a)" for a, OF so_Csbt_ledger(2)]

lemma refines_GetValidators:
  assumes "has_Staker s a" "\<And>v. refines (k v) s (H v)"
  shows "refines (Option.bind (so_GetValidators s a) (\<lambda>vs. Option.bind vs k)) s
    (\<lambda>L. H (as_Validators (l_Staker (L a))) L)"
  using assms by (simp add: refines_def so_Staker_ledger)

lemmas yields_reads =
  yields_read [where f = "\<lambda>L. l_Backers (L a)" for a, OF so_Worm_ledger(5)]
  yields_read [where f = "\<lambda>L. l_Coef (L a)" for a, OF so_Worm_ledger(3)]

lemmas setter_yields = so_SetBalance_yields so_SetNonce_yields so_AddBalance_yields
  so_SubBalance_yields PledgedBalance_yields Extension_yields Coefficient_yields Worm_setters
  Csbt_setters

lemmas refine_steps = refines_return refines_bind refines_validators refines_GetValidators
  refines_reads refines_if
  yields_skip yields_bind yields_validators yields_reads yields_if setter_yields

subsection \<open>Pledging to a validator\<close>

text \<open>
  Specification of StakerPledge: the sender's balance goes down and the amount is recorded in
  the sender's stakes, in the validator's backers and in the validator's pledged total.
\<close>
definition L_StakerPledge :: "address \<Rightarrow> address \<Rightarrow> int \<Rightarrow> int \<Rightarrow> address \<Rightarrow> ledger \<Rightarrow> ledger" where
  "L_StakerPledge frm address amount blocknumber newProxy L = (\<lambda>a. let x = L a in x\<lparr>
     l_Balance := l_Balance x - (if a = frm then amount else 0),
     l_Stakes := (if a = frm then snd (sel_AddStakerPledge (l_Stakes x) address amount blocknumber)
       else l_Stakes x),
     l_Block := (if a = frm then blocknumber else l_Block x),
     l_Pledged := l_Pledged x + (if a = address then amount else 0),
     l_Backers := (if a = address then snd (vel_AddValidatorPledge (l_Backers x) frm amount blocknumber)
       else l_Backers x),
     l_Proxy := (if a = address \<and> frm = address then newProxy else l_Proxy x)\<rparr>)"

abbreviation proxy_of :: "Wormholes \<Rightarrow> address" where
  "proxy_of wh \<equiv> (if w_ProxyAddress wh \<noteq> [] then HexToAddress (w_ProxyAddress wh) else empty_address)"

lemma StakerPledge_refines:
  "refines (db_StakerPledge s frm address amount blocknumber wh) s
    (\<lambda>L. (Inr (), L_StakerPledge frm address amount blocknumber (proxy_of wh) L))"
proof -
  let ?s = "GetOrNewAccountStateObject (GetOrNewAccountStateObject s address) frm"
  have s: "has_Worm ?s address" "has_Worm ?s frm" "keeps s ?s" "ledger_of ?s = ledger_of s"
    by simp_all
  show ?thesis
    apply (rule refines_pre [OF refines_cong s(3,4)])
    unfolding db_StakerPledge_def Let_def
     apply (rule refine_steps s(1,2) | erule keepsD | rule has_live)+
    apply (auto simp: L_StakerPledge_def on_account_def fun_eq_iff Let_def)
    done
qed

subsection \<open>Becoming a validator\<close>

text \<open>
  Specification of ResetMinerBecome: the validator is taken off the list and, if its pledged
  total reaches the threshold, put back with that total, unless its proxy is already in use.  A
  validator that comes back without a credit score gets the full one.
\<close>
definition L_ResetMinerBecome :: "address \<Rightarrow> ledger \<Rightarrow> unit result \<times> ledger" where
  "L_ResetMinerBecome address L =
    (let L1 = on_account ValidatorStorageAddress (upd_validators (\<lambda>vl. vl_ResetRemoveValidator vl address)) L;
         pledged = l_Pledged (L address); proxy = l_Proxy (L address) in
     if pledged < ValidatorBase then (Inr (), L1)
     else if proxy \<noteq> empty_address \<and> vl_Exist (as_Validators (l_Staker (L1 ValidatorStorageAddress))) proxy
     then (Inl ''cannot have the same proxy'', L1)
     else (Inr (), on_account ValidatorStorageAddress
            (upd_validators (\<lambda>vl. vl_SetValidatorAmount vl address pledged proxy))
            (on_account address (\<lambda>x. if l_Coef x = 0 then x\<lparr>l_Coef := VALIDATOR_COEFFICIENT\<rparr> else x) L1)))"

lemma upd_validators_simps [simp]:
  "l_Balance (upd_validators f x) = l_Balance x" "l_Pledged (upd_validators f x) = l_Pledged x"
  "l_Block (upd_validators f x) = l_Block x" "l_Coef (upd_validators f x) = l_Coef x"
  "l_Stakes (upd_validators f x) = l_Stakes x" "l_Backers (upd_validators f x) = l_Backers x"
  "l_Proxy (upd_validators f x) = l_Proxy x" "l_Owner (upd_validators f x) = l_Owner x"
  "l_Creator (upd_validators f x) = l_Creator x" "l_Nonce (upd_validators f x) = l_Nonce x"
  by (simp_all add: upd_validators_def split: prod.split)

text \<open>A call of another StateDB method that starts by looking up its account.\<close>
lemma refines_coefficient:
  assumes "has_Worm s a" "\<And>v s'. keeps s s' \<Longrightarrow> refines (k v s') s' (H v)"
  shows "refines (Option.bind (db_GetValidatorCoefficient s a) (case_prod k)) s (\<lambda>L. H (l_Coef (L a)) L)"
proof -
  let ?s = "GetOrNewAccountStateObject s a" and ?v = "l_Coef (ledger_of s a)"
  have "refines (k ?v ?s) s (H ?v)"
    using refines_pre [OF assms(2) [of ?s ?v], of s] by simp
  then show ?thesis
    using so_Worm_ledger(3) [of ?s a] by (simp add: db_GetValidatorCoefficient_def refines_def)
qed

lemma db_AddValidatorCoefficient_yields:
  "yields (db_AddValidatorCoefficient s a c) s (on_account a (\<lambda>x. x\<lparr>l_Coef := VALIDATOR_COEFFICIENT\<rparr>))"
  by (rule yields_pre [of _ "GetOrNewAccountStateObject s a"])
    (simp_all add: db_AddValidatorCoefficient_def Coefficient_yields)

lemma ResetMinerBecome_refines:
  "refines (db_ResetMinerBecome s address) s (L_ResetMinerBecome address)"
proof -
  let ?s = "GetOrNewStakerStateObject (GetOrNewAccountStateObject s address) ValidatorStorageAddress"
  have s: "has_Worm ?s address" "has_Staker ?s ValidatorStorageAddress" "keeps s ?s"
    "ledger_of ?s = ledger_of s"
    by simp_all
  show ?thesis
    apply (rule refines_pre [OF refines_cong s(3,4)])
    unfolding db_ResetMinerBecome_def Let_def so_ResetemoveValidator_def so_SetValidatorAmount_def
     apply (rule refine_steps refines_coefficient db_AddValidatorCoefficient_yields s(1,2) |
        erule keepsD | rule has_live)+
    apply (simp add: L_ResetMinerBecome_def on_account_def Let_def)
    done
qed


subsection \<open>Withdrawing\<close>

text \<open>Take an amount out of the two pledge lists, the pledged total and the validator list.\<close>
definition L_take_pledge :: "address \<Rightarrow> address \<Rightarrow> int \<Rightarrow> ledger \<Rightarrow> ledger" where
  "L_take_pledge frm address amount L =
    on_account ValidatorStorageAddress (upd_validators (\<lambda>vl. vl_RemoveValidator vl address amount))
     (\<lambda>a. let x = L a in x\<lparr>
       l_Stakes := (if a = frm then snd (sel_RemoveStakerPledge (l_Stakes x) address amount) else l_Stakes x),
       l_Backers := (if a = address then snd (vel_RemoveValidatorPledge (l_Backers x) frm amount)
         else l_Backers x),
       l_Pledged := l_Pledged x - (if a = address then amount else 0)\<rparr>)"

lemma take_pledge_yields:
  assumes "has_Worm s frm" "has_Worm s address" "has_Staker s ValidatorStorageAddress"
  shows "yields (take_pledge s frm address amount) s (L_take_pledge frm address amount)"
  apply (rule yields_cong)
  unfolding take_pledge_def so_RemoveValidator_def
   apply (rule refine_steps assms | erule keepsD | rule has_live)+
  apply (rule arg_cong [where f = "on_account _ _"] | simp add: L_take_pledge_def)+
  apply (auto simp: on_account_def fun_eq_iff Let_def)
  done

text \<open>Specification of one round of RevocateAllStakers: the backer gets the pledge back.\<close>
definition L_revocate_one :: "address \<Rightarrow> ValidatorExtension \<Rightarrow> ledger \<Rightarrow> ledger" where
  "L_revocate_one addr staker L =
    on_account ValidatorStorageAddress (upd_validators (\<lambda>vl. vl_RemoveValidator vl addr (ve_Balance staker)))
     (\<lambda>a. let x = L a in x\<lparr>
       l_Stakes := (if a = ve_Addr staker
         then snd (sel_RemoveStakerPledge (l_Stakes x) addr (ve_Balance staker)) else l_Stakes x),
       l_Balance := l_Balance x + (if a = ve_Addr staker then ve_Balance staker else 0),
       l_Pledged := l_Pledged x - (if a = addr then ve_Balance staker else 0)\<rparr>)"

lemma revocate_loop_yields:
  assumes "has_Worm s addr" "has_Staker s ValidatorStorageAddress"
  shows "yields (revocate_loop s addr stakers) s (fold (L_revocate_one addr) stakers)"
  using assms
proof (induction stakers arbitrary: s)
  case Nil
  then show ?case by (simp add: yields_def id_def)
next
  case (Cons st sts)
  let ?s = "GetOrNewAccountStateObject s (ve_Addr st)"
  have s: "has_Worm ?s addr" "has_Worm ?s (ve_Addr st)" "has_Staker ?s ValidatorStorageAddress"
    "keeps s ?s" "ledger_of ?s = ledger_of s"
    using Cons.prems by simp_all
  show ?case
    apply (rule yields_pre [OF yields_cong s(4,5)])
    unfolding revocate_loop.simps Let_def so_RemoveValidator_def
     apply (rule refine_steps Cons.IH s(1-3) | erule keepsD | rule has_live)+
    apply (simp add: L_revocate_one_def)
    apply (rule arg_cong [where f = "\<lambda>L. fold _ _ (on_account _ _ L)"])
    apply (auto simp: on_account_def fun_eq_iff Let_def)
    done
qed

text \<open>Specification of RevocateAllStakers.\<close>
definition L_RevocateAllStakers :: "address \<Rightarrow> ledger \<Rightarrow> ledger" where
  "L_RevocateAllStakers addr L =
    on_account addr (l_Backers_update (\<lambda>_. [])) (fold (L_revocate_one addr) (l_Backers (L addr)) L)"

lemma RevocateAllStakers_yields:
  "yields (db_RevocateAllStakers s addr) s (L_RevocateAllStakers addr)"
proof -
  let ?s = "GetOrNewAccountStateObject s addr"
  let ?t = "GetOrNewStakerStateObject ?s ValidatorStorageAddress"
  have t: "has_Worm ?t addr" "has_Staker ?t ValidatorStorageAddress" "keeps s ?t"
    "ledger_of ?t = ledger_of s"
    by simp_all
  have "yields (Option.bind (revocate_loop ?t addr (l_Backers (ledger_of s addr)))
      (\<lambda>s. so_SetValidatorExtension s addr [])) ?t
      (\<lambda>L. on_account addr (l_Backers_update (\<lambda>_. [])) (fold (L_revocate_one addr) (l_Backers (ledger_of s addr)) L))"
    by (rule yields_bind, rule revocate_loop_yields [OF t(1,2)], rule setter_yields, erule keepsD, rule t)
  then have "yields (db_RevocateAllStakers s addr) ?t
      (\<lambda>L. on_account addr (l_Backers_update (\<lambda>_. [])) (fold (L_revocate_one addr) (l_Backers (ledger_of s addr)) L))"
    by (simp add: db_RevocateAllStakers_def so_Worm_ledger)
  then have "yields (db_RevocateAllStakers s addr) ?t (L_RevocateAllStakers addr)"
    by (rule yields_cong) (simp add: L_RevocateAllStakers_def)
  then show ?thesis using t(3,4) by (rule yields_pre)
qed

text \<open>
  Specification of NewCancelStakerPledge.  Withdrawing from another validator returns the amount.
  A validator that withdraws its own pledge pays 0.1 ERB to the zero address for every credit
  point it has lost and has its credit restored; when it withdraws all of it, every backer is
  paid back too.
\<close>
definition L_NewCancelStakerPledge :: "address \<Rightarrow> address \<Rightarrow> int \<Rightarrow> ledger \<Rightarrow> unit result \<times> ledger" where
  "L_NewCancelStakerPledge frm address amount L =
    (if frm = address
     then let punish = punishErb (l_Coef (L address)) in
       if punish > 0 \<and> amount < punish * coebaseErb
       then (Inl ''cancel pledge for insufficient punish amount'', L)
       else
         let L1 = (if punish > 0
               then on_account frm (\<lambda>x. x\<lparr>l_Coef := VALIDATOR_COEFFICIENT\<rparr>)
                 (on_account empty_address (\<lambda>x. x\<lparr>l_Balance := l_Balance x + punish * coebaseErb\<rparr>)
                 (on_account frm (\<lambda>x. x\<lparr>l_Balance := l_Balance x + (amount - punish * coebaseErb)\<rparr>) L))
               else on_account frm (\<lambda>x. x\<lparr>l_Balance := l_Balance x + amount\<rparr>) L);
             L2 = L_take_pledge frm address amount L1
         in (Inr (), if sel_GetBalance (l_Stakes (L frm)) frm = amount
                     then L_RevocateAllStakers address L2 else L2)
     else (Inr (), L_take_pledge frm address amount
            (on_account frm (\<lambda>x. x\<lparr>l_Balance := l_Balance x + amount\<rparr>) L)))"

text \<open>A lookup of an account in the middle of a computation.\<close>
lemma AddBalance_lookup:
  "yields (so_AddBalance (GetOrNewAccountStateObject s a) a v) s
    (on_account a (\<lambda>x. x\<lparr>l_Balance := l_Balance x + v\<rparr>))"
  by (rule yields_pre [OF so_AddBalance_yields]) (simp_all add: has_live)

lemma NewCancelStakerPledge_refines:
  "refines (db_NewCancelStakerPledge s frm address amount) s (L_NewCancelStakerPledge frm address amount)"
proof -
  let ?s = "GetOrNewStakerStateObject (GetOrNewAccountStateObject
    (GetOrNewAccountStateObject s address) frm) ValidatorStorageAddress"
  have s: "has_Worm ?s address" "has_Worm ?s frm" "has_Staker ?s ValidatorStorageAddress" "keeps s ?s"
    "ledger_of ?s = ledger_of s"
    by simp_all
  show ?thesis
    apply (rule refines_pre [OF refines_cong s(4,5)])
    unfolding db_NewCancelStakerPledge_def Let_def
     apply (rule refine_steps take_pledge_yields RevocateAllStakers_yields AddBalance_lookup s(1-3) |
        erule keepsD | rule has_live)+
    apply (auto simp: L_NewCancelStakerPledge_def Let_def)
    done
qed


subsection \<open>Rewards and punishment\<close>

lemma reward_validators_yields:
  "yields (reward_validators s r vs) s
    (fold (\<lambda>v. on_account v (\<lambda>x. x\<lparr>l_Balance := l_Balance x + r\<rparr>)) vs)"
proof (induction vs arbitrary: s)
  case (Cons v vs)
  show ?case
    unfolding reward_validators.simps Let_def fold_Cons comp_def
    by (rule yields_bind [OF AddBalance_lookup Cons])
qed (simp add: yields_def id_def)

lemma punish_loop_yields:
  "yields (punish_loop s vs) s
    (fold (\<lambda>v. on_account v (\<lambda>x. x\<lparr>l_Coef := sub_coefficient (l_Coef x) DEFAULT_VALIDATOR_COEFFICIENT\<rparr>)) vs)"
proof (induction vs arbitrary: s)
  case (Cons v vs)
  have "yields (db_SubValidatorCoefficient s v DEFAULT_VALIDATOR_COEFFICIENT) s
      (on_account v (\<lambda>x. x\<lparr>l_Coef := sub_coefficient (l_Coef x) DEFAULT_VALIDATOR_COEFFICIENT\<rparr>))"
    unfolding db_SubValidatorCoefficient_def Let_def
    by (rule yields_pre [OF Coefficient_yields(2)]) simp_all
  then show ?case
    unfolding punish_loop.simps fold_Cons comp_def by (rule yields_bind) (rule Cons)
qed (simp add: yields_def id_def)

text \<open>Specification of the distribution of one validator's reward to its backers.\<close>
definition staker_reward :: "int \<Rightarrow> int \<Rightarrow> ValidatorExtension \<Rightarrow> int" where
  "staker_reward sumStakerReward sumStakerBalance staker =
    (sumStakerReward * ve_Balance staker) div sumStakerBalance"

definition L_reward_one :: "int \<Rightarrow> int \<Rightarrow> ValidatorExtension \<Rightarrow> ledger \<Rightarrow> ledger" where
  "L_reward_one sumStakerReward sumStakerBalance staker = on_account (ve_Addr staker)
    (\<lambda>x. x\<lparr>l_Balance := l_Balance x + staker_reward sumStakerReward sumStakerBalance staker\<rparr>)"

lemma distribute_loop_refines:
  assumes "\<And>st. st \<in> set stakers \<Longrightarrow> ve_Addr st \<noteq> owner \<Longrightarrow> 0 < sb"
  shows "refines (distribute_loop s owner sr sb stakers actual) s (\<lambda>L.
    (actual + sum_list (map (staker_reward sr sb) (filter (\<lambda>st. ve_Addr st \<noteq> owner) stakers)),
     fold (L_reward_one sr sb) (filter (\<lambda>st. ve_Addr st \<noteq> owner) stakers) L))"
  using assms
proof (induction stakers arbitrary: s actual)
  case (Cons st sts)
  note IH = Cons.IH [OF Cons.prems [OF list.set_intros(2)]]
  show ?case
  proof (cases "ve_Addr st = owner")
    case False
    have "refines (Option.bind (so_AddBalance (GetOrNewAccountStateObject s (ve_Addr st)) (ve_Addr st)
          (staker_reward sr sb st))
        (\<lambda>s. distribute_loop s owner sr sb sts (actual + staker_reward sr sb st))) s
      (\<lambda>L. (actual + staker_reward sr sb st +
          sum_list (map (staker_reward sr sb) (filter (\<lambda>st. ve_Addr st \<noteq> owner) sts)),
        fold (L_reward_one sr sb) (filter (\<lambda>st. ve_Addr st \<noteq> owner) sts) (L_reward_one sr sb st L)))"
      unfolding L_reward_one_def [of sr sb st] by (rule refines_bind [OF AddBalance_lookup IH])
    then show ?thesis
      using False Cons.prems [of st] by (simp add: staker_reward_def [of sr sb st] algebra_simps)
  qed (use IH in simp)
qed (simp add: refines_def)

end
