(* ===== verification/Staking_Invariants.thy ===== *)
theory Staking_Invariants
  imports Staking_Refinement
begin

text \<open>
  The invariants of the staking ledger.  Every pledge is recorded twice, with the staker and with
  the validator, and the two records agree; the pledged total of an account is the sum of what its
  backers have pledged; every listed validator is recorded with its pledged total, which reaches
  the threshold; credit scores are at most 70.  Moving tokens between balances and pledges creates
  and destroys none.
\<close>

subsection \<open>The invariants\<close>

text \<open>The two pledge lists mirror each other and add up to the pledged totals.\<close>
definition pledges_ok :: "ledger \<Rightarrow> bool" where
  "pledges_ok L \<longleftrightarrow> (\<forall>a. sel.solvent (l_Stakes (L a)) \<and> vel.solvent (l_Backers (L a)) \<and>
    l_Pledged (L a) = vel_GetAllBalance (l_Backers (L a)) \<and>
    (\<forall>b. sel_GetBalance (l_Stakes (L a)) b = vel_GetBalance (l_Backers (L b)) a))"

abbreviation validators_in :: "ledger \<Rightarrow> ValidatorList" where
  "validators_in L \<equiv> as_Validators (l_Staker (L ValidatorStorageAddress))"

text \<open>
  Listed validators, apart from those in \<open>X\<close>, have their pledged total as recorded stake, and it
  reaches the threshold.
\<close>
definition vl_listed :: "address set \<Rightarrow> (address \<Rightarrow> int) \<Rightarrow> ValidatorList \<Rightarrow> bool" where
  "vl_listed X pledged vl \<longleftrightarrow> vl_wf vl \<and> (\<forall>v \<in> set vl. v_Addr v \<notin> X \<longrightarrow>
    v_Balance v = pledged (v_Addr v) \<and> ValidatorBase \<le> v_Balance v)"

abbreviation listed_ok :: "address set \<Rightarrow> ledger \<Rightarrow> bool" where
  "listed_ok X L \<equiv> vl_listed X (\<lambda>a. l_Pledged (L a)) (validators_in L)"

definition credit_ok :: "ledger \<Rightarrow> bool" where
  "credit_ok L \<longleftrightarrow> (\<forall>a. l_Coef (L a) \<le> 70)"

definition staking_ok :: "ledger \<Rightarrow> bool" where
  "staking_ok L \<longleftrightarrow> pledges_ok L \<and> listed_ok {} L \<and> credit_ok L"

text \<open>Tokens held by the accounts of a set, free or pledged to them.\<close>
definition wealth :: "address set \<Rightarrow> ledger \<Rightarrow> int" where
  "wealth A L = (\<Sum>a \<in> A. l_Balance (L a) + l_Pledged (L a))"

lemma pledges_okD:
  assumes "pledges_ok L"
  shows "sel.solvent (l_Stakes (L a))" "vel.solvent (l_Backers (L a))"
    "sel_wf (l_Stakes (L a))" "vel_wf (l_Backers (L a))"
    "l_Pledged (L a) = vel_GetAllBalance (l_Backers (L a))"
    "sel_GetBalance (l_Stakes (L a)) b = vel_GetBalance (l_Backers (L b)) a"
  using assms unfolding pledges_ok_def sel.solvent_def vel.solvent_def by blast+

lemma pledges_ok_cong:
  assumes "\<And>a. l_Stakes (L a) = l_Stakes (L' a)" "\<And>a. l_Backers (L a) = l_Backers (L' a)"
    "\<And>a. l_Pledged (L a) = l_Pledged (L' a)"
  shows "pledges_ok L = pledges_ok L'"
  using assms by (simp add: pledges_ok_def)

lemma wealth_on_account:
  assumes "finite A"
  shows "wealth A (on_account a f L) = wealth A L +
    (if a \<in> A then l_Balance (f (L a)) + l_Pledged (f (L a)) - l_Balance (L a) - l_Pledged (L a) else 0)"
proof -
  have "wealth A (on_account a f L) = (\<Sum>b \<in> A. (l_Balance (L b) + l_Pledged (L b)) +
      (if b = a then l_Balance (f (L a)) + l_Pledged (f (L a)) - l_Balance (L a) - l_Pledged (L a) else 0))"
    unfolding wealth_def by (rule sum.cong) (auto simp: on_account_def)
  then show ?thesis using assms by (simp add: wealth_def sum.distrib sum.delta)
qed

text \<open>Changes to the validator list leave pledges, balances and credit alone.\<close>
lemma pledges_ok_upd_validators [simp]:
  "pledges_ok (on_account a (upd_validators f) L) = pledges_ok L"
  by (rule pledges_ok_cong) simp_all

lemma wealth_upd_validators [simp]: "finite A \<Longrightarrow> wealth A (on_account a (upd_validators f) L) = wealth A L"
  by (simp add: wealth_on_account)

lemma credit_ok_upd_validators [simp]: "credit_ok (on_account a (upd_validators f) L) = credit_ok L"
  by (simp add: credit_ok_def)

lemma listed_ok_upd_validators:
  assumes "vl_listed X p (validators_in L)" "\<And>vl. vl_listed X p vl \<Longrightarrow> vl_listed Y q (snd (f vl))"
    "\<And>vl. \<lbrakk>vl_listed X p vl; \<not> fst (f vl)\<rbrakk> \<Longrightarrow> vl_listed Y q vl"
  shows "vl_listed Y q (validators_in (on_account ValidatorStorageAddress (upd_validators f) L))"
proof -
  have D: "vl_listed X p (vl_DeepCopy vl) = vl_listed X p vl" for X p vl
    by (simp add: vl_listed_def vl_wf_DeepCopy) (simp add: vl_DeepCopy_def)
  from assms(1) have "vl_listed X p (vl_DeepCopy (validators_in L))" by (simp add: D)
  from assms(2,3) [OF this] show ?thesis
    by (auto simp: on_account_def upd_validators_def D split: prod.split)
qed

subsection \<open>Changes of the validator list\<close>

lemma vl_listed_mono: "\<lbrakk>vl_listed X p vl; X \<subseteq> Y; \<And>a. a \<notin> Y \<Longrightarrow> p a = q a\<rbrakk> \<Longrightarrow> vl_listed Y q vl"
  by (auto simp: vl_listed_def)

lemma vl_listed_absent: "\<lbrakk>vl_listed X p vl; \<not> list_ex (\<lambda>v. v_Addr v = a) vl\<rbrakk> \<Longrightarrow> vl_listed (X - {a}) p vl"
  by (auto simp: vl_listed_def list_ex_iff)

lemma vl_ResetRemoveValidator_found: "fst (vl_ResetRemoveValidator vl a) = list_ex (\<lambda>v. v_Addr v = a) vl"
  and vl_RemoveValidator_found: "fst (vl_RemoveValidator vl a b) = list_ex (\<lambda>v. v_Addr v = a) vl"
  by (simp_all add: vl_ops list_ex_find split: option.split)

lemma vl_listed_Reset:
  assumes "vl_listed X p vl"
  shows "vl_listed (X - {a}) p (snd (vl_ResetRemoveValidator vl a))"
proof -
  have "distinct (map v_Addr vl)" using assms by (simp add: vl_listed_def vl_wf_def)
  then show ?thesis
    using assms vl_wf_ops(5) [of vl a] mem_del_first [of v_Addr vl _ a]
    by (auto simp: vl_listed_def vl_ResetRemoveValidator_def list_ex_iff)
qed

lemma vl_listed_Set:
  assumes "vl_listed X p vl" "ValidatorBase \<le> p a"
  shows "vl_listed X p (snd (vl_SetValidatorAmount vl a (p a) px))"
proof -
  have "distinct (map v_Addr vl)" using assms by (simp add: vl_listed_def vl_wf_def)
  then show ?thesis
    using assms vl_wf_ops(4) [of vl a "p a" px]
      mem_upd_first [of v_Addr vl _ a "\<lambda>v. set_proxy px (v\<lparr>v_Balance := p a\<rparr>)"]
    by (auto simp: vl_listed_def vl_SetValidatorAmount_def NewValidator_def)
qed

lemma vl_listed_Remove:
  assumes "vl_listed X p vl"
  shows "vl_listed X (p(a := p a - b)) (snd (vl_RemoveValidator vl a b))"
proof (cases "find (\<lambda>v. v_Addr v = a) vl")
  case (Some v)
  have d: "distinct (map v_Addr vl)" using assms by (simp add: vl_listed_def vl_wf_def)
  then have "w = v" if "w \<in> set vl" "v_Addr w = a" for w
    using find_member [of v_Addr vl w] that Some by simp
  moreover have "v \<in> set vl" "v_Addr v = a" using find_SomeD [OF Some] by simp_all
  ultimately have v: "w \<in> set vl \<and> v_Addr w = a \<longleftrightarrow> w = v" for w by blast
  have "w \<in> set (snd (vl_RemoveValidator vl a b)) \<longleftrightarrow> v_Addr w \<noteq> a \<and> w \<in> set vl \<or>
      ValidatorBase \<le> v_Balance v - b \<and> w = v\<lparr>v_Balance := v_Balance v - b\<rparr>" for w
  proof -
    let ?f = "\<lambda>v. v\<lparr>v_Balance := v_Balance v - b\<rparr>"
    have "(\<exists>x \<in> set vl. v_Addr x = a \<and> w = ?f x) \<longleftrightarrow> w = ?f v" using v by metis
    then show ?thesis
      using Some mem_del_first [OF d, of w a] mem_upd_first [OF d, of w a ?f]
      by (simp add: vl_RemoveValidator_def not_less conj_commute)
  qed
  moreover have "v_Balance v = p a" if "a \<notin> X" using assms v [of v] that by (auto simp: vl_listed_def)
  ultimately show ?thesis
    using assms v [of v] vl_wf_ops(3) [of vl a b] by (auto simp: vl_listed_def)
next
  case None
  then have "snd (vl_RemoveValidator vl a b) = vl" by (simp add: vl_RemoveValidator_def)
  moreover have "\<And>v. v \<in> set vl \<Longrightarrow> v_Addr v \<noteq> a" using None by (auto simp: find_None_iff)
  ultimately show ?thesis using assms by (auto simp: vl_listed_def)
qed

subsection \<open>Pledging\<close>

lemma pledges_ok_StakerPledge:
  assumes "pledges_ok L" "0 < sel_GetBalance (l_Stakes (L frm)) address + amount"
  shows "pledges_ok (L_StakerPledge frm address amount n px L)"
proof -
  note ok = pledges_okD [OF assms(1)]
  have "0 < vel_GetBalance (l_Backers (L address)) frm + amount" using assms(2) ok(6) by simp
  then have "vel.solvent (snd (vel_AddValidatorPledge (l_Backers (L address)) frm amount n))"
    by (rule vel.solvent_add [OF ok(2)])
  moreover have "sel.solvent (snd (sel_AddStakerPledge (l_Stakes (L frm)) address amount n))"
    by (rule sel.solvent_add [OF ok(1) assms(2)])
  ultimately show ?thesis
    using ok by (auto simp: pledges_ok_def L_StakerPledge_def Let_def sel.get_add vel.get_add vel.total_add)
qed

lemma wealth_StakerPledge:
  assumes "finite A" "frm \<in> A" "address \<in> A"
  shows "wealth A (L_StakerPledge frm address amount n px L) = wealth A L"
proof -
  have "wealth A (L_StakerPledge frm address amount n px L) =
      (\<Sum>a \<in> A. (l_Balance (L a) + l_Pledged (L a)) + (if a = address then amount else 0)
        - (if a = frm then amount else 0))"
    unfolding wealth_def L_StakerPledge_def Let_def by (rule sum.cong) auto
  then show ?thesis
    using assms by (simp add: wealth_def sum.distrib sum_subtractf sum.delta)
qed

text \<open>A pledge makes the recorded stake of the validator stale until ResetMinerBecome.\<close>
lemma listed_ok_StakerPledge:
  assumes "listed_ok {} L"
  shows "listed_ok {address} (L_StakerPledge frm address amount n px L)"
proof -
  have "validators_in (L_StakerPledge frm address amount n px L) = validators_in L"
    by (simp add: L_StakerPledge_def Let_def)
  moreover have "vl_listed {address} (\<lambda>a. l_Pledged (L_StakerPledge frm address amount n px L a)) (validators_in L)"
    by (rule vl_listed_mono [OF assms]) (auto simp: L_StakerPledge_def Let_def)
  ultimately show ?thesis by simp
qed

lemma credit_ok_StakerPledge [simp]: "credit_ok (L_StakerPledge frm address amount n px L) = credit_ok L"
  by (simp add: credit_ok_def L_StakerPledge_def Let_def)

subsection \<open>Becoming a validator\<close>

lemma pledges_ok_ResetMinerBecome [simp]:
  "pledges_ok (snd (L_ResetMinerBecome address L)) = pledges_ok L"
  by (rule pledges_ok_cong) (auto simp: L_ResetMinerBecome_def Let_def on_account_def)

lemma wealth_ResetMinerBecome [simp]: "wealth A (snd (L_ResetMinerBecome address L)) = wealth A L"
  unfolding wealth_def by (rule sum.cong) (auto simp: L_ResetMinerBecome_def Let_def on_account_def)

lemma credit_ok_ResetMinerBecome: "credit_ok L \<Longrightarrow> credit_ok (snd (L_ResetMinerBecome address L))"
  by (auto simp: credit_ok_def L_ResetMinerBecome_def Let_def on_account_def VALIDATOR_COEFFICIENT_def)

text \<open>Whatever its outcome, ResetMinerBecome leaves no stale stake of the address behind.\<close>
lemma listed_ok_ResetMinerBecome:
  assumes "listed_ok X L"
  shows "listed_ok (X - {address}) (snd (L_ResetMinerBecome address L))"
proof -
  let ?L1 = "on_account ValidatorStorageAddress (upd_validators (\<lambda>vl. vl_ResetRemoveValidator vl address)) L"
  let ?p = "\<lambda>a. l_Pledged (L a)"
  have L1: "vl_listed (X - {address}) ?p (validators_in ?L1)"
    using assms by (rule listed_ok_upd_validators)
      (auto intro: vl_listed_Reset vl_listed_absent simp: vl_ResetRemoveValidator_found)
  let ?L2 = "on_account address (\<lambda>x. if l_Coef x = 0 then x\<lparr>l_Coef := VALIDATOR_COEFFICIENT\<rparr> else x) ?L1"
  have "vl_listed (X - {address}) ?p (validators_in ?L2)"
    using L1 by (simp add: on_account_field [of l_Staker "\<lambda>x. if l_Coef x = 0 then _ x else x"])
  then have "vl_listed (X - {address}) ?p (validators_in (on_account ValidatorStorageAddress
      (upd_validators (\<lambda>vl. vl_SetValidatorAmount vl address (?p address) px)) ?L2))"
    if "ValidatorBase \<le> ?p address" for px
  proof (rule listed_ok_upd_validators)
    show "vl_listed (X - {address}) ?p (snd (vl_SetValidatorAmount vl address (?p address) px))"
      if "vl_listed (X - {address}) ?p vl" for vl
      using vl_listed_Set [OF that, of address] \<open>ValidatorBase \<le> ?p address\<close> by simp
  qed
  moreover have "l_Pledged (snd (L_ResetMinerBecome address L) a) = ?p a" for a
    by (simp add: L_ResetMinerBecome_def Let_def on_account_def)
  ultimately show ?thesis
    using L1 by (simp add: L_ResetMinerBecome_def Let_def not_less)
qed

subsection \<open>Withdrawing\<close>

lemma pledges_ok_balance [simp]:
  "pledges_ok (on_account a (\<lambda>x. x\<lparr>l_Balance := v x\<rparr>) L) = pledges_ok L"
  by (rule pledges_ok_cong) simp_all

lemma listed_ok_balance [simp]:
  "listed_ok X (on_account a (\<lambda>x. x\<lparr>l_Balance := v x\<rparr>) L) = listed_ok X L"
  by (simp add: on_account_field [of l_Staker])

lemma credit_ok_balance [simp]: "credit_ok (on_account a (\<lambda>x. x\<lparr>l_Balance := v x\<rparr>) L) = credit_ok L"
  by (simp add: credit_ok_def)

lemma pledges_ok_coef [simp]:
  "pledges_ok (on_account a (\<lambda>x. x\<lparr>l_Coef := v x\<rparr>) L) = pledges_ok L"
  by (rule pledges_ok_cong) simp_all

lemma listed_ok_coef [simp]:
  "listed_ok X (on_account a (\<lambda>x. x\<lparr>l_Coef := v x\<rparr>) L) = listed_ok X L"
  by (simp add: on_account_field [of l_Staker])

lemma credit_ok_coef: "\<lbrakk>credit_ok L; v (L a) \<le> 70\<rbrakk> \<Longrightarrow> credit_ok (on_account a (\<lambda>x. x\<lparr>l_Coef := v x\<rparr>) L)"
  by (auto simp: credit_ok_def on_account_def)

lemma wealth_coef [simp]: "finite A \<Longrightarrow> wealth A (on_account a (\<lambda>x. x\<lparr>l_Coef := v x\<rparr>) L) = wealth A L"
  by (simp add: wealth_on_account)

lemma pledges_ok_take_pledge:
  assumes "pledges_ok L" "0 \<le> amount" "amount \<le> sel_GetBalance (l_Stakes (L frm)) address"
  shows "pledges_ok (L_take_pledge frm address amount L)"
proof -
  note ok = pledges_okD [OF assms(1)]
  have le: "amount \<le> vel_GetBalance (l_Backers (L address)) frm" using assms(3) ok(6) by simp
  have ex: "sel_IsExist (l_Stakes (L frm)) address = vel_IsExist (l_Backers (L address)) frm"
    using sel.solvent_exist_iff [OF ok(1)] vel.solvent_exist_iff [OF ok(2)] ok(6) by simp
  have absent: "amount = 0" if "\<not> vel_IsExist (l_Backers (L address)) frm"
    using vel.get_absent [OF that] le assms(2) by simp
  show ?thesis
    unfolding L_take_pledge_def pledges_ok_upd_validators
    using ok ex absent le assms(3) sel.solvent_remove [OF ok(1)] vel.solvent_remove [OF ok(2)]
    by (auto simp: pledges_ok_def Let_def sel.get_remove vel.get_remove vel.total_remove)
qed

lemma listed_ok_take_pledge:
  assumes "listed_ok X L"
  shows "listed_ok X (L_take_pledge frm address amount L)"
proof -
  let ?L = "\<lambda>a. let x = L a in x\<lparr>
       l_Stakes := (if a = frm then snd (sel_RemoveStakerPledge (l_Stakes x) address amount) else l_Stakes x),
       l_Backers := (if a = address then snd (vel_RemoveValidatorPledge (l_Backers x) frm amount)
         else l_Backers x),
       l_Pledged := l_Pledged x - (if a = address then amount else 0)\<rparr>"
  let ?p = "\<lambda>a. l_Pledged (L a)"
  have p: "(\<lambda>a. l_Pledged (L_take_pledge frm address amount L a)) = ?p(address := ?p address - amount)"
    by (auto simp: L_take_pledge_def Let_def)
  have "vl_listed X ?p (validators_in ?L)" using assms by (simp add: Let_def)
  then have "vl_listed X (?p(address := ?p address - amount)) (validators_in
      (on_account ValidatorStorageAddress (upd_validators (\<lambda>vl. vl_RemoveValidator vl address amount)) ?L))"
  proof (rule listed_ok_upd_validators)
    fix vl
    assume vl: "vl_listed X ?p vl"
    show *: "vl_listed X (?p(address := ?p address - amount)) (snd (vl_RemoveValidator vl address amount))"
      by (rule vl_listed_Remove [OF vl])
    assume "\<not> fst (vl_RemoveValidator vl address amount)"
    then have "snd (vl_RemoveValidator vl address amount) = vl"
      by (auto simp: vl_RemoveValidator_def split: option.splits if_splits)
    with * show "vl_listed X (?p(address := ?p address - amount)) vl" by simp
  qed
  then show ?thesis unfolding p by (simp add: L_take_pledge_def)
qed

lemma credit_ok_take_pledge [simp]: "credit_ok (L_take_pledge frm address amount L) = credit_ok L"
  by (simp add: L_take_pledge_def) (simp add: credit_ok_def Let_def)

lemma wealth_take_pledge:
  assumes "finite A" "address \<in> A"
  shows "wealth A (L_take_pledge frm address amount L) = wealth A L - amount"
proof -
  have "wealth A (L_take_pledge frm address amount L) =
      (\<Sum>a \<in> A. (l_Balance (L a) + l_Pledged (L a)) - (if a = address then amount else 0))"
    using assms(1) by (simp add: L_take_pledge_def) (auto simp: wealth_def Let_def intro: sum.cong)
  then show ?thesis using assms by (simp add: wealth_def sum_subtractf sum.delta)
qed

subsection \<open>Returning every pledge\<close>

abbreviation with_backers :: "address \<Rightarrow> ValidatorsExtensionList \<Rightarrow> ledger \<Rightarrow> ledger" where
  "with_backers addr bs \<equiv> on_account addr (l_Backers_update (\<lambda>_. bs))"

lemma upd_validators_commute [simp]:
  "upd_validators f (l_Balance_update g x) = l_Balance_update g (upd_validators f x)"
  "upd_validators f (l_Backers_update h x) = l_Backers_update h (upd_validators f x)"
  "upd_validators f (l_Stakes_update i x) = l_Stakes_update i (upd_validators f x)"
  "upd_validators f (l_Pledged_update j x) = l_Pledged_update j (upd_validators f x)"
  by (simp_all add: upd_validators_def split: prod.split)

text \<open>A round of RevocateAllStakers is a withdrawal in the name of the first backer.\<close>
lemma L_revocate_one_withdraws:
  "with_backers addr sts (L_revocate_one addr st L) =
    on_account (ve_Addr st) (\<lambda>x. x\<lparr>l_Balance := l_Balance x + ve_Balance st\<rparr>)
      (L_take_pledge (ve_Addr st) addr (ve_Balance st) (with_backers addr (st # sts) L))"
  (is "?l = ?r")
proof -
  have "snd (vel_RemoveValidatorPledge (st # sts) (ve_Addr st) (ve_Balance st)) = sts"
    by (simp add: vel_RemoveValidatorPledge_def)
  then have "?l a = ?r a" for a
    by (cases "a = ValidatorStorageAddress"; cases "a = addr"; cases "a = ve_Addr st")
      (simp_all add: L_revocate_one_def L_take_pledge_def on_account_def Let_def)
  then show ?thesis by (rule ext)
qed

lemma with_backers_same [simp]: "l_Backers (L a) = bs \<Longrightarrow> with_backers a bs L = L"
  by (auto simp: fun_eq_iff on_account_def)

lemma revocate_fold:
  assumes "pledges_ok (with_backers addr sts L)"
  shows "pledges_ok (with_backers addr [] (fold (L_revocate_one addr) sts L))"
  using assms
proof (induction sts arbitrary: L)
  case (Cons st sts)
  note ok = pledges_okD [OF Cons.prems]
  have "ve_Balance st = vel_GetBalance (st # sts) (ve_Addr st)" by (simp add: vel_GetBalance_def)
  moreover have "\<dots> = sel_GetBalance (l_Stakes (with_backers addr (st # sts) L (ve_Addr st))) addr"
    using ok(6) [of "ve_Addr st" addr] by (simp add: on_account_def)
  moreover have "0 \<le> ve_Balance st"
    using vel.solvent_nonneg [OF ok(2), of addr "ve_Addr st"] calculation(1) by (simp add: on_account_def)
  ultimately have "pledges_ok (with_backers addr sts (L_revocate_one addr st L))"
    unfolding L_revocate_one_withdraws pledges_ok_balance
    by (intro pledges_ok_take_pledge [OF Cons.prems]) simp_all
  then show ?case by (simp add: Cons.IH)
qed simp

lemma pledges_ok_RevocateAllStakers: "pledges_ok L \<Longrightarrow> pledges_ok (L_RevocateAllStakers addr L)"
  by (simp add: L_RevocateAllStakers_def revocate_fold)

lemma listed_ok_backers [simp]: "listed_ok X (with_backers a bs L) = listed_ok X L"
  by (simp add: on_account_field [of l_Staker])

lemma listed_ok_revocate_one: "listed_ok X L \<Longrightarrow> listed_ok X (L_revocate_one addr st L)"
proof -
  assume "listed_ok X L"
  then have "listed_ok X (with_backers addr [] (L_revocate_one addr st L))"
    unfolding L_revocate_one_withdraws listed_ok_balance
    by (intro listed_ok_take_pledge) simp
  then show ?thesis by simp
qed

lemma listed_ok_RevocateAllStakers: "listed_ok X L \<Longrightarrow> listed_ok X (L_RevocateAllStakers addr L)"
proof -
  have "listed_ok X L \<Longrightarrow> listed_ok X (fold (L_revocate_one addr) sts L)" for sts
    by (induction sts arbitrary: L) (simp_all add: listed_ok_revocate_one del: listed_ok_balance)
  then show "listed_ok X L \<Longrightarrow> ?thesis" by (simp add: L_RevocateAllStakers_def)
qed

lemma L_revocate_one_fields [simp]:
  "l_Coef (L_revocate_one addr st L a) = l_Coef (L a)"
  "l_Balance (L_revocate_one addr st L a) = l_Balance (L a) + (if a = ve_Addr st then ve_Balance st else 0)"
  "l_Pledged (L_revocate_one addr st L a) = l_Pledged (L a) - (if a = addr then ve_Balance st else 0)"
  by (simp_all add: L_revocate_one_def Let_def)

lemma revocate_fold_fields [simp]:
  "l_Coef (fold (L_revocate_one addr) sts L a) = l_Coef (L a)"
  "l_Balance (fold (L_revocate_one addr) sts L a) =
    l_Balance (L a) + sum_list (map ve_Balance (filter (\<lambda>st. ve_Addr st = a) sts))"
  "l_Pledged (fold (L_revocate_one addr) sts L a) =
    l_Pledged (L a) - (if a = addr then sum_list (map ve_Balance sts) else 0)"
  by (induction sts arbitrary: L) auto

lemma credit_ok_RevocateAllStakers [simp]: "credit_ok (L_RevocateAllStakers addr L) = credit_ok L"
  by (simp add: credit_ok_def L_RevocateAllStakers_def)

lemma vel_wf_Cons: "vel_wf (st # l) \<longleftrightarrow> \<not> vel_IsExist l (ve_Addr st) \<and> vel_wf l"
  by (simp add: vel_wf_def vel_IsExist_def list_ex_iff image_iff) metis

lemma vel_GetBalance_filter:
  assumes "vel_wf l"
  shows "sum_list (map ve_Balance (filter (\<lambda>st. ve_Addr st = a) l)) = vel_GetBalance l a"
  using assms
proof (induction l)
  case (Cons st l)
  have "filter (\<lambda>st. ve_Addr st = a) l = []" if "a = ve_Addr st"
    using Cons.prems that by (auto simp: vel_wf_Cons vel_IsExist_def list_ex_iff filter_empty_conv)
  then show ?case using Cons by (auto simp: vel_wf_def vel_GetBalance_def)
qed (simp add: vel_GetBalance_def)

text \<open>What RevocateAllStakers does to balances and pledges.\<close>
lemma RevocateAllStakers_returns:
  assumes "pledges_ok L"
  shows "l_Balance (L_RevocateAllStakers addr L a) = l_Balance (L a) + vel_GetBalance (l_Backers (L addr)) a"
    and "l_Pledged (L_RevocateAllStakers addr L a) = (if a = addr then 0 else l_Pledged (L a))"
    and "l_Backers (L_RevocateAllStakers addr L addr) = []"
  using pledges_okD(4,5) [OF assms, of addr]
  by (simp_all add: L_RevocateAllStakers_def vel_GetBalance_filter vel_GetAllBalance_def sum_foldl)

lemma vel_sum_GetBalance:
  assumes "vel_wf l" "finite A" "ve_Addr ` set l \<subseteq> A"
  shows "(\<Sum>a \<in> A. vel_GetBalance l a) = vel_GetAllBalance l"
  using assms
proof (induction l)
  case (Cons st l)
  have "vel_GetBalance (st # l) a = (if a = ve_Addr st then ve_Balance st else 0) + vel_GetBalance l a" for a
  proof (cases "a = ve_Addr st")
    case True
    then have "\<not> vel_IsExist l a" using Cons.prems(1) by (simp add: vel_wf_Cons)
    then show ?thesis using True vel.get_absent [of l a] by (simp add: vel_GetBalance_def)
  qed (simp add: vel_GetBalance_def)
  then show ?case
    using Cons by (simp add: sum.distrib sum.delta vel_wf_def vel_GetAllBalance_def sum_foldl)
qed (simp add: vel_GetBalance_def vel_GetAllBalance_def)

abbreviation backers :: "address \<Rightarrow> ledger \<Rightarrow> address set" where
  "backers addr L \<equiv> ve_Addr ` set (l_Backers (L addr))"

lemma wealth_RevocateAllStakers:
  assumes "pledges_ok L" "finite A" "addr \<in> A" "backers addr L \<subseteq> A"
  shows "wealth A (L_RevocateAllStakers addr L) = wealth A L"
proof -
  have "wealth A (L_RevocateAllStakers addr L) =
      (\<Sum>a \<in> A. (l_Balance (L a) + l_Pledged (L a)) + vel_GetBalance (l_Backers (L addr)) a -
        (if a = addr then l_Pledged (L addr) else 0))"
    unfolding wealth_def by (rule sum.cong) (simp_all add: RevocateAllStakers_returns [OF assms(1)])
  then show ?thesis
    using assms pledges_okD(4,5) [OF assms(1), of addr]
    by (simp add: wealth_def sum.distrib sum_subtractf sum.delta vel_sum_GetBalance)
qed

subsection \<open>Withdrawing with the penalty\<close>

text \<open>The credit score bounds the penalty: at most 69 times 0.1 ERB.\<close>
lemma punishErb_bounds:
  assumes "c \<le> 70"
  shows "0 \<le> punishErb c" "punishErb c \<le> 69" "c \<noteq> 0 \<Longrightarrow> punishErb c = 70 - uint c"
proof -
  have "uint c \<le> 70" using assms by (simp add: word_le_def)
  moreover have "0 < uint c" if "c \<noteq> 0" using that by (simp add: word_neq_0_conv word_less_def)
  ultimately show "0 \<le> punishErb c" "punishErb c \<le> 69" "c \<noteq> 0 \<Longrightarrow> punishErb c = 70 - uint c"
    by (auto simp: punishErb_def)
qed

text \<open>The ledger after the payment and before the pledge is taken out.\<close>
definition L_pay_back :: "address \<Rightarrow> int \<Rightarrow> ledger \<Rightarrow> ledger" where
  "L_pay_back frm amount L = (let punish = punishErb (l_Coef (L frm)) in
    if punish > 0
    then on_account frm (\<lambda>x. x\<lparr>l_Coef := VALIDATOR_COEFFICIENT\<rparr>)
      (on_account empty_address (\<lambda>x. x\<lparr>l_Balance := l_Balance x + punish * coebaseErb\<rparr>)
      (on_account frm (\<lambda>x. x\<lparr>l_Balance := l_Balance x + (amount - punish * coebaseErb)\<rparr>) L))
    else on_account frm (\<lambda>x. x\<lparr>l_Balance := l_Balance x + amount\<rparr>) L)"

lemma pay_back_keeps [simp]:
  "pledges_ok (L_pay_back frm amount L) = pledges_ok L"
  "listed_ok X (L_pay_back frm amount L) = listed_ok X L"
  "l_Stakes (L_pay_back frm amount L a) = l_Stakes (L a)"
  "l_Backers (L_pay_back frm amount L a) = l_Backers (L a)"
  by (simp_all add: L_pay_back_def Let_def on_account_field [of l_Staker])

lemma credit_ok_pay_back: "credit_ok L \<Longrightarrow> credit_ok (L_pay_back frm amount L)"
  by (simp add: L_pay_back_def Let_def credit_ok_coef VALIDATOR_COEFFICIENT_def)

lemma wealth_pay_back:
  assumes "finite A" "frm \<in> A" "empty_address \<in> A"
  shows "wealth A (L_pay_back frm amount L) = wealth A L + amount"
  using assms by (simp add: L_pay_back_def Let_def wealth_on_account)

lemma NewCancel_cases:
  "L_NewCancelStakerPledge frm address amount L =
    (if frm = address
     then if punishErb (l_Coef (L frm)) > 0 \<and> amount < punishErb (l_Coef (L frm)) * coebaseErb
       then (Inl ''cancel pledge for insufficient punish amount'', L)
       else (Inr (), (if sel_GetBalance (l_Stakes (L frm)) frm = amount then L_RevocateAllStakers frm else id)
         (L_take_pledge frm frm amount (L_pay_back frm amount L)))
     else (Inr (), L_take_pledge frm address amount
            (on_account frm (\<lambda>x. x\<lparr>l_Balance := l_Balance x + amount\<rparr>) L)))"
  by (simp add: L_NewCancelStakerPledge_def L_pay_back_def Let_def)

lemma staking_ok_NewCancel:
  assumes "staking_ok L" "0 \<le> amount" "amount \<le> sel_GetBalance (l_Stakes (L frm)) address"
  shows "staking_ok (snd (L_NewCancelStakerPledge frm address amount L))"
  using assms
  by (auto simp: staking_ok_def NewCancel_cases intro!: pledges_ok_RevocateAllStakers
    listed_ok_RevocateAllStakers pledges_ok_take_pledge listed_ok_take_pledge credit_ok_pay_back
    simp del: listed_ok_balance)

lemma backers_take_pledge: "backers address (L_take_pledge frm address amount L) \<subseteq> backers address L"
proof -
  have "ve_Addr ` set (snd (vel_RemoveValidatorPledge l frm amount)) \<subseteq> ve_Addr ` set l" for l
  proof -
    have "ve_Addr ` set (upd_first P (\<lambda>v. v\<lparr>ve_Balance := g v\<rparr>) l) = ve_Addr ` set l" for P g
      by (induction l) auto
    then show ?thesis
      using image_mono [OF set_del_first, of ve_Addr _ l]
      by (simp add: vel_RemoveValidatorPledge_def split: option.split)
  qed
  then show ?thesis by (simp add: L_take_pledge_def Let_def)
qed

lemma wealth_NewCancel:
  assumes "pledges_ok L" "0 \<le> amount" "amount \<le> sel_GetBalance (l_Stakes (L frm)) address"
    "finite A" "frm \<in> A" "address \<in> A" "empty_address \<in> A" "backers address L \<subseteq> A"
  shows "wealth A (snd (L_NewCancelStakerPledge frm address amount L)) = wealth A L"
proof -
  let ?L = "L_take_pledge frm frm amount (L_pay_back frm amount L)"
  have "wealth A ?L = wealth A L" using assms by (simp add: wealth_take_pledge wealth_pay_back)
  moreover have "wealth A (L_RevocateAllStakers frm ?L) = wealth A ?L" if "address = frm"
    using assms that backers_take_pledge [of frm frm amount "L_pay_back frm amount L"]
    by (intro wealth_RevocateAllStakers) (auto intro: pledges_ok_take_pledge)
  ultimately show ?thesis
    using assms by (auto simp: NewCancel_cases wealth_take_pledge wealth_on_account)
qed

end
