(* ===== verification/Staking_Rewards.thy ===== *)
theory Staking_Rewards
  imports Staking_Invariants
begin

text \<open>
  Block rewards (CreateNFTByOfficial16, DistributeRewardsToStakers), CSBT minting and the
  punishment of validators, on the ledger.  A validator passes 93 percent of its reward on to
  the accounts that back it, in proportion to their pledges; the division never panics on a
  consistent ledger and what is paid out never exceeds the share.
\<close>

subsection \<open>Sharing a reward with the backers\<close>

text \<open>The backers other than the validator, what they have pledged, and what they are paid.\<close>

definition other_backers :: "address \<Rightarrow> ledger \<Rightarrow> ValidatorsExtensionList" where
  "other_backers owner L = filter (\<lambda>st. ve_Addr st \<noteq> owner) (l_Backers (L owner))"

definition others_pledged :: "address \<Rightarrow> ledger \<Rightarrow> int" where
  "others_pledged owner L =
    vel_GetAllBalance (l_Backers (L owner)) - vel_GetBalance (l_Backers (L owner)) owner"

definition shared_reward :: "int \<Rightarrow> address \<Rightarrow> ledger \<Rightarrow> int" where
  "shared_reward sr owner L =
    sum_list (map (staker_reward sr (others_pledged owner L)) (other_backers owner L))"

text \<open>Specification of the round of DistributeRewardsToStakers for one validator.\<close>
definition L_distribute :: "int \<Rightarrow> address \<Rightarrow> ledger \<Rightarrow> ledger" where
  "L_distribute sr owner L =
    on_account owner (\<lambda>x. x\<lparr>l_Balance := l_Balance x - shared_reward sr owner L\<rparr>)
      (fold (L_reward_one sr (others_pledged owner L)) (other_backers owner L) L)"

lemma others_pledged_sum:
  assumes "vel_wf (l_Backers (L owner))"
  shows "others_pledged owner L = sum_list (map ve_Balance (other_backers owner L))"
proof -
  have "sum_list (map ve_Balance l) = sum_list (map ve_Balance (filter (\<lambda>st. ve_Addr st \<noteq> owner) l)) +
      sum_list (map ve_Balance (filter (\<lambda>st. ve_Addr st = owner) l))" for l
    by (induction l) auto
  from this [of "l_Backers (L owner)"] show ?thesis
    using vel_GetBalance_filter [OF assms, of owner]
    by (simp add: others_pledged_def other_backers_def vel_GetAllBalance_def sum_foldl)
qed

lemma backer_positive:
  assumes "pledges_ok L" "st \<in> set (l_Backers (L owner))"
  shows "0 < ve_Balance st"
proof -
  have "find (\<lambda>x. ve_Addr x = ve_Addr st) (l_Backers (L owner)) = Some st"
    using pledges_okD(4) [OF assms(1), of owner] assms(2) by (intro find_member) (simp_all add: vel_wf_def)
  moreover have "vel_IsExist (l_Backers (L owner)) (ve_Addr st)"
    using assms(2) by (auto simp: vel_IsExist_def list_ex_iff)
  ultimately show ?thesis
    using pledges_okD(2) [OF assms(1), of owner] by (auto simp: vel.solvent_def vel_GetBalance_def)
qed

text \<open>No division by zero: when there is someone to pay, the pledges to divide by are positive.\<close>
lemma others_pledged_positive:
  assumes "pledges_ok L" "st \<in> set (l_Backers (L owner))" "ve_Addr st \<noteq> owner"
  shows "0 < others_pledged owner L"
proof -
  have "\<forall>b \<in> set (map ve_Balance (other_backers owner L)). 0 \<le> b"
    using backer_positive [OF assms(1), of _ owner] by (auto simp: other_backers_def intro: less_imp_le)
  then have "ve_Balance st \<le> sum_list (map ve_Balance (other_backers owner L))"
    using assms(2,3) by (intro member_le_sum_list) (auto simp: other_backers_def)
  then show ?thesis
    using backer_positive [OF assms(1,2)] others_pledged_sum [of L owner] pledges_okD(4) [OF assms(1)] by simp
qed

lemma L_reward_one_fields [simp]:
  "l_Backers (fold (L_reward_one sr sb) sts L a) = l_Backers (L a)"
  "l_Stakes (fold (L_reward_one sr sb) sts L a) = l_Stakes (L a)"
  "l_Pledged (fold (L_reward_one sr sb) sts L a) = l_Pledged (L a)"
  "l_Coef (fold (L_reward_one sr sb) sts L a) = l_Coef (L a)"
  "l_Staker (fold (L_reward_one sr sb) sts L a) = l_Staker (L a)"
  by (induction sts arbitrary: L) (simp_all add: L_reward_one_def on_account_field [of l_Staker])

lemma L_distribute_keeps [simp]:
  "pledges_ok (L_distribute sr owner L) = pledges_ok L"
  "l_Staker (L_distribute sr owner L a) = l_Staker (L a)"
  "l_Pledged (L_distribute sr owner L a) = l_Pledged (L a)"
  "l_Coef (L_distribute sr owner L a) = l_Coef (L a)"
  "l_Backers (L_distribute sr owner L a) = l_Backers (L a)"
  by (simp_all add: L_distribute_def on_account_field [of l_Staker])
    (rule pledges_ok_cong; simp)

lemma distribute_validators_yields:
  assumes "pledges_ok (ledger_of s)"
  shows "yields (distribute_validators s sr owners) s (fold (L_distribute sr) owners)"
  using assms
proof (induction owners arbitrary: s)
  case (Cons owner owners)
  let ?s = "GetOrNewAccountStateObject s owner" and ?L = "ledger_of s"
  have s: "has_Worm ?s owner" "keeps s ?s" "ledger_of ?s = ?L" by simp_all
  let ?loop = "distribute_loop ?s owner sr (others_pledged owner ?L) (l_Backers (?L owner)) 0"
  have loop: "refines ?loop ?s (\<lambda>L. (shared_reward sr owner ?L,
      fold (L_reward_one sr (others_pledged owner ?L)) (other_backers owner ?L) L))"
    using distribute_loop_refines [of "l_Backers (?L owner)" owner "others_pledged owner ?L" ?s sr 0]
      others_pledged_positive [OF Cons.prems, of _ owner]
    by (simp add: shared_reward_def other_backers_def)
  then obtain s1 where s1: "?loop = Some (shared_reward sr owner ?L, s1)" "keeps ?s s1"
    "ledger_of s1 = fold (L_reward_one sr (others_pledged owner ?L)) (other_backers owner ?L) ?L"
    by (auto simp: refines_def)
  obtain s2 where s2: "so_SubBalance s1 owner (shared_reward sr owner ?L) = Some s2" "keeps s1 s2"
    "ledger_of s2 = L_distribute sr owner ?L"
    using so_SubBalance_yields [OF has_live(1) [OF keepsD(2) [OF s1(2) s(1)]], of "shared_reward sr owner ?L"]
    by (auto simp: yields_def s1(3) L_distribute_def)
  have "distribute_validators s sr (owner # owners) = distribute_validators s2 sr owners"
    using s1(1) s2(1) s(1,3) by (simp add: Let_def so_Worm_ledger others_pledged_def)
  moreover have "yields (distribute_validators s2 sr owners) s2 (fold (L_distribute sr) owners)"
    using Cons by (simp add: s2(3))
  ultimately show ?case
    using s2(3) keeps_trans [OF keeps_trans [OF keeps_trans [OF s(2) s1(2)] s2(2)]]
    by (auto simp: yields_def)
qed (simp add: yields_def id_def)

lemma sum_list_div_le:
  assumes "0 < (d::int)"
  shows "sum_list (map (\<lambda>x. f x div d) xs) * d \<le> sum_list (map f xs)"
proof (induction xs)
  case (Cons x xs)
  have "f x div d * d \<le> f x" using assms by (metis div_mult_mod_eq le_add_same_cancel1 pos_mod_sign)
  with Cons show ?case by (simp add: algebra_simps)
qed simp

text \<open>What a validator passes on is never negative and never more than the share.\<close>
lemma shared_reward_bounds:
  assumes "pledges_ok L" "0 \<le> sr"
  shows "0 \<le> shared_reward sr owner L" "shared_reward sr owner L \<le> sr"
proof -
  let ?sb = "others_pledged owner L" and ?bs = "other_backers owner L"
  have pos: "0 < ve_Balance st" "0 < ?sb" if "st \<in> set ?bs" for st
    using that backer_positive [OF assms(1)] others_pledged_positive [OF assms(1)]
    by (auto simp: other_backers_def)
  show "0 \<le> shared_reward sr owner L"
    unfolding shared_reward_def
    using pos assms(2) by (intro sum_list_nonneg) (auto simp: staker_reward_def pos_imp_zdiv_nonneg_iff less_imp_le)
  show "shared_reward sr owner L \<le> sr"
  proof (cases "?bs = []")
    case False
    then have sb: "0 < ?sb" using pos(2) hd_in_set by blast
    have "shared_reward sr owner L * ?sb \<le> sum_list (map (\<lambda>st. sr * ve_Balance st) ?bs)"
      using sum_list_div_le [OF sb, of "\<lambda>st. sr * ve_Balance st" ?bs]
      by (simp add: shared_reward_def staker_reward_def [abs_def])
    also have "\<dots> = sr * ?sb"
      using others_pledged_sum pledges_okD(4) [OF assms(1)] by (simp add: sum_list_const_mult)
    finally show ?thesis using sb by simp
  qed (simp add: shared_reward_def assms(2))
qed

lemma wealth_distribute:
  assumes "finite A" "owner \<in> A" "backers owner L \<subseteq> A"
  shows "wealth A (L_distribute sr owner L) = wealth A L"
proof -
  have "wealth A (fold (L_reward_one sr sb) sts L) = wealth A L + sum_list (map (staker_reward sr sb) sts)"
    if "ve_Addr ` set sts \<subseteq> A" for sb sts
    using that by (induction sts arbitrary: L) (simp_all add: L_reward_one_def wealth_on_account assms(1))
  moreover have "ve_Addr ` set (other_backers owner L) \<subseteq> A"
    using assms(3) by (auto simp: other_backers_def)
  ultimately show ?thesis
    using assms by (simp add: L_distribute_def wealth_on_account shared_reward_def)
qed

lemma wealth_distribute_all:
  assumes "finite A" "set owners \<subseteq> A" "\<forall>v \<in> set owners. backers v L \<subseteq> A"
  shows "wealth A (fold (L_distribute sr) owners L) = wealth A L"
  using assms(2,3)
proof (induction owners arbitrary: L)
  case (Cons v vs)
  then show ?case by (simp add: wealth_distribute assms(1))
qed simp

lemma staking_ok_distribute: "staking_ok (fold (L_distribute sr) owners L) = staking_ok L"
  by (induction owners arbitrary: L) (simp_all add: staking_ok_def credit_ok_def)

subsection \<open>Minting CSBTs\<close>

abbreviation official_mint :: "ledger \<Rightarrow> int option" where
  "official_mint L \<equiv> md_OfficialMint (as_Mint (l_Staker (L MintDeepStorageAddress)))"

text \<open>The CSBT with number \<open>m\<close> goes to \<open>awardee\<close>, who becomes its owner and creator.\<close>
definition L_mint :: "int \<Rightarrow> address \<Rightarrow> ledger \<Rightarrow> ledger" where
  "L_mint m awardee = on_account (BigToAddress m) (\<lambda>x. x\<lparr>l_Owner := awardee, l_Creator := awardee\<rparr>)"

abbreviation set_official_mint :: "int \<Rightarrow> ledger \<Rightarrow> ledger" where
  "set_official_mint m \<equiv> on_account MintDeepStorageAddress
    (l_Staker_update (as_Mint_update (md_OfficialMint_update (\<lambda>_. Some m))))"

fun L_mint_all :: "int \<Rightarrow> address list \<Rightarrow> ledger \<Rightarrow> ledger" where
  "L_mint_all m [] L = L"
| "L_mint_all m (a # as) L = L_mint_all (m + 1) as (set_official_mint (m + 1) (L_mint m a L))"

lemma official_mint_simps [simp]:
  "official_mint (L_mint m a L) = official_mint L"
  "official_mint (set_official_mint m L) = Some m"
  by (simp add: L_mint_def on_account_field [of l_Staker], simp add: on_account_def)

lemma mint_to_exchangers_yields:
  assumes "has_Staker s MintDeepStorageAddress" "official_mint (ledger_of s) = Some m"
  shows "yields (mint_to_exchangers s as) s (L_mint_all m as)"
  using assms
proof (induction as arbitrary: s m)
  case (Cons a as)
  let ?n = "BigToAddress m" let ?s = "GetOrNewNFTStateObject s ?n"
  have s: "has_Csbt ?s ?n" "keeps s ?s" "ledger_of ?s = ledger_of s" by simp_all
  obtain s1 where s1: "so_SetNFTInfo ?s ?n a a = Some s1" "keeps ?s s1" "ledger_of s1 = L_mint m a (ledger_of s)"
    using Csbt_setters(2) [OF s(1), of a a] by (auto simp: yields_def L_mint_def)
  have st: "has_Staker s1 MintDeepStorageAddress" using Cons.prems(1) s(2) s1(2) by (blast dest: keepsD)
  obtain s2 where s2: "so_AddOfficialMint s1 MintDeepStorageAddress 1 = Some s2" "keeps s1 s2"
    "ledger_of s2 = set_official_mint (m + 1) (L_mint m a (ledger_of s))"
    using so_AddOfficialMint_yields [OF st, of m 1] Cons.prems(2) s1(3) by (auto simp: yields_def)
  have "mint_to_exchangers s (a # as) = mint_to_exchangers s2 as"
    using s1(1) s2(1) Cons.prems by (simp add: so_Staker_ledger)
  moreover have "yields (mint_to_exchangers s2 as) s2 (L_mint_all (m + 1) as)"
    using Cons.IH [of s2 "m + 1"] st s2 by (auto dest: keepsD)
  ultimately show ?case
    using s2(3) keeps_trans [OF keeps_trans [OF keeps_trans [OF s(2) s1(2)] s2(2)]]
    by (auto simp: yields_def)
qed (simp add: yields_def)

lemma BigToAddress_inj: "\<lbrakk>0 \<le> m; m < 2 ^ 160; 0 \<le> n; n < 2 ^ 160; BigToAddress m = BigToAddress n\<rbrakk> \<Longrightarrow> m = n"
proof -
  assume a: "0 \<le> m" "m < 2 ^ 160" "0 \<le> n" "n < 2 ^ 160" "BigToAddress m = BigToAddress n"
  then have "uint (word_of_int m :: address) = uint (word_of_int n :: address)"
    by (simp add: BigToAddress_def)
  then show ?thesis using a by (simp add: uint_word_of_int)
qed

lemma L_mint_all_other:
  assumes "\<And>i. i < length as \<Longrightarrow> a \<noteq> BigToAddress (m + int i)"
  shows "l_Owner (L_mint_all m as L a) = l_Owner (L a)"
    and "l_Creator (L_mint_all m as L a) = l_Creator (L a)"
proof -
  have "l_Owner (L_mint_all m as L a) = l_Owner (L a) \<and> l_Creator (L_mint_all m as L a) = l_Creator (L a)"
    using assms
  proof (induction as arbitrary: m L)
    case (Cons x as)
    have "a \<noteq> BigToAddress (m + 1 + int i)" if "i < length as" for i
      using Cons.prems [of "Suc i"] that by (simp add: add.assoc)
    moreover have "a \<noteq> BigToAddress m" using Cons.prems [of 0] by simp
    ultimately show ?case using Cons.IH [of "m + 1"] by (auto simp: L_mint_def on_account_def)
  qed simp
  then show "l_Owner (L_mint_all m as L a) = l_Owner (L a)" "l_Creator (L_mint_all m as L a) = l_Creator (L a)"
    by simp_all
qed

text \<open>Each awardee becomes owner and creator of the CSBT with its number.\<close>
lemma L_mint_all_owner:
  assumes "0 \<le> m" "m + int (length as) \<le> 2 ^ 160" "i < length as"
  shows "l_Owner (L_mint_all m as L (BigToAddress (m + int i))) = as ! i"
    and "l_Creator (L_mint_all m as L (BigToAddress (m + int i))) = as ! i"
proof -
  have "l_Owner (L_mint_all m as L (BigToAddress (m + int i))) = as ! i \<and>
      l_Creator (L_mint_all m as L (BigToAddress (m + int i))) = as ! i"
    using assms
  proof (induction as arbitrary: m L i)
    case (Cons x as)
    show ?case
    proof (cases i)
      case 0
      let ?L = "set_official_mint (m + 1) (L_mint m x L)"
      have "BigToAddress m \<noteq> BigToAddress (m + 1 + int j)" if "j < length as" for j
        using BigToAddress_inj [of m "m + 1 + int j"] Cons.prems that by auto
      then have "l_Owner (L_mint_all (m + 1) as ?L (BigToAddress m)) = l_Owner (?L (BigToAddress m))"
        "l_Creator (L_mint_all (m + 1) as ?L (BigToAddress m)) = l_Creator (?L (BigToAddress m))"
        by (blast intro: L_mint_all_other)+
      then show ?thesis using 0 by (simp add: L_mint_def on_account_def)
    next
      case (Suc j)
      then show ?thesis
        using Cons.IH [of "m + 1" j] Cons.prems by (simp add: add.assoc)
    qed
  qed simp
  then show "l_Owner (L_mint_all m as L (BigToAddress (m + int i))) = as ! i"
    "l_Creator (L_mint_all m as L (BigToAddress (m + int i))) = as ! i" by simp_all
qed

lemma L_mint_all_fields [simp]:
  "l_Balance (L_mint_all m as L a) = l_Balance (L a)"
  "l_Pledged (L_mint_all m as L a) = l_Pledged (L a)"
  "l_Coef (L_mint_all m as L a) = l_Coef (L a)"
  "l_Stakes (L_mint_all m as L a) = l_Stakes (L a)"
  "l_Backers (L_mint_all m as L a) = l_Backers (L a)"
  "as_Validators (l_Staker (L_mint_all m as L a)) = as_Validators (l_Staker (L a))"
proof -
  show "as_Validators (l_Staker (L_mint_all m as L a)) = as_Validators (l_Staker (L a))"
    by (induction as arbitrary: m L)
      (simp_all add: L_mint_def on_account_field [of "\<lambda>x. as_Validators (l_Staker x)"])
qed (induction as arbitrary: m L; simp add: L_mint_def)+

lemma L_mint_all_counter: "official_mint L = Some m \<Longrightarrow> official_mint (L_mint_all m as L) = Some (m + int (length as))"
  by (induction as arbitrary: m L) simp_all

subsection \<open>Block rewards\<close>

abbreviation L_reward :: "int \<Rightarrow> address list \<Rightarrow> ledger \<Rightarrow> ledger" where
  "L_reward r \<equiv> fold (\<lambda>v. on_account v (\<lambda>x. x\<lparr>l_Balance := l_Balance x + r\<rparr>))"

lemma L_reward_fields [simp]:
  "l_Pledged (L_reward r vs L a) = l_Pledged (L a)" "l_Coef (L_reward r vs L a) = l_Coef (L a)"
  "l_Stakes (L_reward r vs L a) = l_Stakes (L a)" "l_Backers (L_reward r vs L a) = l_Backers (L a)"
  "l_Staker (L_reward r vs L a) = l_Staker (L a)" "l_Owner (L_reward r vs L a) = l_Owner (L a)"
  "l_Creator (L_reward r vs L a) = l_Creator (L a)"
  by (induction vs arbitrary: L) (simp_all add: on_account_field [of l_Staker])

lemma L_reward_Balance: "l_Balance (L_reward r vs L a) = l_Balance (L a) + r * int (count_list vs a)"
  by (induction vs arbitrary: L) (simp_all add: on_account_def algebra_simps)

lemma CreateNFTByOfficial16_yields:
  assumes "official_mint (ledger_of s) = Some m"
  shows "yields (db_CreateNFTByOfficial16 s vs es r) s (\<lambda>L. L_mint_all m es (L_reward r vs L))"
proof -
  obtain s1 where s1: "reward_validators s r vs = Some s1" "keeps s s1" "ledger_of s1 = L_reward r vs (ledger_of s)"
    using reward_validators_yields [of s r vs] by (auto simp: yields_def)
  let ?s = "GetOrNewStakerStateObject s1 MintDeepStorageAddress"
  have "yields (mint_to_exchangers ?s es) ?s (L_mint_all m es)"
    using s1(3) assms by (intro mint_to_exchangers_yields) simp_all
  then have "yields (mint_to_exchangers ?s es) s1 (L_mint_all m es)"
    by (rule yields_pre) simp_all
  with s1 show ?thesis
    by (auto simp: yields_def db_CreateNFTByOfficial16_def intro: keeps_trans)
qed

end
