(* ===== verification/Staking_Properties.thy ===== *)
theory Staking_Properties
  imports Staking_Rewards
begin

text \<open>
  What the staking operations of StateDB guarantee: they implement the ledger specification,
  withdrawals pay exactly what the penalty leaves, backers get their tokens back, block rewards
  are minted and shared without loss, and punished validators keep the minimal credit score.
\<close>

subsection \<open>A small ledger\<close>

text \<open>
  A consistent state for the witnesses: account 100 has 40000 ERB, account 200 is a validator
  that has pledged 50000 ERB to itself.
\<close>
definition sample_trie :: "address \<rightharpoonup> Account" where
  "sample_trie = [100 \<mapsto> Account_zero\<lparr>a_Balance := 40000 * baseErb\<rparr>,
    200 \<mapsto> Account_zero\<lparr>a_Worm := Some (WormholesExtension_zero\<lparr>
      we_PledgedBalance := Some (50000 * baseErb), we_Coefficient := 70,
      we_StakerExtension := [NewStakerPledge 200 (50000 * baseErb) 0],
      we_ValidatorExtension := [NewValidatorPledge 200 (50000 * baseErb) 0]\<rparr>)\<rparr>,
    ValidatorStorageAddress \<mapsto> Account_zero\<lparr>a_Staker := Some (AccountStaker_zero\<lparr>
      as_Validators := [NewValidator 200 (50000 * baseErb) 0]\<rparr>)\<rparr>]"

abbreviation sample_ledger :: ledger where
  "sample_ledger \<equiv> ledger_of (state_New sample_trie)"

lemma sample_ledger_fields:
  "l_Balance (sample_ledger a) = (if a = 100 then 40000 * baseErb else 0)"
  "l_Pledged (sample_ledger a) = (if a = 200 then 50000 * baseErb else 0)"
  "l_Coef (sample_ledger a) = (if a = 200 then 70 else 0)"
  "l_Stakes (sample_ledger a) = (if a = 200 then [NewStakerPledge 200 (50000 * baseErb) 0] else [])"
  "l_Backers (sample_ledger a) = (if a = 200 then [NewValidatorPledge 200 (50000 * baseErb) 0] else [])"
  "validators_in sample_ledger = [NewValidator 200 (50000 * baseErb) 0]"
  by (auto simp: ledger_of_def visible_def peek_def state_New_def sample_trie_def newObject_def account_of_def
    nil_defs Account_zero_def WormholesExtension_zero_def AccountStaker_zero_def ValidatorStorageAddress_def
    we_DeepCopy_def as_DeepCopy_def vl_DeepCopy_def NewValidator_def default_Staker_def)

lemma sample_staking_ok: "staking_ok sample_ledger"
proof -
  have "pledges_ok sample_ledger"
    unfolding pledges_ok_def sel.solvent_def vel.solvent_def
    by (simp add: sample_ledger_fields sel_defs vel_defs baseErb_def)
  then show ?thesis
    by (simp add: staking_ok_def credit_ok_def vl_listed_def vl_wf_def sample_ledger_fields
      ValidatorBase_def baseErb_def word_le_def)
qed

text \<open>
  A second one: account 100 has also pledged 400 ERB to the validator 200, whose credit score has
  dropped to 30.
\<close>
definition backed_trie :: "address \<rightharpoonup> Account" where
  "backed_trie = [100 \<mapsto> Account_zero\<lparr>a_Balance := 40000 * baseErb,
      a_Worm := Some (WormholesExtension_zero\<lparr>we_StakerExtension := [NewStakerPledge 200 (400 * baseErb) 0]\<rparr>)\<rparr>,
    200 \<mapsto> Account_zero\<lparr>a_Worm := Some (WormholesExtension_zero\<lparr>
      we_PledgedBalance := Some (50400 * baseErb), we_Coefficient := 30,
      we_StakerExtension := [NewStakerPledge 200 (50000 * baseErb) 0],
      we_ValidatorExtension := [NewValidatorPledge 200 (50000 * baseErb) 0, NewValidatorPledge 100 (400 * baseErb) 0]\<rparr>)\<rparr>,
    ValidatorStorageAddress \<mapsto> Account_zero\<lparr>a_Staker := Some (AccountStaker_zero\<lparr>
      as_Validators := [NewValidator 200 (50400 * baseErb) 0]\<rparr>)\<rparr>]"

abbreviation backed_ledger :: ledger where
  "backed_ledger \<equiv> ledger_of (state_New backed_trie)"

lemma backed_ledger_fields:
  "l_Balance (backed_ledger a) = (if a = 100 then 40000 * baseErb else 0)"
  "l_Pledged (backed_ledger a) = (if a = 200 then 50400 * baseErb else 0)"
  "l_Coef (backed_ledger a) = (if a = 200 then 30 else 0)"
  "l_Stakes (backed_ledger a) = (if a = 200 then [NewStakerPledge 200 (50000 * baseErb) 0]
    else if a = 100 then [NewStakerPledge 200 (400 * baseErb) 0] else [])"
  "l_Backers (backed_ledger a) = (if a = 200
    then [NewValidatorPledge 200 (50000 * baseErb) 0, NewValidatorPledge 100 (400 * baseErb) 0] else [])"
  "validators_in backed_ledger = [NewValidator 200 (50400 * baseErb) 0]"
  by (auto simp: ledger_of_def visible_def peek_def state_New_def backed_trie_def newObject_def account_of_def
    nil_defs Account_zero_def WormholesExtension_zero_def AccountStaker_zero_def ValidatorStorageAddress_def
    we_DeepCopy_def as_DeepCopy_def vl_DeepCopy_def NewValidator_def default_Staker_def)

lemma backed_staking_ok: "staking_ok backed_ledger"
proof -
  have "pledges_ok backed_ledger"
    unfolding pledges_ok_def sel.solvent_def vel.solvent_def
    by (simp add: backed_ledger_fields sel_defs vel_defs baseErb_def)
  then show ?thesis
    by (simp add: staking_ok_def credit_ok_def vl_listed_def vl_wf_def backed_ledger_fields
      ValidatorBase_def baseErb_def word_le_def)
qed

subsection \<open>The staking operations implement the ledger\<close>

text \<open>
  C3.  The staking operations of StateDB, which look up, create and initialise state objects,
  copy lists and write journal entries, do to the ledger exactly what their specifications say,
  and never panic: StakerPledge moves the amount from the balance of the sender to the pledges,
  ResetMinerBecome takes the account off the validator list and puts it back when its total
  reaches the threshold, RevocateAllStakers returns the pledges of all backers, and
  NewCancelStakerPledge pays back a pledge, with the penalty and the errors of the code.
\<close>
theorem staking_operations_refine:
  "(\<exists>s'. db_StakerPledge s frm address amount n wh = Some (Inr (), s') \<and>
     ledger_of s' = L_StakerPledge frm address amount n (proxy_of wh) (ledger_of s)) \<and>
   (\<exists>s'. db_ResetMinerBecome s address = Some (fst (L_ResetMinerBecome address (ledger_of s)), s') \<and>
     ledger_of s' = snd (L_ResetMinerBecome address (ledger_of s))) \<and>
   (\<exists>s'. db_RevocateAllStakers s address = Some s' \<and>
     ledger_of s' = L_RevocateAllStakers address (ledger_of s)) \<and>
   (\<exists>s'. db_NewCancelStakerPledge s frm address amount =
       Some (fst (L_NewCancelStakerPledge frm address amount (ledger_of s)), s') \<and>
     ledger_of s' = snd (L_NewCancelStakerPledge frm address amount (ledger_of s)))"
  using StakerPledge_refines [of s frm address amount n wh] ResetMinerBecome_refines [of s address]
    RevocateAllStakers_yields [of s address] NewCancelStakerPledge_refines [of s frm address amount]
  by (auto simp: refines_def yields_def)

subsection \<open>Withdrawals\<close>

lemma take_pledge_fields:
  "l_Balance (L_take_pledge frm v amount L b) = l_Balance (L b)"
  "l_Coef (L_take_pledge frm v amount L b) = l_Coef (L b)"
  "l_Pledged (L_take_pledge frm v amount L b) = l_Pledged (L b) - (if b = v then amount else 0)"
  "l_Backers (L_take_pledge frm v amount L b) =
    (if b = v then snd (vel_RemoveValidatorPledge (l_Backers (L b)) frm amount) else l_Backers (L b))"
  by (simp_all add: L_take_pledge_def Let_def)

lemma pay_back_fields:
  assumes "0 \<le> punishErb (l_Coef (L frm))"
  shows "l_Balance (L_pay_back frm amount L b) = l_Balance (L b) +
      (if b = frm then amount - punishErb (l_Coef (L frm)) * coebaseErb else 0) +
      (if b = empty_address then punishErb (l_Coef (L frm)) * coebaseErb else 0)"
    and "l_Coef (L_pay_back frm amount L b) = (if b = frm \<and> 0 < punishErb (l_Coef (L frm)) then 70 else l_Coef (L b))"
    and "l_Pledged (L_pay_back frm amount L b) = l_Pledged (L b)"
  using assms by (auto simp: L_pay_back_def Let_def on_account_def VALIDATOR_COEFFICIENT_def)

text \<open>What a validator that withdraws its whole pledge leaves behind.\<close>
lemma withdraw_all:
  assumes "pledges_ok L" "amount = sel_GetBalance (l_Stakes (L v)) v"
  defines "M \<equiv> L_RevocateAllStakers v (L_take_pledge v v amount (L_pay_back v amount L))"
  shows "l_Balance (M b) = l_Balance (L_pay_back v amount L b) + (if b \<noteq> v then sel_GetBalance (l_Stakes (L b)) v else 0)"
    and "l_Pledged (M b) = (if b = v then 0 else l_Pledged (L_pay_back v amount L b))"
    and "l_Coef (M b) = l_Coef (L_pay_back v amount L b)"
proof -
  note ok = pledges_okD [OF assms(1)]
  have "0 \<le> amount" using sel.solvent_nonneg [OF ok(1)] assms(2) by simp
  then have "pledges_ok (L_take_pledge v v amount (L_pay_back v amount L))"
    using assms(1,2) by (intro pledges_ok_take_pledge) simp_all
  note paid = RevocateAllStakers_returns(1,2) [OF this, of v b]
  have own: "vel_GetBalance (l_Backers (L v)) v = amount" using ok(6) [of v v] assms(2) by simp
  then have "vel_GetBalance (snd (vel_RemoveValidatorPledge (l_Backers (L v)) v amount)) b =
      (if b \<noteq> v then sel_GetBalance (l_Stakes (L b)) v else 0)"
    using vel.get_absent [of "l_Backers (L v)" v] by (auto simp: vel.get_remove [OF ok(4)] ok(6))
  then show "l_Balance (M b) = l_Balance (L_pay_back v amount L b) + (if b \<noteq> v then sel_GetBalance (l_Stakes (L b)) v else 0)"
    "l_Pledged (M b) = (if b = v then 0 else l_Pledged (L_pay_back v amount L b))"
    unfolding M_def by (simp_all add: paid take_pledge_fields)
  show "l_Coef (M b) = l_Coef (L_pay_back v amount L b)"
    unfolding M_def by (simp add: L_RevocateAllStakers_def take_pledge_fields)
qed

text \<open>
  C11.  NewCancelStakerPledge never panics, and its payments are exact.  A validator that withdraws
  from its own pledge pays a penalty of 0.1 ERB for every point that its credit score is below
  70, at most 6.9 ERB and nothing for the score 0, which goes to the zero address; its score is
  then 70 again.  If the amount does not cover the penalty, the withdrawal fails and nothing
  changes.  Withdrawing from another validator is free.  Otherwise the account gets the amount
  without the penalty, and the total of the validator drops by the amount.  A validator that
  withdraws all of its own pledge leaves nothing pledged to it, and every other backer gets back
  exactly what it had pledged.  Nobody else's balance, total or score changes.
\<close>
theorem NewCancelStakerPledge_pays:
  assumes "staking_ok (ledger_of s)"
  shows "\<exists>r s'. db_NewCancelStakerPledge s frm v amount = Some (r, s') \<and>
    (let L = ledger_of s; L' = ledger_of s'; score = l_Coef (L v);
         penalty = (if frm = v \<and> score \<noteq> 0 then (70 - uint score) * 10 ^ 17 else 0);
         leaves = (frm = v \<and> amount = sel_GetBalance (l_Stakes (L v)) v)
     in 0 \<le> penalty \<and> penalty \<le> 69 * 10 ^ 17 \<and>
       (if 0 < penalty \<and> amount < penalty
        then r = Inl ''cancel pledge for insufficient punish amount'' \<and> L' = L
        else r = Inr () \<and> (\<forall>b.
          l_Balance (L' b) = l_Balance (L b) + (if b = frm then amount - penalty else 0) +
            (if b = empty_address then penalty else 0) +
            (if leaves \<and> b \<noteq> v then sel_GetBalance (l_Stakes (L b)) v else 0) \<and>
          l_Pledged (L' b) = (if b \<noteq> v then l_Pledged (L b) else if leaves then 0 else l_Pledged (L b) - amount) \<and>
          l_Coef (L' b) = (if b = frm \<and> 0 < penalty then 70 else l_Coef (L b)))))"
proof -
  let ?L = "ledger_of s" let ?c = "l_Coef (?L v)"
  have ok: "pledges_ok ?L" "?c \<le> 70" using assms by (simp_all add: staking_ok_def credit_ok_def)
  have punish: "punishErb ?c = (if ?c \<noteq> 0 then 70 - uint ?c else 0)" by (simp add: punishErb_def)
  note bounds = punishErb_bounds(1,2) [OF ok(2)]
  obtain r s' where s': "db_NewCancelStakerPledge s frm v amount = Some (r, s')"
    "(r, ledger_of s') = L_NewCancelStakerPledge frm v amount ?L"
    using NewCancelStakerPledge_refines [of s frm v amount] by (auto simp: refines_def)
  show ?thesis
  proof (cases "frm = v")
    case True
    let ?p = "punishErb ?c * 10 ^ 17"
    have p: "?p = (if frm = v \<and> ?c \<noteq> 0 then (70 - uint ?c) * 10 ^ 17 else 0)" "0 \<le> ?p" "?p \<le> 69 * 10 ^ 17"
      using True punish bounds by simp_all
    show ?thesis
      using s' True bounds
      unfolding p(1) [symmetric] Let_def
      by (intro exI [of _ r] exI [of _ s'])
        (auto simp: p NewCancel_cases coebaseErb_def withdraw_all [OF ok(1)] pay_back_fields take_pledge_fields split: if_splits)
  next
    case False
    then show ?thesis
      using s' by (intro exI [of _ r] exI [of _ s']) (auto simp: NewCancel_cases take_pledge_fields on_account_def)
  qed
qed

theorem NewCancelStakerPledge_pays_witness:
  "\<exists>s'. db_NewCancelStakerPledge (state_New backed_trie) 200 200 (50000 * baseErb) = Some (Inr (), s') \<and>
    l_Balance (ledger_of s' 200) = 49996 * baseErb \<and> l_Balance (ledger_of s' empty_address) = 4 * baseErb \<and>
    l_Balance (ledger_of s' 100) = 40400 * baseErb \<and> l_Pledged (ledger_of s' 200) = 0 \<and> l_Coef (ledger_of s' 200) = 70"
  using NewCancelStakerPledge_pays [OF backed_staking_ok, of 200 200 "50000 * baseErb"]
  by (auto simp: backed_ledger_fields sel_GetBalance_def NewStakerPledge_def baseErb_def Let_def)

text \<open>
  C12.  When a validator leaves, RevocateAllStakers pays every backer exactly what it had pledged,
  leaves nothing pledged to the validator and no backer in its list, and takes it off the
  validator list.
\<close>
theorem RevocateAllStakers_pays_back:
  assumes "staking_ok (ledger_of s)"
  shows "\<exists>s'. db_RevocateAllStakers s v = Some s' \<and>
    (\<forall>b. l_Balance (ledger_of s' b) = l_Balance (ledger_of s b) + sel_GetBalance (l_Stakes (ledger_of s b)) v) \<and>
    l_Pledged (ledger_of s' v) = 0 \<and> l_Backers (ledger_of s' v) = [] \<and>
    v \<notin> v_Addr ` set (validators_in (ledger_of s'))"
proof -
  have ok: "pledges_ok (ledger_of s)" "listed_ok {} (ledger_of s)" using assms by (simp_all add: staking_ok_def)
  obtain s' where s': "db_RevocateAllStakers s v = Some s'" "ledger_of s' = L_RevocateAllStakers v (ledger_of s)"
    using RevocateAllStakers_yields [of s v] by (auto simp: yields_def)
  have "v \<notin> v_Addr ` set (validators_in (L_RevocateAllStakers v (ledger_of s)))"
    using listed_ok_RevocateAllStakers [OF ok(2), of v] RevocateAllStakers_returns(2) [OF ok(1), of v v]
    by (fastforce simp: vl_listed_def ValidatorBase_def baseErb_def)
  with s' show ?thesis
    using RevocateAllStakers_returns [OF ok(1), of v] pledges_okD(6) [OF ok(1), of _ v] by simp
qed

theorem RevocateAllStakers_pays_back_witness:
  "\<exists>s'. db_RevocateAllStakers (state_New sample_trie) 200 = Some s' \<and>
    (\<forall>b. l_Balance (ledger_of s' b) = l_Balance (sample_ledger b) + sel_GetBalance (l_Stakes (sample_ledger b)) 200) \<and>
    l_Pledged (ledger_of s' 200) = 0 \<and> l_Backers (ledger_of s' 200) = [] \<and>
    200 \<notin> v_Addr ` set (validators_in (ledger_of s'))"
  by (rule RevocateAllStakers_pays_back [OF sample_staking_ok])

subsection \<open>Block rewards\<close>

text \<open>
  C8.  CreateNFTByOfficial16 never panics once the mint counter is set: every validator gets the
  reward as often as it is listed, the exchangers become owners and creators of consecutively
  numbered CSBTs that start at the counter, and the counter moves past them.
\<close>
theorem CreateNFTByOfficial16_mints:
  assumes "official_mint (ledger_of s) = Some m" "0 \<le> m" "m + int (length es) \<le> 2 ^ 160"
  shows "\<exists>s'. db_CreateNFTByOfficial16 s vs es r = Some s' \<and>
    (\<forall>a. l_Balance (ledger_of s' a) = l_Balance (ledger_of s a) + r * int (count_list vs a)) \<and>
    (\<forall>i < length es. l_Owner (ledger_of s' (BigToAddress (m + int i))) = es ! i \<and>
      l_Creator (ledger_of s' (BigToAddress (m + int i))) = es ! i) \<and>
    official_mint (ledger_of s') = Some (m + int (length es))"
proof -
  obtain s' where "db_CreateNFTByOfficial16 s vs es r = Some s'"
    "ledger_of s' = L_mint_all m es (L_reward r vs (ledger_of s))"
    using CreateNFTByOfficial16_yields [OF assms(1), of vs es r] by (auto simp: yields_def)
  then show ?thesis
    using assms(1) L_mint_all_owner [OF assms(2,3)] by (simp add: L_reward_Balance L_mint_all_counter)
qed

theorem CreateNFTByOfficial16_mints_witness:
  "\<exists>s'. db_CreateNFTByOfficial16 (state_New sample_trie) [200, 200] [100, 300] 5 = Some s' \<and>
    (\<forall>a. l_Balance (ledger_of s' a) = l_Balance (sample_ledger a) + 5 * int (count_list [200, 200] a)) \<and>
    (\<forall>i < length [100, 300 :: address]. l_Owner (ledger_of s' (BigToAddress (0x8000000000000000000000000000000000000000 + int i))) = [100, 300] ! i \<and>
      l_Creator (ledger_of s' (BigToAddress (0x8000000000000000000000000000000000000000 + int i))) = [100, 300] ! i) \<and>
    official_mint (ledger_of s') = Some (0x8000000000000000000000000000000000000000 + int (length [100, 300 :: address]))"
  by (rule CreateNFTByOfficial16_mints)
    (simp_all add: ledger_of_def visible_def peek_def state_New_def sample_trie_def account_of_def
      MintDeepStorageAddress_def ValidatorStorageAddress_def newObject_def Account_zero_def nil_defs
      default_Staker_def maskB_def)

lemma L_distribute_Balance:
  assumes "pledges_ok L" "0 \<le> sr"
  shows "l_Balance (L a) - (if a = owner then sr else 0) \<le> l_Balance (L_distribute sr owner L a)"
proof -
  have "l_Balance (M a) \<le> l_Balance (fold (L_reward_one sr (others_pledged owner L)) sts M a)"
    if "set sts \<subseteq> set (other_backers owner L)" for sts M
    using that
  proof (induction sts arbitrary: M)
    case (Cons st sts)
    then have st: "st \<in> set (l_Backers (L owner))" "ve_Addr st \<noteq> owner" by (auto simp: other_backers_def)
    have "0 \<le> staker_reward sr (others_pledged owner L) st"
      using backer_positive [OF assms(1) st(1)] others_pledged_positive [OF assms(1) st] assms(2)
      by (simp add: staker_reward_def pos_imp_zdiv_nonneg_iff)
    then have "l_Balance (M a) \<le> l_Balance (L_reward_one sr (others_pledged owner L) st M a)"
      by (simp add: L_reward_one_def on_account_def)
    then show ?case using Cons by (fastforce intro: order_trans)
  qed simp
  from this [of "other_backers owner L" L] show ?thesis
    using shared_reward_bounds [OF assms, of owner] by (auto simp: L_distribute_def on_account_def)
qed

lemma L_distribute_all_Balance:
  assumes "pledges_ok L" "0 \<le> sr" "distinct owners"
  shows "l_Balance (L a) - (if a \<in> set owners then sr else 0) \<le> l_Balance (fold (L_distribute sr) owners L a)"
  using assms(1,3)
proof (induction owners arbitrary: L)
  case (Cons v vs)
  have "l_Balance (L_distribute sr v L a) - (if a \<in> set vs then sr else 0) \<le>
      l_Balance (fold (L_distribute sr) vs (L_distribute sr v L) a)"
    using Cons by simp
  then show ?case
    using L_distribute_Balance [OF Cons.prems(1) assms(2), of a v] Cons.prems(2)
    by (cases "a = v"; cases "a \<in> set vs") simp_all
qed simp

text \<open>
  C7.  DistributeRewardsToStakers never divides by zero on a consistent ledger, keeps it
  consistent, and conserves tokens over any finite set of accounts with the validators and their
  backers.  No account loses anything, except that a validator may pass on up to 93 percent of
  the reward.
\<close>
theorem DistributeRewardsToStakers_conserves:
  assumes "staking_ok (ledger_of s)" "0 \<le> r" "distinct vs" "finite A" "set vs \<subseteq> A"
    "\<forall>v \<in> set vs. backers v (ledger_of s) \<subseteq> A"
  shows "\<exists>s'. db_DistributeRewardsToStakers s vs r = Some s' \<and> staking_ok (ledger_of s') \<and>
    wealth A (ledger_of s') = wealth A (ledger_of s) \<and>
    (\<forall>a. l_Balance (ledger_of s a) - (if a \<in> set vs then r * 93 div 100 else 0) \<le> l_Balance (ledger_of s' a))"
proof -
  let ?sr = "r * 93 div 100" and ?L = "ledger_of s"
  have ok: "pledges_ok ?L" using assms(1) by (simp add: staking_ok_def)
  obtain s' where "db_DistributeRewardsToStakers s vs r = Some s'" "ledger_of s' = fold (L_distribute ?sr) vs ?L"
    using distribute_validators_yields [OF ok, of ?sr vs]
    by (auto simp: yields_def db_DistributeRewardsToStakers_def PercentageValidatorReward_def)
  then show ?thesis
    using assms(1,2) staking_ok_distribute [of ?sr vs ?L] wealth_distribute_all [OF assms(4-6), of ?sr]
      L_distribute_all_Balance [OF ok _ assms(3), of ?sr] by simp
qed

theorem DistributeRewardsToStakers_conserves_witness:
  "\<exists>s'. db_DistributeRewardsToStakers (state_New backed_trie) [200, 100] 1000 = Some s' \<and> staking_ok (ledger_of s') \<and>
    wealth {100, 200} (ledger_of s') = wealth {100, 200} backed_ledger \<and>
    (\<forall>a. l_Balance (backed_ledger a) - (if a \<in> set [200, 100] then 1000 * 93 div 100 else 0) \<le> l_Balance (ledger_of s' a))"
  by (rule DistributeRewardsToStakers_conserves)
    (auto simp: backed_staking_ok backed_ledger_fields NewValidatorPledge_def)

subsection \<open>Punishment\<close>

lemma sub_coefficient_min: "c \<le> 70 \<Longrightarrow> sub_coefficient c 70 = 1"
  by (cases "c = 70") (auto simp: sub_coefficient_def Let_def)

abbreviation L_punish :: "address list \<Rightarrow> ledger \<Rightarrow> ledger" where
  "L_punish \<equiv> fold (\<lambda>v. on_account v (\<lambda>x. x\<lparr>l_Coef := sub_coefficient (l_Coef x) 70\<rparr>))"

lemma L_punish_Coef:
  assumes "credit_ok L"
  shows "l_Coef (L_punish vs L a) = (if a \<in> set vs then 1 else l_Coef (L a))"
  using assms
proof (induction vs arbitrary: L)
  case (Cons v vs)
  have "sub_coefficient (l_Coef (L v)) 70 = 1" using Cons.prems by (simp add: sub_coefficient_min credit_ok_def)
  moreover have "(1 :: uint8) \<le> 70" by (simp add: word_le_def)
  ultimately have "credit_ok (on_account v (\<lambda>x. x\<lparr>l_Coef := sub_coefficient (l_Coef x) 70\<rparr>) L)"
    using Cons.prems by (simp add: credit_ok_coef)
  then show ?case
    using \<open>sub_coefficient (l_Coef (L v)) 70 = 1\<close>
    unfolding fold_Cons comp_def Cons.IH [OF \<open>credit_ok (on_account _ _ _)\<close>] by (simp add: on_account_def)
qed simp

lemma L_punish_fields [simp]:
  "l_Balance (L_punish vs L a) = l_Balance (L a)" "l_Pledged (L_punish vs L a) = l_Pledged (L a)"
  by (induction vs arbitrary: L) simp_all

text \<open>
  C13.  PunishEvilValidators leaves every punished validator with the credit score 1, never 0 and
  never wrapped around, however often it is listed, and changes nobody else's score and no
  balance or pledge.
\<close>
theorem PunishEvilValidators_score:
  assumes "credit_ok (ledger_of s)"
  shows "\<exists>s'. db_PunishEvilValidators s evil = Some s' \<and> (\<forall>a.
    l_Coef (ledger_of s' a) = (if a \<in> set evil then 1 else l_Coef (ledger_of s a)) \<and>
    l_Balance (ledger_of s' a) = l_Balance (ledger_of s a) \<and> l_Pledged (ledger_of s' a) = l_Pledged (ledger_of s a))"
proof (cases "evil = []")
  case False
  then show ?thesis
    using punish_loop_yields [of s evil] L_punish_Coef [OF assms, of evil]
    by (auto simp: yields_def db_PunishEvilValidators_def DEFAULT_VALIDATOR_COEFFICIENT_def)
qed (simp add: db_PunishEvilValidators_def)

theorem PunishEvilValidators_score_witness:
  "\<exists>s'. db_PunishEvilValidators (state_New sample_trie) [200, 200] = Some s' \<and> (\<forall>a.
    l_Coef (ledger_of s' a) = (if a \<in> set [200, 200] then 1 else l_Coef (sample_ledger a)) \<and>
    l_Balance (ledger_of s' a) = l_Balance (sample_ledger a) \<and> l_Pledged (ledger_of s' a) = l_Pledged (sample_ledger a))"
  using sample_staking_ok by (intro PunishEvilValidators_score) (simp add: staking_ok_def)

end
