(* ===== verification/Hexutil.thy ===== *)
theory Hexutil
  imports Common_Bytes
begin

text \<open>
  common/hexutil/hexutil.go: hexadecimal text with the 0x prefix, for byte strings (Decode,
  Encode), 64-bit quantities (DecodeUint64, EncodeUint64) and quantities of at most 256 bits
  (DecodeBig, EncodeBig).  The functions of the standard library they call are modelled as used:
  hex.DecodeString with its errors, strconv.ParseUint and strconv.AppendUint in base 16,
  the verb \<^verbatim>\<open>%#x\<close> on a big integer and big.Int.SetBits on 64-bit words.
  The errors are the messages after mapError.
\<close>

subsection \<open>Byte strings\<close>

text \<open>hex.DecodeString: an invalid byte anywhere is reported before an odd length.\<close>
fun hex_decode :: "string \<Rightarrow> bytes result" where
  "hex_decode (p # q # src) =
    (case (fromHexChar p, fromHexChar q) of
       (Some a, Some b) \<Rightarrow>
         (case hex_decode src of Inl e \<Rightarrow> Inl e | Inr bs \<Rightarrow> Inr (word_of_nat (16 * a + b) # bs))
     | _ \<Rightarrow> Inl ''invalid hex string'')"
| "hex_decode [p] =
    (if fromHexChar p = None then Inl ''invalid hex string'' else Inl ''hex string of odd length'')"
| "hex_decode [] = Inr []"

definition hexutil_Decode :: "string \<Rightarrow> bytes result" where
  "hexutil_Decode input =
    (if length input = 0 then Inl ''empty hex string''
     else if \<not> has0xPrefix input then Inl ''hex string without 0x prefix''
     else hex_decode (drop 2 input))"

definition hexutil_Encode :: "bytes \<Rightarrow> string" where
  "hexutil_Encode b = ''0x'' @ hex_EncodeToString b"

subsection \<open>Quantities\<close>

definition checkNumber :: "string \<Rightarrow> string result" where
  "checkNumber input =
    (if length input = 0 then Inl ''empty hex string''
     else if \<not> has0xPrefix input then Inl ''hex string without 0x prefix''
     else let input = drop 2 input in
       if length input = 0 then Inl ''hex string \"0x\"''
       else if length input > 1 \<and> input ! 0 = CHR ''0'' then Inl ''hex number with leading zero digits''
       else Inr input)"

text \<open>The loop of strconv.ParseUint for base 16 and 64 bits; the cutoff is 2 ^ 60.\<close>
fun ParseUint_loop :: "string \<Rightarrow> uint64 \<Rightarrow> uint64 result" where
  "ParseUint_loop [] n = Inr n"
| "ParseUint_loop (c # cs) n =
    (case fromHexChar c of
       None \<Rightarrow> Inl ''invalid hex string''
     | Some d \<Rightarrow>
         if n \<ge> 0x1000000000000000 then Inl ''hex number > 64 bits''
         else let n = n * 16; n1 = n + word_of_nat d in
           if n1 < n then Inl ''hex number > 64 bits'' else ParseUint_loop cs n1)"

definition DecodeUint64 :: "string \<Rightarrow> uint64 result" where
  "DecodeUint64 input =
    (case checkNumber input of Inl e \<Rightarrow> Inl e | Inr raw \<Rightarrow> ParseUint_loop raw 0)"

text \<open>The digits of a number in base 16, without leading zeros.\<close>
fun hex_digits :: "nat \<Rightarrow> string" where
  "hex_digits n = (if n < 16 then [hexDigits ! n] else hex_digits (n div 16) @ [hexDigits ! (n mod 16)])"

declare hex_digits.simps [simp del]

definition EncodeUint64 :: "uint64 \<Rightarrow> string" where
  "EncodeUint64 i = ''0x'' @ hex_digits (unat i)"

definition badNibble :: uint64 where
  "badNibble = -1"

definition decodeNibble :: "char \<Rightarrow> uint64" where
  "decodeNibble i = (let n = (of_char i :: nat) in
     if 48 \<le> n \<and> n \<le> 57 then word_of_nat (n - 48)
     else if 65 \<le> n \<and> n \<le> 70 then word_of_nat (n - 65 + 10)
     else if 97 \<le> n \<and> n \<le> 102 then word_of_nat (n - 97 + 10)
     else badNibble)"

text \<open>Words are 64 bits wide.\<close>
definition bigWordNibbles :: nat where
  "bigWordNibbles = 16"

text \<open>The inner loop of DecodeBig over the digits of one word; None for a bad digit.\<close>
fun nibble_loop :: "string \<Rightarrow> uint64 \<Rightarrow> uint64 option" where
  "nibble_loop [] w = Some w"
| "nibble_loop (c # cs) w =
    (let nib = decodeNibble c in
     if nib = badNibble then None else nibble_loop cs (w * 16 + nib))"

text \<open>The outer loop over \<open>k\<close> words, least significant first; \<open>e\<close> is the end of the digits left.\<close>
fun words_loop :: "nat \<Rightarrow> string \<Rightarrow> nat \<Rightarrow> uint64 list result" where
  "words_loop 0 raw e = Inr []"
| "words_loop (Suc k) raw e =
    (let start = e - bigWordNibbles in
     case nibble_loop (drop start (take e raw)) 0 of
       None \<Rightarrow> Inl ''invalid hex string''
     | Some w \<Rightarrow>
         (case words_loop k raw start of Inl err \<Rightarrow> Inl err | Inr ws \<Rightarrow> Inr (w # ws)))"

definition big_SetBits :: "uint64 list \<Rightarrow> int" where
  "big_SetBits ws = foldr (\<lambda>w acc. uint w + 2 ^ 64 * acc) ws 0"

definition DecodeBig :: "string \<Rightarrow> int result" where
  "DecodeBig input =
    (case checkNumber input of
       Inl e \<Rightarrow> Inl e
     | Inr raw \<Rightarrow>
         if length raw > 64 then Inl ''hex number > 256 bits''
         else case words_loop (length raw div bigWordNibbles + 1) raw (length raw) of
             Inl e \<Rightarrow> Inl e
           | Inr ws \<Rightarrow> Inr (big_SetBits ws))"

text \<open>\<^verbatim>\<open>fmt.Sprintf("%#x", bigint)\<close> puts the sign of a negative number in front.\<close>
definition EncodeBig :: "int \<Rightarrow> string" where
  "EncodeBig bigint =
    (if bigint = 0 then ''0x0''
     else (if bigint < 0 then ''-'' else '''') @ ''0x'' @ hex_digits (nat \<bar>bigint\<bar>))"

subsection \<open>The number a digit string denotes\<close>

definition hex_value :: "string \<Rightarrow> nat" where
  "hex_value cs = foldl (\<lambda>acc c. 16 * acc + the (fromHexChar c)) 0 cs"

abbreviation all_hex :: "string \<Rightarrow> bool" where
  "all_hex cs \<equiv> (\<forall>c \<in> set cs. fromHexChar c \<noteq> None)"

lemma fromHexChar_less: "fromHexChar c = Some d \<Longrightarrow> d < 16"
  by (auto simp: fromHexChar_def Let_def split: if_splits)

lemma hex_value_foldl:
  "foldl (\<lambda>acc c. 16 * acc + the (fromHexChar c)) n cs = n * 16 ^ length cs + hex_value cs"
proof (induction cs arbitrary: n)
  case (Cons c cs)
  show ?case
    using Cons [of "16 * n + the (fromHexChar c)"] Cons [of "the (fromHexChar c)"]
    by (simp add: hex_value_def algebra_simps)
qed (simp add: hex_value_def)

lemma hex_value_simps [simp]:
  "hex_value [] = 0"
  "hex_value (c # cs) = the (fromHexChar c) * 16 ^ length cs + hex_value cs"
  "hex_value (cs @ ds) = hex_value cs * 16 ^ length ds + hex_value ds"
proof -
  show "hex_value [] = 0" by (simp add: hex_value_def)
  show "hex_value (c # cs) = the (fromHexChar c) * 16 ^ length cs + hex_value cs"
    using hex_value_foldl [of "the (fromHexChar c)" cs] by (simp add: hex_value_def [of "c # cs"])
  show "hex_value (cs @ ds) = hex_value cs * 16 ^ length ds + hex_value ds"
    unfolding hex_value_def [of "cs @ ds"] foldl_append hex_value_def [of cs, symmetric]
    by (rule hex_value_foldl)
qed

lemma hex_value_less: "all_hex cs \<Longrightarrow> hex_value cs < 16 ^ length cs"
proof (induction cs)
  case (Cons c cs)
  then obtain d where d: "fromHexChar c = Some d" "d < 16" using fromHexChar_less by force
  have "d * 16 ^ length cs + hex_value cs < d * 16 ^ length cs + 16 ^ length cs"
    using Cons by simp
  also have "\<dots> = Suc d * 16 ^ length cs" by simp
  also have "\<dots> \<le> 16 * 16 ^ length cs" using d(2) by (intro mult_right_mono) auto
  finally show ?case by (simp add: d)
qed simp

lemma hex_digits_hex: "all_hex (hex_digits n)"
proof (induction n rule: hex_digits.induct)
  case (1 n)
  then show ?case
    by (subst hex_digits.simps) (auto simp: fromHexChar_hexDigits)
qed

lemma hex_value_digits [simp]: "hex_value (hex_digits n) = n"
proof (induction n rule: hex_digits.induct)
  case (1 n)
  then show ?case
    by (subst hex_digits.simps) (auto simp: fromHexChar_hexDigits)
qed

lemma hex_digits_nonempty [simp]: "hex_digits n \<noteq> []"
  by (subst hex_digits.simps) simp

lemma hex_digits_length: "n < 16 ^ k \<Longrightarrow> 0 < k \<Longrightarrow> length (hex_digits n) \<le> k"
proof (induction n arbitrary: k rule: hex_digits.induct)
  case (1 n)
  show ?case
  proof (cases "n < 16")
    case False
    then have "1 < k" using 1(2,3) by (cases "k = 1") auto
    moreover have "n div 16 < 16 ^ (k - 1)"
      using 1(2,3) by (cases k) (auto simp: less_mult_imp_div_less mult.commute)
    ultimately have "length (hex_digits (n div 16)) \<le> k - 1"
      using 1(1) [OF False, of "k - 1"] by simp
    then show ?thesis using False \<open>1 < k\<close> by (subst hex_digits.simps) simp
  qed (use 1(3) in \<open>subst hex_digits.simps, simp\<close>)
qed

text \<open>The most significant digit is not zero.\<close>
lemma hex_digits_leading: "length (hex_digits n) > 1 \<Longrightarrow> hex_digits n ! 0 \<noteq> CHR ''0''"
proof (induction n rule: hex_digits.induct)
  case (1 n)
  have nz: "hexDigits ! m \<noteq> CHR ''0''" if "0 < m" "m < 16" for m
    using fromHexChar_hexDigits [OF that(2)] that(1) by (auto simp: fromHexChar_def Let_def)
  show ?case
  proof (cases "n < 16")
    case True
    then show ?thesis using 1(2) by (simp add: hex_digits.simps)
  next
    case False
    then have n: "hex_digits n = hex_digits (n div 16) @ [hexDigits ! (n mod 16)]"
      by (simp add: hex_digits.simps [of n])
    show ?thesis
    proof (cases "n div 16 < 16")
      case True
      then show ?thesis using False nz [of "n div 16"] by (simp add: n hex_digits.simps [of "n div 16"])
    next
      case big: False
      then have "length (hex_digits (n div 16)) > 1" by (subst hex_digits.simps) (simp add: Suc_lessI)
      then show ?thesis using 1(1) [OF False] by (simp add: n nth_append)
    qed
  qed
qed

subsection \<open>Decoding digit strings\<close>

lemma checkNumber_digits: "checkNumber (''0x'' @ hex_digits n) = Inr (hex_digits n)"
  using hex_digits_leading [of n] by (auto simp: checkNumber_def has0xPrefix_def Let_def)

lemma ParseUint_loop_value:
  assumes "all_hex cs" "unat n * 16 ^ length cs + hex_value cs < 2 ^ 64"
  shows "ParseUint_loop cs n = Inr (word_of_nat (unat n * 16 ^ length cs + hex_value cs))"
  using assms
proof (induction cs arbitrary: n)
  case (Cons c cs)
  then obtain d where d: "fromHexChar c = Some d" "d < 16" using fromHexChar_less by force
  let ?m = "unat n * 16 + d"
  have eq: "?m * 16 ^ length cs + hex_value cs = unat n * 16 ^ length (c # cs) + hex_value (c # cs)"
    by (simp add: d(1) algebra_simps)
  have "?m \<le> ?m * 16 ^ length cs + hex_value cs" by (simp add: trans_le_add1)
  also have "\<dots> < 2 ^ 64" using Cons.prems(2) eq by simp
  finally have m: "?m < 2 ^ 64" .
  then have n: "unat n < 0x1000000000000000" by simp
  have u16: "unat (n * 16) = unat n * 16" using m by (simp add: unat_mult_lem [THEN iffD1])
  have ud: "unat (word_of_nat d :: uint64) = d" using d(2) by (simp add: unat_of_nat)
  have u: "unat (n * 16 + word_of_nat d) = ?m"
    using m by (subst unat_add_lem [THEN iffD1]) (simp_all add: u16 ud)
  have "\<not> n * 16 + word_of_nat d < n * 16" by (simp add: word_less_nat_alt u u16)
  moreover have "\<not> n \<ge> 0x1000000000000000" using n by (simp add: word_le_nat_alt)
  moreover have "ParseUint_loop cs (n * 16 + word_of_nat d) = Inr (word_of_nat (?m * 16 ^ length cs + hex_value cs))"
    using Cons.IH [of "n * 16 + word_of_nat d"] Cons.prems by (simp add: u eq del: hex_value_simps)
  ultimately show ?case
    unfolding eq by (simp add: d(1) Let_def del: hex_value_simps)
qed simp

lemma decodeNibble_hex:
  "decodeNibble c = (case fromHexChar c of Some d \<Rightarrow> word_of_nat d | None \<Rightarrow> badNibble)"
  by (auto simp: decodeNibble_def fromHexChar_def Let_def)

lemma nibble_not_bad: "d < 16 \<Longrightarrow> (word_of_nat d :: uint64) \<noteq> badNibble"
proof
  assume "d < 16" "(word_of_nat d :: uint64) = badNibble"
  then have "unat (word_of_nat d :: uint64) = unat badNibble" by simp
  then show False using \<open>d < 16\<close> by (simp add: badNibble_def unat_of_nat unsigned_minus_1_eq_mask mask_eq_exp_minus_1)
qed

lemma nibble_loop_value:
  "nibble_loop cs w = (if all_hex cs then Some (w * 16 ^ length cs + word_of_nat (hex_value cs)) else None)"
proof (induction cs arbitrary: w)
  case (Cons c cs)
  show ?case
  proof (cases "fromHexChar c")
    case (Some d)
    then have "d < 16" by (rule fromHexChar_less)
    then show ?thesis
      using Cons [of "w * 16 + word_of_nat d"] Some
      by (simp add: decodeNibble_hex nibble_not_bad Let_def algebra_simps)
  qed (simp add: decodeNibble_hex Let_def)
qed simp

text \<open>Splitting the digits into words of sixteen digits does not change the number.\<close>
lemma words_loop_value:
  assumes "e \<le> length raw" "e \<le> 16 * k"
  shows "\<not> all_hex (take e raw) \<Longrightarrow> words_loop k raw e = Inl ''invalid hex string''"
    and "all_hex (take e raw) \<Longrightarrow> \<exists>ws. words_loop k raw e = Inr ws \<and> big_SetBits ws = int (hex_value (take e raw))"
proof -
  have "if all_hex (take e raw)
    then \<exists>ws. words_loop k raw e = Inr ws \<and> big_SetBits ws = int (hex_value (take e raw))
    else words_loop k raw e = Inl ''invalid hex string''"
    using assms
  proof (induction k arbitrary: e)
    case (Suc k)
    let ?s = "e - 16" let ?d = "drop ?s (take e raw)"
    have split: "take e raw = take ?s raw @ ?d"
      by (metis append_take_drop_id diff_le_self min.absorb2 take_take min.commute)
    have all: "all_hex (take e raw) \<longleftrightarrow> all_hex (take ?s raw) \<and> all_hex ?d"
      by (subst split) (simp add: ball_Un)
    have len: "length ?d \<le> 16" using Suc.prems by simp
    have IH: "if all_hex (take ?s raw)
      then \<exists>ws. words_loop k raw ?s = Inr ws \<and> big_SetBits ws = int (hex_value (take ?s raw))
      else words_loop k raw ?s = Inl ''invalid hex string''"
      using Suc.prems by (intro Suc.IH) auto
    have val: "uint (word_of_nat (hex_value ?d) :: uint64) + 2 ^ 64 * int (hex_value (take ?s raw)) =
        int (hex_value (take e raw))" if "all_hex ?d"
    proof -
      have "(16::nat) ^ length ?d \<le> 16 ^ 16" using len by (intro power_increasing) auto
      then have "hex_value ?d < 2 ^ 64" using hex_value_less [OF that] by simp
      then have "uint (word_of_nat (hex_value ?d) :: uint64) = int (hex_value ?d)"
        by (simp add: uint_nat unat_of_nat)
      moreover have "hex_value (take ?s raw) = 0 \<or> length ?d = 16"
        using Suc.prems by (cases "16 \<le> e") auto
      moreover have "hex_value (take e raw) = hex_value (take ?s raw) * 16 ^ length ?d + hex_value ?d"
        using hex_value_simps(3) [of "take ?s raw" ?d] split by simp
      ultimately show ?thesis by auto
    qed
    show ?case
    proof (cases "all_hex ?d")
      case True
      then show ?thesis
        using IH val all by (auto simp: nibble_loop_value bigWordNibbles_def Let_def big_SetBits_def)
    next
      case False
      then have "nibble_loop ?d 0 = None" by (simp add: nibble_loop_value)
      then show ?thesis using False all by (simp add: bigWordNibbles_def Let_def)
    qed
  qed (simp add: big_SetBits_def)
  then show "\<not> all_hex (take e raw) \<Longrightarrow> words_loop k raw e = Inl ''invalid hex string''"
    "all_hex (take e raw) \<Longrightarrow> \<exists>ws. words_loop k raw e = Inr ws \<and> big_SetBits ws = int (hex_value (take e raw))"
    by (auto split: if_splits)
qed

text \<open>
  C33.  DecodeBig, which assembles 64-bit words from the end of the text, computes the positional
  value of the digits: it accepts exactly the texts that pass checkNumber, have at most 64 digits
  and consist of hexadecimal digits, and reports the error of the first check that fails.
\<close>
theorem DecodeBig_value:
  "DecodeBig input = (case checkNumber input of
      Inl e \<Rightarrow> Inl e
    | Inr raw \<Rightarrow> if length raw > 64 then Inl ''hex number > 256 bits''
        else if list_all isHexCharacter raw then Inr (int (hex_value raw))
        else Inl ''invalid hex string'')"
proof (cases "checkNumber input")
  case (Inr raw)
  have e: "length raw \<le> 16 * (length raw div 16 + 1)" by simp
  have "list_all isHexCharacter raw = all_hex raw"
    by (simp add: isHexCharacter_iff list_all_iff)
  then show ?thesis
    using Inr words_loop_value [OF order_refl e]
    by (auto simp: DecodeBig_def bigWordNibbles_def)
qed (simp add: DecodeBig_def)

lemma hexutil_Decode_Encode: "hexutil_Decode (hexutil_Encode bs) = Inr bs"
proof -
  have "hex_decode (hex_EncodeToString bs) = Inr bs"
  proof (induction bs)
    case (Cons b bs)
    have "unat b div 16 < 16" by (rule byte_nibble)
    then show ?case using Cons by (simp add: hex_EncodeToString_def fromHexChar_hexDigits)
  qed (simp add: hex_EncodeToString_def)
  then show ?thesis by (simp add: hexutil_Decode_def hexutil_Encode_def has0xPrefix_def)
qed

lemma DecodeUint64_Encode: "DecodeUint64 (EncodeUint64 i) = Inr i"
proof -
  have "unat i < 2 ^ 64" using unsigned_less [of i, where ?'a = nat] by simp
  then show ?thesis
    using ParseUint_loop_value [OF hex_digits_hex, of 0 "unat i"]
    by (simp add: DecodeUint64_def EncodeUint64_def checkNumber_digits [unfolded append_Cons append_Nil])
qed

lemma DecodeBig_Encode:
  assumes "0 \<le> b" "b < 2 ^ 256"
  shows "DecodeBig (EncodeBig b) = Inr b"
proof -
  have enc: "EncodeBig b = ''0x'' @ hex_digits (nat b)"
    using assms(1) by (simp add: EncodeBig_def hex_digits.simps [of 0] hexDigits_def)
  have "nat b < 16 ^ 64" using assms by simp
  then have "length (hex_digits (nat b)) \<le> 64" by (rule hex_digits_length) simp
  moreover have "list_all isHexCharacter (hex_digits (nat b))"
    using hex_digits_hex by (simp add: list_all_iff isHexCharacter_iff)
  ultimately show ?thesis
    unfolding DecodeBig_value enc checkNumber_digits using assms by simp
qed

text \<open>
  C34.  Decoding inverts encoding: byte strings, 64-bit quantities and big integers of at most
  256 bits survive Encode followed by Decode.  EncodeBig keeps the sign of a negative number, and
  DecodeBig then refuses the text for want of the 0x prefix.
\<close>
theorem hexutil_roundtrip:
  "hexutil_Decode (hexutil_Encode bs) = Inr bs \<and> DecodeUint64 (EncodeUint64 i) = Inr i \<and>
    (0 \<le> b \<and> b < 2 ^ 256 \<longrightarrow> DecodeBig (EncodeBig b) = Inr b) \<and>
    (b < 0 \<longrightarrow> DecodeBig (EncodeBig b) = Inl ''hex string without 0x prefix'')"
proof -
  have "DecodeBig (EncodeBig b) = Inl ''hex string without 0x prefix''" if "b < 0"
    using that by (simp add: DecodeBig_def EncodeBig_def checkNumber_def has0xPrefix_def)
  then show ?thesis
    by (simp add: hexutil_Decode_Encode DecodeUint64_Encode DecodeBig_Encode)
qed

theorem hexutil_roundtrip_witness:
  "hexutil_Decode (hexutil_Encode [1, 255]) = Inr [1, 255] \<and> DecodeUint64 (EncodeUint64 300) = Inr 300 \<and>
    DecodeBig (EncodeBig 65536) = Inr 65536 \<and>
    DecodeBig (EncodeBig (- 5)) = Inl ''hex string without 0x prefix''"
  using hexutil_roundtrip [of "[1, 255]" 300 65536] hexutil_roundtrip [of "[1, 255]" 300 "- 5"] by simp

end
