(* ===== verification/Address_Text.thy ===== *)
theory Address_Text
  imports Common_Bytes
begin

text \<open>
  The printed form of an address (common/types.go: hex, checksumHex, Hex, String).  Parameter:
  \<open>keccak\<close> is the Keccak-256 hash.  Strings are byte strings.
\<close>

definition string_bytes :: "string \<Rightarrow> bytes" where
  "string_bytes s = map of_char s"

definition address_hex :: "address \<Rightarrow> string" where
  "address_hex a = ''0x'' @ hex_EncodeToString (address_bytes a)"

text \<open>
  EIP-55: a letter is printed in upper case when the corresponding nibble of the hash of the
  digits is at least 8.  Position \<open>i\<close> counts from the first digit.
\<close>
definition checksumHex :: "(bytes \<Rightarrow> bytes) \<Rightarrow> address \<Rightarrow> string" where
  "checksumHex keccak a =
    (let buf = address_hex a;
         hash = keccak (string_bytes (drop 2 buf)) in
     take 2 buf @ map (\<lambda>(i, c).
       let hashByte = hash ! (i div 2);
           hashByte = (if i mod 2 = 0 then drop_bit 4 hashByte else and hashByte 0xf) in
       if (of_char c :: nat) > 57 \<and> hashByte > 7 then char_of ((of_char c :: nat) - 32) else c)
       (enumerate 0 (drop 2 buf)))"

definition Hex :: "(bytes \<Rightarrow> bytes) \<Rightarrow> address \<Rightarrow> string" where
  "Hex keccak a = checksumHex keccak a"

subsection \<open>Reading a printed address\<close>

abbreviation same_digit :: "char \<Rightarrow> char \<Rightarrow> bool" where
  "same_digit c d \<equiv> fromHexChar c = fromHexChar d"

lemma DecodeString_same: "list_all2 same_digit cs ds \<Longrightarrow> hex_DecodeString cs = hex_DecodeString ds"
proof (induction cs arbitrary: ds rule: hex_DecodeString.induct)
  case (1 p q src)
  then obtain p' q' src' where "ds = p' # q' # src'" "same_digit p p'" "same_digit q q'"
    "list_all2 same_digit src src'"
    by (auto simp: list_all2_Cons1)
  with 1(1) show ?case by (auto split: option.split)
qed (auto simp: list_all2_Cons1)

lemma digit_upper:
  assumes "c \<in> set hexDigits" "(of_char c :: nat) > 57"
  shows "same_digit (char_of ((of_char c :: nat) - 32)) c"
proof -
  have "97 \<le> (of_char c :: nat) \<and> (of_char c :: nat) \<le> 102" using assms by (auto simp: hexDigits_def)
  then show ?thesis by (auto simp: fromHexChar_def Let_def)
qed

lemma Encode_digits: "set (hex_EncodeToString bs) \<subseteq> set hexDigits"
proof (induction bs)
  case (Cons b bs)
  have "unat b div 16 < length hexDigits" "unat b mod 16 < length hexDigits"
    using byte_nibble [of b] by (simp_all add: hexDigits_def)
  then have "hexDigits ! (unat b div 16) \<in> set hexDigits" "hexDigits ! (unat b mod 16) \<in> set hexDigits"
    by (blast intro: nth_mem)+
  with Cons show ?case by (simp add: hex_EncodeToString_def)
qed (simp add: hex_EncodeToString_def)

lemma Hex_digits:
  obtains ds where "Hex keccak a = ''0x'' @ ds" "list_all2 same_digit ds (Bytes2Hex (address_bytes a))"
proof -
  let ?bs = "hex_EncodeToString (address_bytes a)"
  define f where "f = (\<lambda>(i, c).
    let hashByte = keccak (string_bytes ?bs) ! (i div 2);
        hashByte = (if i mod 2 = 0 then drop_bit 4 hashByte else and hashByte 0xf) in
    if (of_char c :: nat) > 57 \<and> hashByte > 7 then char_of ((of_char c :: nat) - 32) else c)"
  have d: "drop 2 (address_hex a) = ?bs" "take 2 (address_hex a) = ''0x''" by (simp_all add: address_hex_def)
  have "Hex keccak a = ''0x'' @ map f (enumerate 0 ?bs)"
    unfolding Hex_def checksumHex_def f_def Let_def d ..
  moreover have "same_digit (f (i, ?bs ! i)) (?bs ! i)" if "i < length ?bs" for i
    using digit_upper [of "?bs ! i"] Encode_digits [of "address_bytes a"] nth_mem [OF that]
    by (auto simp: f_def Let_def)
  then have "list_all2 same_digit (map f (enumerate 0 ?bs)) (Bytes2Hex (address_bytes a))"
    by (simp add: list_all2_conv_all_nth Bytes2Hex_def nth_enumerate_eq)
  ultimately show ?thesis by (rule that)
qed

lemma HexToAddress_Hex: "HexToAddress (Hex keccak a) = a"
proof -
  obtain ds where ds: "Hex keccak a = ''0x'' @ ds" "list_all2 same_digit ds (Bytes2Hex (address_bytes a))"
    by (rule Hex_digits)
  then have "length ds = 40"
    using list_all2_lengthD [OF ds(2)] by (simp add: length_Bytes2Hex address_bytes_def)
  then have "FromHex (Hex keccak a) = Hex2Bytes ds" by (simp add: ds(1) FromHex_def has0xPrefix_def)
  also have "\<dots> = address_bytes a"
    using DecodeString_same [OF ds(2)] Hex2Bytes_Bytes2Hex [of "address_bytes a"] by (simp add: Hex2Bytes_def)
  finally show ?thesis by (simp add: HexToAddress_def)
qed

text \<open>Different addresses are printed differently.\<close>
lemma Hex_inj [simp]: "Hex keccak a = Hex keccak b \<longleftrightarrow> a = b"
  using HexToAddress_Hex by metis

end
