(* ===== verification/EVM_Context.thy ===== *)
theory EVM_Context
  imports Staking_Properties Hexutil Address_Text
begin

text \<open>
  The functions of core/evm.go that the block context hands to the virtual machine: value
  transfer, CSBT ownership, pledging with a proxy signature, the balance checks, and the recovery
  of a validator's credit score.

  Parameters: \<open>keccak\<close> is the Keccak-256 hash, \<open>sigToAddress\<close> is crypto.SigToPub followed by
  crypto.PubkeyToAddress.  Strings are byte strings.
\<close>

subsection \<open>Signed messages\<close>

text \<open>The decimal digits printed by the verb \<^verbatim>\<open>%d\<close>.\<close>
fun dec_digits :: "nat \<Rightarrow> string" where
  "dec_digits n = (if n < 10 then [''0123456789'' ! n] else dec_digits (n div 10) @ [''0123456789'' ! (n mod 10)])"

declare dec_digits.simps [simp del]

definition hashMsg :: "(bytes \<Rightarrow> bytes) \<Rightarrow> bytes \<Rightarrow> bytes" where
  "hashMsg keccak data =
    keccak (0x19 # string_bytes ''Ethereum Signed Message:'' @ 10 # string_bytes (dec_digits (length data)) @ data)"

definition RecoverAddress ::
    "(bytes \<Rightarrow> bytes) \<Rightarrow> (bytes \<Rightarrow> bytes \<Rightarrow> address result) \<Rightarrow> string \<Rightarrow> string \<Rightarrow> address result" where
  "RecoverAddress keccak sigToAddress msg sigStr =
    (if \<not> has0xPrefix sigStr then Inl ''signature must be started with 0x or 0X''
     else case hexutil_Decode sigStr of
       Inl err \<Rightarrow> Inl err
     | Inr sigData \<Rightarrow>
         if length sigData \<noteq> 65 then Inl ''signature must be 65 bytes long''
         else if sigData ! 64 \<noteq> 27 \<and> sigData ! 64 \<noteq> 28
         then Inl ''invalid Ethereum signature (V is not 27 or 28)''
         else sigToAddress (hashMsg keccak (string_bytes msg)) (sigData[64 := sigData ! 64 - 27]))"

subsection \<open>Transfers and CSBTs\<close>

definition CanTransfer :: "StateDB \<Rightarrow> address \<Rightarrow> int \<Rightarrow> bool \<times> StateDB" where
  "CanTransfer db addr amount = (case db_GetBalance db addr of (b, db) \<Rightarrow> (b \<ge> amount, db))"

definition Transfer :: "StateDB \<Rightarrow> address \<Rightarrow> address \<Rightarrow> int \<Rightarrow> StateDB option" where
  "Transfer db sender recipient amount = do {
     db \<leftarrow> db_SubBalance db sender amount;
     db_AddBalance db recipient amount
   }"

definition GetNftAddressAndLevel :: "string \<Rightarrow> (address \<times> nat) result" where
  "GetNftAddressAndLevel nftAddress =
    (if length nftAddress > 42 then Inl ''nft address is too long''
     else if has0xPrefix nftAddress
     then let level = 42 - length nftAddress in
       Inr (HexToAddress (nftAddress @ replicate level CHR ''0''), level)
     else Inl ''nft address is not to start with 0x'')"

definition VerifyCSBTOwner :: "StateDB \<Rightarrow> string \<Rightarrow> address \<Rightarrow> bool outcome" where
  "VerifyCSBTOwner db nftAddr owner =
    (case GetNftAddressAndLevel nftAddr of
       Inl err \<Rightarrow> Some (False, db)
     | Inr (address, _) \<Rightarrow> do {
         (returnOwner, db) \<leftarrow> db_GetNFTOwner16 db address;
         Some (returnOwner = owner, db)
       })"

definition TransferCSBT :: "StateDB \<Rightarrow> string \<Rightarrow> address \<Rightarrow> unit result outcome" where
  "TransferCSBT db nftAddr newOwner =
    (case GetNftAddressAndLevel nftAddr of
       Inl err \<Rightarrow> Some (Inl err, db)
     | Inr (address, _) \<Rightarrow> do {
         db \<leftarrow> db_ChangeNFTOwner db address newOwner;
         Some (Inr (), db)
       })"

subsection \<open>Pledging through the context\<close>

definition PledgeToken ::
    "(bytes \<Rightarrow> bytes) \<Rightarrow> (bytes \<Rightarrow> bytes \<Rightarrow> address result) \<Rightarrow> StateDB \<Rightarrow> address \<Rightarrow> int \<Rightarrow>
      Wormholes \<Rightarrow> int \<Rightarrow> unit result outcome" where
  "PledgeToken keccak sigToAddress db address amount wh blocknumber =
    (let proxy = w_ProxyAddress wh;
         ok = (if proxy \<noteq> [] \<and> proxy \<noteq> Hex keccak empty_address
           then case RecoverAddress keccak sigToAddress (proxy @ Hex keccak address) (w_ProxySign wh) of
                Inl err \<Rightarrow> False
              | Inr addr \<Rightarrow> proxy = Hex keccak addr
           else True) in
     if \<not> ok then Some (Inl ''recover proxy address error!'', db)
     else db_PledgeToken db address amount (HexToAddress proxy) blocknumber)"

text \<open>When the recovered address differs from the proxy, the nil error of the recovery is returned.\<close>
definition MinerConsign ::
    "(bytes \<Rightarrow> bytes) \<Rightarrow> (bytes \<Rightarrow> bytes \<Rightarrow> address result) \<Rightarrow> StateDB \<Rightarrow> address \<Rightarrow>
      Wormholes \<Rightarrow> unit result outcome" where
  "MinerConsign keccak sigToAddress db address wh =
    (case RecoverAddress keccak sigToAddress (w_ProxyAddress wh @ Hex keccak address) (w_ProxySign wh) of
       Inl err \<Rightarrow> Some (Inl err, db)
     | Inr addr \<Rightarrow>
         if w_ProxyAddress wh \<noteq> Hex keccak addr then Some (Inr (), db)
         else db_MinerConsign db address (HexToAddress (w_ProxyAddress wh)))"

definition IsExistOtherPledged :: "StateDB \<Rightarrow> address \<Rightarrow> bool outcome" where
  "IsExistOtherPledged db address = do {
     (pledgeBalance, db) \<leftarrow> db_GetPledgedBalance db address;
     (stakerBalance, db) \<leftarrow> db_GetStakerPledgedBalance db address address;
     Some (pledgeBalance \<noteq> 0 \<and> pledgeBalance \<noteq> stakerBalance, db)
   }"

definition VerifyPledgedBalance :: "StateDB \<Rightarrow> address \<Rightarrow> int \<Rightarrow> bool outcome" where
  "VerifyPledgedBalance db addr amount = do {
     (b, db) \<leftarrow> db_GetPledgedBalance db addr;
     Some (b \<ge> amount, db)
   }"

definition VerifyStakerPledgedBalance :: "StateDB \<Rightarrow> address \<Rightarrow> address \<Rightarrow> int \<Rightarrow> bool outcome" where
  "VerifyStakerPledgedBalance db frm addr amount = do {
     (b, db) \<leftarrow> db_GetStakerPledgedBalance db frm addr;
     Some (b \<ge> amount, db)
   }"

text \<open>A nil list would panic; the lookup has just created it.\<close>
definition IsExistStakerStorageAddress :: "StateDB \<Rightarrow> address \<Rightarrow> bool outcome" where
  "IsExistStakerStorageAddress db address = do {
     (pdcs, db) \<leftarrow> db_GetStakerStorageAddress db;
     pdcs \<leftarrow> pdcs;
     Some (sl_IsExist pdcs address, db)
   }"

definition VerifyCancelValidatorPledgedBalance :: "StateDB \<Rightarrow> address \<Rightarrow> int \<Rightarrow> bool outcome" where
  "VerifyCancelValidatorPledgedBalance db addr amount = do {
     (own, db) \<leftarrow> db_GetStakerPledged db addr addr;
     (pledged, db) \<leftarrow> db_GetPledgedBalance db addr;
     (own', db) \<leftarrow> db_GetStakerPledged db addr addr;
     Some (se_Balance own - amount \<ge> pledged - se_Balance own', db)
   }"

text \<open>The difference of two bytes wraps around; the constant is 70.\<close>
definition RecoverValidatorCoefficient :: "StateDB \<Rightarrow> address \<Rightarrow> unit result outcome" where
  "RecoverValidatorCoefficient db address = do {
     (balance, db) \<leftarrow> db_GetPledgedBalance db address;
     if balance \<le> 0 then Some (Inl ''not a validator'', db)
     else do {
       (coe, db) \<leftarrow> db_GetValidatorCoefficient db address;
       if coe = 0 then Some (Inl ''Get validator coefficient error'', db)
       else let needRecoverCoe = 70 - coe in
         if needRecoverCoe > 0
         then let recoverAmount = uint needRecoverCoe * 100000000000000000;
                  (b, db) = db_GetBalance db address in
           if b < recoverAmount then Some (Inl ''insufficient balance for transfer'', db)
           else do {
             db \<leftarrow> db_SubBalance db address recoverAmount;
             db \<leftarrow> db_AddBalance db empty_address recoverAmount;
             db \<leftarrow> db_AddValidatorCoefficient db address needRecoverCoe;
             Some (Inr (), db)
           }
         else Some (Inr (), db)
     }
   }"

text \<open>strings.HasPrefix and big.Int.SetString in base 16, which accepts a sign.\<close>
definition big_SetString16 :: "string \<Rightarrow> int option" where
  "big_SetString16 s =
    (let (neg, ds) = (case s of c # cs \<Rightarrow>
           if c = CHR ''-'' then (True, cs) else if c = CHR ''+'' then (False, cs) else (False, s) | [] \<Rightarrow> (False, [])) in
     if ds \<noteq> [] \<and> list_all isHexCharacter ds
     then Some (if neg then - int (hex_value ds) else int (hex_value ds)) else None)"

definition checkBlockNumber :: "string \<Rightarrow> int \<Rightarrow> unit result" where
  "checkBlockNumber wBlockNumber currentBlockNumber =
    (if \<not> has0xPrefix wBlockNumber then Inl ''blocknumber is not string of 0x!''
     else case big_SetString16 (drop 2 wBlockNumber) of
       None \<Rightarrow> Inl ''blocknumber is not string of 0x!''
     | Some blockNumber \<Rightarrow>
         if currentBlockNumber > blockNumber then Inl ''data is expired!'' else Inr ())"

end
