(* ===== verification/Snapshot_Revert.thy ===== *)
theory Snapshot_Revert
  imports Ledger
begin

text \<open>
  Snapshots (core/state/statedb.go: Snapshot, RevertToSnapshot, Finalise, the refund counter,
  Suicide, the access list of a transaction) and the undoing of journal entries (core/state/journal.go).
\<close>

subsection \<open>Undoing journal entries\<close>

text \<open>\<^verbatim>\<open>s.getStateObject(*ch.account).set...\<close>: a nil object panics.\<close>
definition on_object :: "StateDB \<Rightarrow> address \<Rightarrow> (stateObject \<Rightarrow> stateObject option) \<Rightarrow> StateDB option" where
  "on_object s a f =
    (case getStateObject s a of
       (None, s) \<Rightarrow> None
     | (Some ob, s) \<Rightarrow> do {
         ob' \<leftarrow> f ob;
         Some (s\<lparr>stateObjects := (stateObjects s)(a \<mapsto> ob')\<rparr>)
       })"

fun revert_entry :: "journalEntry \<Rightarrow> StateDB \<Rightarrow> StateDB option" where
  "revert_entry (createObjectChange a) s =
    Some (s\<lparr>stateObjects := (stateObjects s)(a := None),
      stateObjectsDirty := stateObjectsDirty s - {a}\<rparr>)"
| "revert_entry (resetObjectChange prev) s = Some (setStateObject s prev)"
| "revert_entry (suicideChange a prev prevbalance) s =
    (case getStateObject s a of
       (None, s) \<Rightarrow> Some s
     | (Some ob, s) \<Rightarrow> Some (s\<lparr>stateObjects := (stateObjects s)
         (a \<mapsto> setBalance prevbalance (ob\<lparr>so_suicided := prev\<rparr>))\<rparr>))"
| "revert_entry (touchChange a) s = Some s"
| "revert_entry (balanceChange a prev) s = on_object s a (\<lambda>ob. Some (setBalance prev ob))"
| "revert_entry (nonceChange a prev) s = on_object s a (\<lambda>ob. Some (setNonce prev ob))"
| "revert_entry (refundChange prev) s = Some (s\<lparr>refund := prev\<rparr>)"
| "revert_entry (nftOwnerChange a oldOwner) s =
    on_object s a (with_Csbt (\<lambda>c. c\<lparr>cs_Owner := oldOwner\<rparr>))"
| "revert_entry (nftInfoChange a oldOwner oldCreator) s =
    on_object s a (with_Csbt (\<lambda>c. c\<lparr>cs_Owner := oldOwner, cs_Creator := oldCreator\<rparr>))"
| "revert_entry (pledgedBalanceChange a prev) s =
    on_object s a (with_Worm (\<lambda>w. w\<lparr>we_PledgedBalance := Some prev\<rparr>))"
| "revert_entry (pledgedBlockNumberChange a prev) s =
    on_object s a (with_Worm (\<lambda>w. w\<lparr>we_PledgedBlockNumber := Some prev\<rparr>))"
| "revert_entry (coefficientChange a prev) s =
    on_object s a (with_Worm (\<lambda>w. w\<lparr>we_Coefficient := prev\<rparr>))"
| "revert_entry (extraChange a prev) s = on_object s a (\<lambda>ob. Some (setExtra (Some prev) ob))"
| "revert_entry (userMintChange a prev) s =
    on_object s a (with_Staker (\<lambda>st. st\<lparr>as_Mint := (as_Mint st)\<lparr>md_UserMint := Some prev\<rparr>\<rparr>))"
| "revert_entry (officialMintChange a prev) s =
    on_object s a (with_Staker (\<lambda>st. st\<lparr>as_Mint := (as_Mint st)\<lparr>md_OfficialMint := Some prev\<rparr>\<rparr>))"
| "revert_entry (validatorsChange a oldValidators) s =
    on_object s a (with_Staker (\<lambda>st. st\<lparr>as_Validators := oldValidators\<rparr>))"
| "revert_entry (stakersChange a oldStakers) s =
    on_object s a (with_Staker (\<lambda>st. st\<lparr>as_CSBTCreators := oldStakers\<rparr>))"
| "revert_entry (stakerExtensionChange a oldStakerExtension) s =
    on_object s a (with_Worm (\<lambda>w. w\<lparr>we_StakerExtension := oldStakerExtension\<rparr>))"
| "revert_entry (validatorExtensionChange a oldValidatorExtension) s =
    on_object s a (with_Worm (\<lambda>w. w\<lparr>we_ValidatorExtension := oldValidatorExtension\<rparr>))"
| "revert_entry (validatorProxyChange a oldValidatorProxy) s =
    on_object s a (with_Worm (\<lambda>w. w\<lparr>we_ValidatorProxy := oldValidatorProxy\<rparr>))"
| "revert_entry (accessListAddAccountChange a) s =
    Some (s\<lparr>db_accessList := DeleteAddress (db_accessList s) a\<rparr>)"
| "revert_entry (accessListAddSlotChange a slot) s =
    do { al \<leftarrow> DeleteSlot (db_accessList s) a slot; Some (s\<lparr>db_accessList := al\<rparr>) }"

text \<open>\<^verbatim>\<open>if j.dirties[*addr]--; j.dirties[*addr] == 0 { delete(j.dirties, *addr) }\<close>.\<close>
definition dirties_drop :: "(address \<rightharpoonup> int) \<Rightarrow> journalEntry \<Rightarrow> (address \<rightharpoonup> int)" where
  "dirties_drop d e =
    (case dirtied e of
       None \<Rightarrow> d
     | Some a \<Rightarrow> let d = dirties_add d a (-1) in if d a = Some 0 then d(a := None) else d)"

text \<open>The loop of journal.revert over the entries to undo, last entry first.\<close>
fun revert_loop :: "journalEntry list \<Rightarrow> StateDB \<Rightarrow> StateDB option" where
  "revert_loop [] s = Some s"
| "revert_loop (e # es) s = do {
     s \<leftarrow> revert_entry e s;
     let j = db_journal s;
     revert_loop es (s\<lparr>db_journal := j\<lparr>j_dirties := dirties_drop (j_dirties j) e\<rparr>\<rparr>)
   }"

definition j_revert :: "StateDB \<Rightarrow> nat \<Rightarrow> StateDB option" where
  "j_revert s snapshot = do {
     s \<leftarrow> revert_loop (rev (drop snapshot (j_entries (db_journal s)))) s;
     Some (s\<lparr>db_journal := (db_journal s)\<lparr>j_entries := take snapshot (j_entries (db_journal s))\<rparr>\<rparr>)
   }"

definition Snapshot :: "StateDB \<Rightarrow> nat \<times> StateDB" where
  "Snapshot s =
    (let id = nextRevisionId s in
     (id, s\<lparr>nextRevisionId := nextRevisionId s + 1,
       validRevisions := validRevisions s @
         [\<lparr>rev_id = id, rev_journalIndex = j_length (db_journal s)\<rparr>]\<rparr>))"

text \<open>An unknown revision panics.\<close>
definition RevertToSnapshot :: "StateDB \<Rightarrow> nat \<Rightarrow> StateDB option" where
  "RevertToSnapshot s revid =
    (let vr = validRevisions s;
         idx = sort_Search (length vr) (\<lambda>i. rev_id (vr ! i) \<ge> revid) in
     if idx = length vr then None
     else if rev_id (vr ! idx) \<noteq> revid then None
     else do {
       s \<leftarrow> j_revert s (rev_journalIndex (vr ! idx));
       Some (s\<lparr>validRevisions := take idx (validRevisions s)\<rparr>)
     })"

subsection \<open>The access list\<close>

definition AddAddressToAccessList :: "StateDB \<Rightarrow> address \<Rightarrow> StateDB" where
  "AddAddressToAccessList s addr =
    (let (added, al) = AddAddress (db_accessList s) addr; s = s\<lparr>db_accessList := al\<rparr> in
     if added then db_append s (accessListAddAccountChange addr) else s)"

definition AddSlotToAccessList :: "StateDB \<Rightarrow> address \<Rightarrow> hash \<Rightarrow> StateDB option" where
  "AddSlotToAccessList s addr slot =
    do {
      ((addrMod, slotMod), al) \<leftarrow> AddSlot (db_accessList s) addr slot;
      let s = s\<lparr>db_accessList := al\<rparr>;
      let s = (if addrMod then db_append s (accessListAddAccountChange addr) else s);
      Some (if slotMod then db_append s (accessListAddSlotChange addr slot) else s)
    }"

text \<open>The loops over the storage keys of an element and over the elements of the list.\<close>
primrec add_slots :: "address \<Rightarrow> hash list \<Rightarrow> StateDB \<Rightarrow> StateDB option" where
  "add_slots addr [] s = Some s"
| "add_slots addr (key # keys) s = do { s \<leftarrow> AddSlotToAccessList s addr key; add_slots addr keys s }"

primrec add_elements :: "(address \<times> hash list) list \<Rightarrow> StateDB \<Rightarrow> StateDB option" where
  "add_elements [] s = Some s"
| "add_elements (el # els) s = do {
     s \<leftarrow> add_slots (fst el) (snd el) (AddAddressToAccessList s (fst el));
     add_elements els s
   }"

definition PrepareAccessList ::
    "StateDB \<Rightarrow> address \<Rightarrow> address option \<Rightarrow> address list \<Rightarrow> (address \<times> hash list) list \<Rightarrow> StateDB option" where
  "PrepareAccessList s sender dst precompiles list =
    (let s = AddAddressToAccessList s sender;
         s = (case dst of None \<Rightarrow> s | Some d \<Rightarrow> AddAddressToAccessList s d);
         s = foldl AddAddressToAccessList s precompiles
     in add_elements list s)"

definition AddressInAccessList :: "StateDB \<Rightarrow> address \<Rightarrow> bool" where
  "AddressInAccessList s addr = ContainsAddress (db_accessList s) addr"

definition SlotInAccessList :: "StateDB \<Rightarrow> address \<Rightarrow> hash \<Rightarrow> (bool \<times> bool) option" where
  "SlotInAccessList s addr slot = al_Contains (db_accessList s) addr slot"

text \<open>At the start of a transaction; its hash and index only label the logs.\<close>
definition db_Prepare :: "StateDB \<Rightarrow> StateDB" where
  "db_Prepare s = s\<lparr>db_accessList := newAccessList\<rparr>"

subsection \<open>Refund counter, self-destruction, end of a transaction\<close>

definition AddRefund :: "StateDB \<Rightarrow> uint64 \<Rightarrow> StateDB" where
  "AddRefund s gas = (db_append s (refundChange (refund s)))\<lparr>refund := refund s + gas\<rparr>"

text \<open>A refund counter below zero panics.\<close>
definition SubRefund :: "StateDB \<Rightarrow> uint64 \<Rightarrow> StateDB option" where
  "SubRefund s gas =
    (let s = db_append s (refundChange (refund s)) in
     if gas > refund s then None else Some (s\<lparr>refund := refund s - gas\<rparr>))"

definition Suicide :: "StateDB \<Rightarrow> address \<Rightarrow> bool \<times> StateDB" where
  "Suicide s addr =
    (case getStateObject s addr of
       (None, s) \<Rightarrow> (False, s)
     | (Some ob, s) \<Rightarrow>
         (True, (db_append s (suicideChange addr (so_suicided ob) (a_Balance (so_data ob))))
           \<lparr>stateObjects := (stateObjects s)(addr \<mapsto> setBalance 0 (ob\<lparr>so_suicided := True\<rparr>))\<rparr>))"

definition clearJournalAndRefund :: "StateDB \<Rightarrow> StateDB" where
  "clearJournalAndRefund s =
    (let s = (if length (j_entries (db_journal s)) > 0 then s\<lparr>db_journal := newJournal, refund := 0\<rparr> else s)
     in s\<lparr>validRevisions := []\<rparr>)"

text \<open>
  Finalise marks the dirty objects that are to go, remembers the dirty addresses and clears the
  journal, the revisions and the refund counter.
\<close>
definition Finalise :: "bool \<Rightarrow> StateDB \<Rightarrow> StateDB" where
  "Finalise deleteEmptyObjects s =
    (let touched = dom (j_dirties (db_journal s)) \<inter> dom (stateObjects s) in
     clearJournalAndRefund (s\<lparr>stateObjects := (\<lambda>a. if a \<in> touched
         then map_option (\<lambda>obj. if so_suicided obj \<or> (deleteEmptyObjects \<and> so_empty obj)
           then obj\<lparr>so_deleted := True\<rparr> else obj) (stateObjects s a)
         else stateObjects s a),
       stateObjectsPending := stateObjectsPending s \<union> touched,
       stateObjectsDirty := stateObjectsDirty s \<union> touched\<rparr>))"

end
