(* ===== verification/Handle_CSBT.thy ===== *)
theory Handle_CSBT
  imports EVM_Context Snapshot_Revert
begin

text \<open>
  The transaction types that erbie adds to the virtual machine (core/vm/evm.go: HandleCSBT and
  the part of Call around it): transfer of a CSBT, withdrawal, pledging, cancelling a pledge and
  recovering the credit score.

  Every branch of HandleCSBT returns no data and the gas it was given, so the results are the
  error and the state.  Parameters of Call: \<open>unmarshal\<close> is json.Unmarshal into a Wormholes
  value, and \<open>run\<close> is what executing the precompiled contract or the code at the called address
  does (returned data, gas left, error, state; nothing for an account without code).
\<close>

subsection \<open>HandleCSBT\<close>

definition HandleCSBT ::
    "StateDB \<Rightarrow> address \<Rightarrow> address \<Rightarrow> Wormholes \<Rightarrow> int \<Rightarrow> int \<Rightarrow> unit result outcome" where
  "HandleCSBT db caller addr wormholes value blockNumber =
    (case CheckFormat wormholes of
       Inl formatErr \<Rightarrow> Some (Inl formatErr, db)
     | Inr _ \<Rightarrow>
       if w_Type wormholes = 1 then do {
         (own, db) \<leftarrow> VerifyCSBTOwner db (w_CSBTAddress wormholes) caller;
         if own then do {
           (exist, db) \<leftarrow> IsExistStakerStorageAddress db caller;
           if \<not> exist then Some (Inl ''not csbt creator'', db)
           else TransferCSBT db (w_CSBTAddress wormholes) addr
         }
         else Some (Inl ''not the owner of the csbt'', db)
       }
       else if w_Type wormholes = 2 then do {
         (own, db) \<leftarrow> VerifyCSBTOwner db (w_CSBTAddress wormholes) addr;
         if own then do {
           db \<leftarrow> Transfer db caller addr value;
           Some (Inr (), db)
         }
         else Some (Inl ''not the owner of the csbt'', db)
       }
       else if w_Type wormholes = 3 then do {
         (stakerpledged, db) \<leftarrow> db_GetStakerPledged db caller addr;
         if se_Balance stakerpledged < StakerBase \<and> value < StakerBase
         then Some (Inl ''not more than 700 ERB'', db)
         else let (can, db) = CanTransfer db caller value in
           if can then do {
             (err, db) \<leftarrow> db_StakerPledge db caller addr value blockNumber wormholes;
             case err of Inl e \<Rightarrow> Some (Inl e, db) | Inr _ \<Rightarrow> db_ResetMinerBecome db addr
           }
           else Some (Inl ''insufficient balance for transfer'', db)
       }
       else if w_Type wormholes = 4 then do {
         (stakerpledged, db) \<leftarrow> db_GetStakerPledged db caller addr;
         if se_Balance stakerpledged \<noteq> value \<and> StakerBase > se_Balance stakerpledged - value
         then Some (Inl ''the after revocation is less than 700ERB'', db)
         else if CancelDayPledgedInterval \<le> blockNumber - se_BlockNumber stakerpledged
         then db_NewCancelStakerPledge db caller addr value
         else Some (Inl ''too close to cancel'', db)
       }
       else if w_Type wormholes = 5 then RecoverValidatorCoefficient db caller
       else Some (Inl ''not exist nft type'', db))"

subsection \<open>Call\<close>

text \<open>The checks of Call before the snapshot; the payload is None for an ordinary call.\<close>
definition Call_check ::
    "StateDB \<Rightarrow> address \<Rightarrow> address \<Rightarrow> Wormholes option \<Rightarrow> int \<Rightarrow> unit result outcome" where
  "Call_check db caller addr payload value =
    (case payload of
       Some wormholes \<Rightarrow>
         if w_Type wormholes = 4 then do {
           (pledgedBalance, db) \<leftarrow> db_GetStakerPledgedBalance db caller addr;
           if pledgedBalance \<noteq> value \<and> value > 0
           then do {
             (ok, db) \<leftarrow> VerifyStakerPledgedBalance db caller addr (value + StakerBase);
             Some (if ok then Inr () else Inl ''insufficient balance for transfer'', db)
           }
           else Some (Inr (), db)
         }
         else if value \<noteq> 0
         then let (can, db) = CanTransfer db caller value in
           Some (if can then Inr () else Inl ''insufficient balance for transfer'', db)
         else Some (Inr (), db)
     | None \<Rightarrow>
         if value \<noteq> 0
         then let (can, db) = CanTransfer db caller value in
           Some (if can then Inr () else Inl ''insufficient balance for transfer'', db)
         else Some (Inr (), db))"

text \<open>
  \<^verbatim>\<open>string(input[:6]) == "erbie:"\<close> and the JSON text behind it: Inl for text that does not
  unmarshal, Inr None for an ordinary call.
\<close>
definition Call_payload :: "(bytes \<Rightarrow> Wormholes option) \<Rightarrow> bytes \<Rightarrow> Wormholes option result" where
  "Call_payload unmarshal inp =
    (if length inp > TransactionTypeLen \<and> take TransactionTypeLen inp = string_bytes TransactionType
     then case unmarshal (drop TransactionTypeLen inp) of
         Some wormholes \<Rightarrow> Inr (Some wormholes)
       | None \<Rightarrow> Inl ''wormholes format error, can't unmarshal''
     else Inr None)"

text \<open>What Call returns: the data, the gas left and the error.\<close>
record call_result =
  cr_ret :: bytes
  cr_gas :: uint64
  cr_err :: "unit result"

definition CallCreateDepth :: nat where
  "CallCreateDepth = 1024"

text \<open>
  The whole of Call.  An error of HandleCSBT is returned before the code runs, and without
  reverting to the snapshot.
\<close>
definition Call ::
    "(bytes \<Rightarrow> Wormholes option) \<Rightarrow>
     (StateDB \<Rightarrow> address \<Rightarrow> address \<Rightarrow> bytes \<Rightarrow> uint64 \<Rightarrow> int \<Rightarrow> call_result outcome) \<Rightarrow>
     bool \<Rightarrow> nat \<Rightarrow> int \<Rightarrow> StateDB \<Rightarrow> address \<Rightarrow> address \<Rightarrow> bytes \<Rightarrow> uint64 \<Rightarrow> int \<Rightarrow> call_result outcome" where
  "Call unmarshal run noRecursion depth blockNumber db caller addr inp gas value =
    (if noRecursion \<and> depth > 0 then Some (\<lparr>cr_ret = [], cr_gas = gas, cr_err = Inr ()\<rparr>, db)
     else if depth > CallCreateDepth
     then Some (\<lparr>cr_ret = [], cr_gas = gas, cr_err = Inl ''max call depth exceeded''\<rparr>, db)
     else case Call_payload unmarshal inp of
       Inl e \<Rightarrow> Some (\<lparr>cr_ret = [], cr_gas = gas, cr_err = Inl e\<rparr>, db)
     | Inr payload \<Rightarrow> do {
         (ok, db) \<leftarrow> Call_check db caller addr payload value;
         case ok of
           Inl e \<Rightarrow> Some (\<lparr>cr_ret = [], cr_gas = gas, cr_err = Inl e\<rparr>, db)
         | Inr _ \<Rightarrow> do {
             let (snapshot, db) = Snapshot db;
             let (exist, db) = db_Exist db addr;
             let db = (if \<not> exist then db_CreateAccount db addr else db);
             (err, db) \<leftarrow> (case payload of
                 Some wormholes \<Rightarrow> HandleCSBT db caller addr wormholes value blockNumber
               | None \<Rightarrow> do { db \<leftarrow> Transfer db caller addr value; Some (Inr (), db) });
             case err of
               Inl e \<Rightarrow> Some (\<lparr>cr_ret = [], cr_gas = gas, cr_err = Inl e\<rparr>, db)
             | Inr _ \<Rightarrow> do {
                 (r, db) \<leftarrow> run db caller addr inp gas value;
                 case cr_err r of
                   Inr _ \<Rightarrow> Some (r, db)
                 | Inl e \<Rightarrow> do {
                     db \<leftarrow> RevertToSnapshot db snapshot;
                     Some (if e \<noteq> ''execution reverted'' then r\<lparr>cr_gas := 0\<rparr> else r, db)
                   }
               }
           }
       })"

subsection \<open>Lookups on the ledger\<close>

lemma load_keeps: "keeps s (s\<lparr>stateObjects := (stateObjects s)(a := peek s a)\<rparr>)"
  by (auto simp: keeps_def has_defs peek_def split: option.splits)

lemma load_ledger [simp]: "ledger_of (s\<lparr>stateObjects := (stateObjects s)(a := peek s a)\<rparr>) = ledger_of s"
  by (rule ledger_of_cong) simp

lemma GetBalance_ledger:
  "fst (db_GetBalance s a) = l_Balance (ledger_of s a)"
  "ledger_of (snd (db_GetBalance s a)) = ledger_of s" "keeps s (snd (db_GetBalance s a))"
  using load_keeps [of s a]
  by (auto simp: db_GetBalance_def getStateObject_eq ledger_of_def account_of_def newObject_def
      Account_zero_def split: option.split)

lemma refines_GetBalance:
  assumes "\<And>b s'. keeps s s' \<Longrightarrow> refines (k b s') s' (H b)"
  shows "refines (case db_GetBalance s a of (b, s') \<Rightarrow> k b s') s (\<lambda>L. H (l_Balance (L a)) L)"
proof -
  obtain s' where s': "db_GetBalance s a = (l_Balance (ledger_of s a), s')" "ledger_of s' = ledger_of s" "keeps s s'"
    using GetBalance_ledger [of s a] by (cases "db_GetBalance s a") auto
  show ?thesis
    using refines_pre [OF assms [OF s'(3)] s'(3,2), of "l_Balance (ledger_of s a)"] s'(1)
    by (simp add: refines_def)
qed

lemma refines_CanTransfer:
  assumes "\<And>b s'. keeps s s' \<Longrightarrow> refines (k b s') s' (H b)"
  shows "refines (case CanTransfer s a v of (b, s') \<Rightarrow> k b s') s (\<lambda>L. H (v \<le> l_Balance (L a)) L)"
proof -
  have "(case CanTransfer s a v of (b, s') \<Rightarrow> k b s') =
      (case db_GetBalance s a of (b, s') \<Rightarrow> k (v \<le> b) s')"
    by (simp add: CanTransfer_def split: prod.split)
  then show ?thesis using refines_GetBalance [of s "\<lambda>b. k (v \<le> b)" "\<lambda>b. H (v \<le> b)"] assms by simp
qed

text \<open>The pledge of one account to another as GetStakerPledged reports it.\<close>
definition pledge_entry :: "ledger \<Rightarrow> address \<Rightarrow> address \<Rightarrow> StakerExtension" where
  "pledge_entry L frm addr = (case find (\<lambda>v. se_Addr v = addr) (l_Stakes (L frm)) of Some v \<Rightarrow> v
     | None \<Rightarrow> \<lparr>se_Addr = empty_address, se_Balance = 0, se_BlockNumber = 0\<rparr>)"

lemma pledge_entry_Balance: "se_Balance (pledge_entry L frm addr) = sel_GetBalance (l_Stakes (L frm)) addr"
  by (simp add: pledge_entry_def sel_GetBalance_def split: option.split)

text \<open>A getter that first looks the account up.\<close>
lemma refines_getter:
  assumes "get s' = Some (f (ledger_of s'))" "keeps s s'" "ledger_of s' = ledger_of s"
  shows "refines (Option.bind (get s') (\<lambda>x. Some (g x, s'))) s (\<lambda>L. (g (f L), L))"
  using assms by (simp add: refines_def)

lemma getters_refine:
  "refines (db_GetStakerPledged s frm addr) s (\<lambda>L. (pledge_entry L frm addr, L))"
  "refines (db_GetStakerPledgedBalance s frm addr) s (\<lambda>L. (sel_GetBalance (l_Stakes (L frm)) addr, L))"
  "refines (db_GetPledgedBalance s addr) s (\<lambda>L. (l_Pledged (L addr), L))"
  "refines (db_GetValidatorCoefficient s addr) s (\<lambda>L. (l_Coef (L addr), L))"
  "refines (db_GetNFTOwner16 s addr) s (\<lambda>L. (l_Owner (L addr), L))"
  "refines (db_GetStakerStorageAddress s) s (\<lambda>L. (Some (as_CSBTCreators (l_Staker (L StakerStorageAddress))), L))"
  by (simp_all add: refines_def db_GetStakerPledged_def db_GetStakerPledgedBalance_def db_GetPledgedBalance_def
    db_GetValidatorCoefficient_def db_GetNFTOwner16_def db_GetStakerStorageAddress_def db_GetStakers_def
    Let_def so_Worm_ledger so_Csbt_ledger so_Staker_ledger pledge_entry_def sel_GetBalance_def)

lemma balance_ops_yield:
  "yields (db_AddBalance s a v) s (on_account a (\<lambda>x. x\<lparr>l_Balance := l_Balance x + v\<rparr>))"
  "yields (db_SubBalance s a v) s (on_account a (\<lambda>x. x\<lparr>l_Balance := l_Balance x - v\<rparr>))"
  unfolding db_AddBalance_def db_SubBalance_def Let_def
  by (rule AddBalance_lookup, rule yields_pre [OF so_SubBalance_yields]) (simp_all add: has_live)

lemma ChangeNFTOwner_yields: "yields (db_ChangeNFTOwner s a o') s (on_account a (l_Owner_update (\<lambda>_. o')))"
proof -
  let ?s = "GetOrNewNFTStateObject s a"
  obtain c where c: "so_Csbt ?s a = Some c" using GetOrNewNFT by (auto simp: has_Csbt_def)
  then have o: "cs_Owner c = l_Owner (ledger_of ?s a)"
    using so_Csbt_ledger(1) [of ?s a] by (simp add: so_NFTOwner_def)
  have "yields (so_ChangeNFTOwner ?s a o') ?s (on_account a (l_Owner_update (\<lambda>_. o')))"
  proof (cases "cs_Owner c = o'")
    case True
    have "on_account a (l_Owner_update (\<lambda>_. l_Owner (ledger_of s a))) (ledger_of s) = ledger_of s"
      by (rule ext) (simp add: on_account_def)
    with True o c show ?thesis by (simp add: so_ChangeNFTOwner_def yields_def)
  next
    case False
    then show ?thesis using c Csbt_setters(1) [of ?s a o'] by (simp add: so_ChangeNFTOwner_def)
  qed
  then show ?thesis
    unfolding db_ChangeNFTOwner_def Let_def by (rule yields_pre) simp_all
qed

subsection \<open>HandleCSBT on the ledger\<close>

text \<open>What each transaction type does to the ledger, and the error it returns.\<close>

definition L_TransferCSBT :: "address \<Rightarrow> address \<Rightarrow> string \<Rightarrow> ledger \<Rightarrow> unit result \<times> ledger" where
  "L_TransferCSBT caller addr csbt L =
    (case GetNftAddressAndLevel csbt of
       Inl e \<Rightarrow> (Inl ''not the owner of the csbt'', L)
     | Inr (a, _) \<Rightarrow>
         if l_Owner (L a) \<noteq> caller then (Inl ''not the owner of the csbt'', L)
         else if \<not> sl_IsExist (as_CSBTCreators (l_Staker (L StakerStorageAddress))) caller
         then (Inl ''not csbt creator'', L)
         else (Inr (), on_account a (l_Owner_update (\<lambda>_. addr)) L))"

definition L_Transfer :: "address \<Rightarrow> address \<Rightarrow> int \<Rightarrow> ledger \<Rightarrow> ledger" where
  "L_Transfer sender recipient amount L =
    on_account recipient (\<lambda>x. x\<lparr>l_Balance := l_Balance x + amount\<rparr>)
      (on_account sender (\<lambda>x. x\<lparr>l_Balance := l_Balance x - amount\<rparr>) L)"

definition L_WithdrawERB :: "address \<Rightarrow> address \<Rightarrow> string \<Rightarrow> int \<Rightarrow> ledger \<Rightarrow> unit result \<times> ledger" where
  "L_WithdrawERB caller addr csbt value L =
    (case GetNftAddressAndLevel csbt of
       Inl e \<Rightarrow> (Inl ''not the owner of the csbt'', L)
     | Inr (a, _) \<Rightarrow>
         if l_Owner (L a) \<noteq> addr then (Inl ''not the owner of the csbt'', L)
         else (Inr (), L_Transfer caller addr value L))"

definition L_Pledge :: "address \<Rightarrow> address \<Rightarrow> address \<Rightarrow> int \<Rightarrow> int \<Rightarrow> ledger \<Rightarrow> unit result \<times> ledger" where
  "L_Pledge caller addr proxy value n L =
    (if sel_GetBalance (l_Stakes (L caller)) addr < StakerBase \<and> value < StakerBase
     then (Inl ''not more than 700 ERB'', L)
     else if value \<le> l_Balance (L caller)
     then L_ResetMinerBecome addr (L_StakerPledge caller addr value n proxy L)
     else (Inl ''insufficient balance for transfer'', L))"

definition L_CancelPledge :: "address \<Rightarrow> address \<Rightarrow> int \<Rightarrow> int \<Rightarrow> ledger \<Rightarrow> unit result \<times> ledger" where
  "L_CancelPledge caller addr value n L =
    (let pledged = pledge_entry L caller addr in
     if se_Balance pledged \<noteq> value \<and> StakerBase > se_Balance pledged - value
     then (Inl ''the after revocation is less than 700ERB'', L)
     else if CancelDayPledgedInterval \<le> n - se_BlockNumber pledged
     then L_NewCancelStakerPledge caller addr value L
     else (Inl ''too close to cancel'', L))"

definition L_RecoverCoefficient :: "address \<Rightarrow> ledger \<Rightarrow> unit result \<times> ledger" where
  "L_RecoverCoefficient a L =
    (let coe = l_Coef (L a); need = 70 - coe; amount = uint need * coebaseErb in
     if l_Pledged (L a) \<le> 0 then (Inl ''not a validator'', L)
     else if coe = 0 then (Inl ''Get validator coefficient error'', L)
     else if need > 0 then
       if l_Balance (L a) < amount then (Inl ''insufficient balance for transfer'', L)
       else (Inr (), on_account a (\<lambda>x. x\<lparr>l_Coef := VALIDATOR_COEFFICIENT\<rparr>) (L_Transfer a empty_address amount L))
     else (Inr (), L))"

definition L_HandleCSBT :: "address \<Rightarrow> address \<Rightarrow> Wormholes \<Rightarrow> int \<Rightarrow> int \<Rightarrow> ledger \<Rightarrow> unit result \<times> ledger" where
  "L_HandleCSBT caller addr wh value n L =
    (if w_Type wh = 1 then L_TransferCSBT caller addr (w_CSBTAddress wh) L
     else if w_Type wh = 2 then L_WithdrawERB caller addr (w_CSBTAddress wh) value L
     else if w_Type wh = 3 then L_Pledge caller addr (proxy_of wh) value n L
     else if w_Type wh = 4 then L_CancelPledge caller addr value n L
     else if w_Type wh = 5 then L_RecoverCoefficient caller L
     else (Inl ''not exist nft type'', L))"

lemma VerifyCSBTOwner_refines:
  "refines (VerifyCSBTOwner s csbt owner) s (\<lambda>L. (case GetNftAddressAndLevel csbt of
      Inl e \<Rightarrow> False | Inr (a, _) \<Rightarrow> l_Owner (L a) = owner, L))"
proof (cases "GetNftAddressAndLevel csbt")
  case (Inr r)
  obtain s' where "db_GetNFTOwner16 s (fst r) = Some (l_Owner (ledger_of s (fst r)), s')"
    "ledger_of s' = ledger_of s" "keeps s s'"
    using getters_refine(5) [of s "fst r"] by (auto simp: refines_def)
  then show ?thesis using Inr by (cases r) (simp add: VerifyCSBTOwner_def refines_def)
qed (simp add: VerifyCSBTOwner_def refines_def)

lemma IsExistStaker_refines:
  "refines (IsExistStakerStorageAddress s a) s
    (\<lambda>L. (sl_IsExist (as_CSBTCreators (l_Staker (L StakerStorageAddress))) a, L))"
  using getters_refine(6) [of s] by (auto simp: IsExistStakerStorageAddress_def refines_def)

lemma TransferCSBT_refines:
  "GetNftAddressAndLevel csbt = Inr (a, n) \<Longrightarrow>
    refines (TransferCSBT s csbt addr) s (\<lambda>L. (Inr (), on_account a (l_Owner_update (\<lambda>_. addr)) L))"
  using ChangeNFTOwner_yields [of s a addr] by (auto simp: TransferCSBT_def refines_def yields_def)

lemma Transfer_yields: "yields (Transfer s a b v) s (L_Transfer a b v)"
  unfolding Transfer_def L_Transfer_def by (rule yields_bind [OF balance_ops_yield(2) balance_ops_yield(1)])

lemmas csbt_steps = refines_return refines_if refines_bindR [OF VerifyCSBTOwner_refines]
  refines_bindR [OF IsExistStaker_refines] refines_bindR [OF getters_refine(1)]
  refines_bindR [OF getters_refine(2)] refines_bindR [OF getters_refine(3)]
  refines_bindR [OF getters_refine(4)] refines_CanTransfer refines_bind [OF Transfer_yields]
  refines_bind [OF balance_ops_yield(1)] refines_bind [OF balance_ops_yield(2)]
  refines_bind [OF db_AddValidatorCoefficient_yields]

lemma type1_refines:
  "refines (do {
      (own, db) \<leftarrow> VerifyCSBTOwner s csbt caller;
      if own then do {
        (exist, db) \<leftarrow> IsExistStakerStorageAddress db caller;
        if \<not> exist then Some (Inl ''not csbt creator'', db) else TransferCSBT db csbt addr
      }
      else Some (Inl ''not the owner of the csbt'', db)
    }) s (L_TransferCSBT caller addr csbt)"
proof (cases "GetNftAddressAndLevel csbt")
  case (Inl e)
  then show ?thesis by (simp add: VerifyCSBTOwner_def refines_def L_TransferCSBT_def)
next
  case (Inr r)
  then obtain a n where a: "GetNftAddressAndLevel csbt = Inr (a, n)" by (cases r) auto
  show ?thesis
    apply (rule refines_cong)
     apply (rule csbt_steps TransferCSBT_refines [OF a])+
    apply (simp add: L_TransferCSBT_def a)
    done
qed

lemma type2_refines:
  "refines (do {
      (own, db) \<leftarrow> VerifyCSBTOwner s csbt addr;
      if own then do { db \<leftarrow> Transfer db caller addr value; Some (Inr (), db) }
      else Some (Inl ''not the owner of the csbt'', db)
    }) s (L_WithdrawERB caller addr csbt value)"
  apply (rule refines_cong)
   apply (rule csbt_steps)+
  apply (simp add: L_WithdrawERB_def split: sum.split prod.split)
  done

lemma type3_refines:
  "refines (do {
      (stakerpledged, db) \<leftarrow> db_GetStakerPledged s caller addr;
      if se_Balance stakerpledged < StakerBase \<and> value < StakerBase
      then Some (Inl ''not more than 700 ERB'', db)
      else let (can, db) = CanTransfer db caller value in
        if can then do {
          (err, db) \<leftarrow> db_StakerPledge db caller addr value n wh;
          case err of Inl e \<Rightarrow> Some (Inl e, db) | Inr _ \<Rightarrow> db_ResetMinerBecome db addr
        }
        else Some (Inl ''insufficient balance for transfer'', db)
    }) s (L_Pledge caller addr (proxy_of wh) value n)"
proof -
  have pledge: "refines (do {
          (err, db) \<leftarrow> db_StakerPledge s caller addr value n wh;
          case err of Inl e \<Rightarrow> Some (Inl e, db) | Inr _ \<Rightarrow> db_ResetMinerBecome db addr
        }) s (\<lambda>L. L_ResetMinerBecome addr (L_StakerPledge caller addr value n (proxy_of wh) L))" for s
  proof -
    obtain s1 where s1: "db_StakerPledge s caller addr value n wh = Some (Inr (), s1)" "keeps s s1"
      "ledger_of s1 = L_StakerPledge caller addr value n (proxy_of wh) (ledger_of s)"
      using StakerPledge_refines [of s caller addr "value" n wh] by (auto simp: refines_def)
    then show ?thesis
      using ResetMinerBecome_refines [of s1 addr] by (auto simp: refines_def intro: keeps_trans)
  qed
  show ?thesis
    apply (rule refines_cong)
    unfolding Let_def
     apply (rule csbt_steps pledge)+
    apply (simp add: L_Pledge_def pledge_entry_Balance)
    done
qed

lemma type4_refines:
  "refines (do {
      (stakerpledged, db) \<leftarrow> db_GetStakerPledged s caller addr;
      if se_Balance stakerpledged \<noteq> value \<and> StakerBase > se_Balance stakerpledged - value
      then Some (Inl ''the after revocation is less than 700ERB'', db)
      else if CancelDayPledgedInterval \<le> n - se_BlockNumber stakerpledged
      then db_NewCancelStakerPledge db caller addr value
      else Some (Inl ''too close to cancel'', db)
    }) s (L_CancelPledge caller addr value n)"
  apply (rule refines_cong)
   apply (rule csbt_steps NewCancelStakerPledge_refines)+
  apply (simp add: L_CancelPledge_def Let_def)
  done

lemma RecoverValidatorCoefficient_refines:
  "refines (RecoverValidatorCoefficient s a) s (L_RecoverCoefficient a)"
proof -
  show ?thesis
    unfolding RecoverValidatorCoefficient_def Let_def
    apply (rule refines_cong)
     apply (rule csbt_steps refines_GetBalance)+
    apply (simp add: L_RecoverCoefficient_def L_Transfer_def coebaseErb_def Let_def)
    done
qed

lemma HandleCSBT_refines: "refines (HandleCSBT s caller addr wh value n) s (L_HandleCSBT caller addr wh value n)"
proof (cases "CheckFormat wh")
  case (Inl e)
  then show ?thesis
    by (simp add: HandleCSBT_def L_HandleCSBT_def CheckFormat_def refines_def split: if_splits)
next
  case (Inr u)
  then have "w_Type wh = 1 \<or> w_Type wh = 2 \<or> w_Type wh = 3 \<or> w_Type wh = 4 \<or> w_Type wh = 5"
    by (simp add: CheckFormat_def split: if_splits)
  then show ?thesis
    using Inr type1_refines type2_refines type3_refines type4_refines RecoverValidatorCoefficient_refines
    by (elim disjE) (simp_all add: HandleCSBT_def L_HandleCSBT_def [abs_def])
qed

subsection \<open>The staking invariant and the conservation of tokens\<close>

lemma L_Transfer_keeps [simp]:
  "pledges_ok (L_Transfer a b v L) = pledges_ok L" "credit_ok (L_Transfer a b v L) = credit_ok L"
  "listed_ok X (L_Transfer a b v L) = listed_ok X L"
  unfolding L_Transfer_def by (simp_all add: on_account_field [of l_Staker])

lemma wealth_Transfer: "\<lbrakk>finite A; a \<in> A; b \<in> A\<rbrakk> \<Longrightarrow> wealth A (L_Transfer a b v L) = wealth A L"
  by (simp add: L_Transfer_def wealth_on_account)

lemma staking_ok_Pledge:
  assumes "staking_ok L" "0 \<le> v"
  shows "staking_ok (snd (L_Pledge caller addr px v n L))"
proof (cases "(sel_GetBalance (l_Stakes (L caller)) addr < StakerBase \<and> v < StakerBase) \<or> \<not> v \<le> l_Balance (L caller)")
  case False
  let ?L = "L_StakerPledge caller addr v n px L"
  have ok: "pledges_ok L" "listed_ok {} L" "credit_ok L" using assms(1) by (simp_all add: staking_ok_def)
  have "0 \<le> sel_GetBalance (l_Stakes (L caller)) addr"
    by (rule sel.solvent_nonneg [OF pledges_okD(1) [OF ok(1)]])
  then have "0 < sel_GetBalance (l_Stakes (L caller)) addr + v"
    using False StakerBase_pos assms(2) by linarith
  then have "pledges_ok ?L" using ok(1) by (intro pledges_ok_StakerPledge)
  moreover have "listed_ok {} (snd (L_ResetMinerBecome addr ?L))"
    using listed_ok_ResetMinerBecome [OF listed_ok_StakerPledge [OF ok(2), of addr caller v n px], of addr]
    by simp
  ultimately show ?thesis
    using False ok(3) by (auto simp: L_Pledge_def staking_ok_def credit_ok_ResetMinerBecome)
qed (use assms in \<open>auto simp: L_Pledge_def\<close>)

lemma staking_ok_Cancel:
  assumes "staking_ok L" "0 \<le> v"
  shows "staking_ok (snd (L_CancelPledge caller addr v n L))"
proof -
  have "v \<le> sel_GetBalance (l_Stakes (L caller)) addr"
    if "\<not> (se_Balance (pledge_entry L caller addr) \<noteq> v \<and> StakerBase > se_Balance (pledge_entry L caller addr) - v)"
    using that StakerBase_pos unfolding pledge_entry_Balance by linarith
  then show ?thesis
    using assms staking_ok_NewCancel [OF assms(1,2)] by (auto simp: L_CancelPledge_def Let_def)
qed

lemma staking_ok_Recover: "staking_ok L \<Longrightarrow> staking_ok (snd (L_RecoverCoefficient a L))"
  by (auto simp: L_RecoverCoefficient_def Let_def staking_ok_def VALIDATOR_COEFFICIENT_def
      intro!: credit_ok_coef simp del: listed_ok_coef L_Transfer_keeps(3))
    (simp_all add: on_account_field [of l_Staker] L_Transfer_def)

lemma staking_ok_owner: "staking_ok (on_account a (l_Owner_update f) L) = staking_ok L"
proof -
  have "pledges_ok (on_account a (l_Owner_update f) L) = pledges_ok L" by (rule pledges_ok_cong) simp_all
  then show ?thesis by (simp add: staking_ok_def credit_ok_def on_account_field [of l_Staker])
qed

lemma staking_ok_HandleCSBT:
  "\<lbrakk>staking_ok L; 0 \<le> v\<rbrakk> \<Longrightarrow> staking_ok (snd (L_HandleCSBT caller addr wh v n L))"
  by (auto simp: L_HandleCSBT_def L_TransferCSBT_def L_WithdrawERB_def staking_ok_Pledge staking_ok_Cancel
    staking_ok_Recover staking_ok_owner split: sum.split prod.split)
    (simp_all add: staking_ok_def)

lemma wealth_HandleCSBT:
  assumes "pledges_ok L" "0 \<le> v" "finite A" "{caller, addr, empty_address} \<union> backers addr L \<subseteq> A"
  shows "wealth A (snd (L_HandleCSBT caller addr wh v n L)) = wealth A L"
proof -
  have A: "caller \<in> A" "addr \<in> A" "empty_address \<in> A" "backers addr L \<subseteq> A" using assms(4) by auto
  have "wealth A (snd (L_Pledge caller addr px v n L)) = wealth A L" for px
    using A assms(3) by (simp add: L_Pledge_def wealth_StakerPledge)
  moreover have "wealth A (snd (L_CancelPledge caller addr v n L)) = wealth A L"
  proof -
    have "v \<le> sel_GetBalance (l_Stakes (L caller)) addr"
      if "\<not> (se_Balance (pledge_entry L caller addr) \<noteq> v \<and> StakerBase > se_Balance (pledge_entry L caller addr) - v)"
      using that StakerBase_pos unfolding pledge_entry_Balance by linarith
    then show ?thesis
      using wealth_NewCancel [OF assms(1,2) _ assms(3) A] by (auto simp: L_CancelPledge_def Let_def)
  qed
  moreover have "wealth A (on_account a (l_Owner_update f) L) = wealth A L" for a f
    using assms(3) by (simp add: wealth_on_account)
  ultimately show ?thesis
    using A assms(3)
    by (auto simp: L_HandleCSBT_def L_TransferCSBT_def L_WithdrawERB_def L_RecoverCoefficient_def Let_def
      wealth_Transfer split: sum.split prod.split)
qed

subsection \<open>The properties of HandleCSBT\<close>

text \<open>
  C1.  HandleCSBT never panics and keeps the staking ledger consistent: if the two pledge lists
  mirror each other, the pledged totals are the sums of the backers' pledges, every listed
  validator is recorded with its pledged total of at least the threshold, and no credit score
  exceeds 70, then all of this holds after the transaction, whether it succeeds or returns an
  error.
\<close>
theorem HandleCSBT_keeps_staking_ok:
  assumes "staking_ok (ledger_of s)" "0 \<le> v"
  shows "\<exists>err s'. HandleCSBT s caller addr wh v n = Some (err, s') \<and> staking_ok (ledger_of s')"
  using HandleCSBT_refines [of s caller addr wh v n] staking_ok_HandleCSBT [OF assms]
  by (auto simp: refines_def)

theorem HandleCSBT_keeps_staking_ok_witness:
  "\<exists>err s'. HandleCSBT (state_New sample_trie) 100 200
      \<lparr>w_Type = 3, w_CSBTAddress = [], w_ProxyAddress = [], w_ProxySign = [], w_Creator = [], w_Version = []\<rparr>
      (400 * baseErb) 7 = Some (err, s') \<and> staking_ok (ledger_of s')"
  by (rule HandleCSBT_keeps_staking_ok) (simp_all add: sample_staking_ok baseErb_def)

text \<open>
  C2.  No transaction of the five types creates or destroys tokens: over any finite set of
  accounts that contains the sender, the called address, the zero address and the backers of the
  called address, the sum of free and pledged tokens is the same before and after HandleCSBT.
\<close>
theorem HandleCSBT_conserves_tokens:
  assumes "pledges_ok (ledger_of s)" "0 \<le> v" "finite A"
    "{caller, addr, empty_address} \<union> backers addr (ledger_of s) \<subseteq> A"
  shows "\<exists>err s'. HandleCSBT s caller addr wh v n = Some (err, s') \<and>
    wealth A (ledger_of s') = wealth A (ledger_of s)"
  using HandleCSBT_refines [of s caller addr wh v n] wealth_HandleCSBT [OF assms]
  by (auto simp: refines_def)

theorem HandleCSBT_conserves_tokens_witness:
  "\<exists>err s'. HandleCSBT (state_New sample_trie) 100 200
      \<lparr>w_Type = 3, w_CSBTAddress = [], w_ProxyAddress = [], w_ProxySign = [], w_Creator = [], w_Version = []\<rparr>
      (400 * baseErb) 7 = Some (err, s') \<and>
      wealth {0, 100, 200} (ledger_of s') = wealth {0, 100, 200} sample_ledger"
  using sample_staking_ok
  by (intro HandleCSBT_conserves_tokens) (simp_all add: staking_ok_def sample_ledger_fields NewValidatorPledge_def baseErb_def)

text \<open>Errors leave the ledger alone, except the one of ResetMinerBecome.\<close>
lemma L_HandleCSBT_error:
  assumes "L_HandleCSBT caller addr wh v n L = (Inl e, L')"
  shows "L' = L \<or> w_Type wh = 3 \<and> e = ''cannot have the same proxy''"
proof -
  have "L' = L" if "L_NewCancelStakerPledge caller addr v L = (Inl e, L')"
    using that by (auto simp: NewCancel_cases split: if_splits)
  moreover have "e = ''cannot have the same proxy''" if "L_ResetMinerBecome addr M = (Inl e, L')" for M
    using that by (auto simp: L_ResetMinerBecome_def Let_def split: if_splits)
  ultimately show ?thesis
    using assms
    by (auto simp: L_HandleCSBT_def L_TransferCSBT_def L_WithdrawERB_def L_Pledge_def L_CancelPledge_def
      L_RecoverCoefficient_def Let_def split: sum.splits prod.splits if_splits)
qed

lemma HandleCSBT_unchanged:
  assumes "HandleCSBT s caller addr wh v n = Some (Inl e, s')"
  shows "ledger_of s' = ledger_of s \<or> w_Type wh = 3 \<and> e = ''cannot have the same proxy''"
proof -
  obtain G where G: "L_HandleCSBT caller addr wh v n (ledger_of s) = G" "fst G = Inl e" "snd G = ledger_of s'"
    using HandleCSBT_refines [of s caller addr wh v n] assms by (auto simp: refines_def)
  then have "L_HandleCSBT caller addr wh v n (ledger_of s) = (Inl e, ledger_of s')"
    by (cases G) simp
  from L_HandleCSBT_error [OF this] show ?thesis .
qed

text \<open>
  C9.  A transaction that HandleCSBT rejects changes nothing, with one exception: a pledge
  (type 3) whose proxy is the address of another validator is rejected after the pledge has been
  booked.
\<close>
theorem HandleCSBT_error_unchanged:
  assumes "HandleCSBT s caller addr wh v n = Some (Inl e, s')"
  shows "ledger_of s' = ledger_of s \<or> w_Type wh = 3 \<and> e = ''cannot have the same proxy''"
  using assms by (rule HandleCSBT_unchanged)

theorem HandleCSBT_error_unchanged_witness:
  "\<exists>s'. HandleCSBT (state_New sample_trie) 100 200
      \<lparr>w_Type = 9, w_CSBTAddress = [], w_ProxyAddress = [], w_ProxySign = [], w_Creator = [], w_Version = []\<rparr>
      5 7 = Some (Inl ''not exist nft type'', s') \<and> ledger_of s' = sample_ledger"
proof -
  let ?wh = "\<lparr>w_Type = 9, w_CSBTAddress = [], w_ProxyAddress = [], w_ProxySign = [], w_Creator = [], w_Version = []\<rparr>"
  have "HandleCSBT (state_New sample_trie) 100 200 ?wh 5 7 =
      Some (Inl ''not exist nft type'', state_New sample_trie)"
    by (simp add: HandleCSBT_def CheckFormat_def)
  from this HandleCSBT_error_unchanged [OF this] show ?thesis by simp
qed

subsection \<open>A rejected pledge is not rolled back\<close>

definition proxy_payload :: Wormholes where
  "proxy_payload = \<lparr>w_Type = 3, w_CSBTAddress = [], w_ProxyAddress = ''0x'' @ Bytes2Hex (address_bytes 200),
    w_ProxySign = [], w_Creator = [], w_Version = []\<rparr>"

lemma proxy_payload_simps [simp]: "w_Type proxy_payload = 3" "proxy_of proxy_payload = 200"
  unfolding proxy_payload_def by (simp, simp add: HexToAddress_def FromHex_0x [unfolded append_Cons append_Nil])

lemma proxy_pledge_rejected:
  "\<exists>L'. L_HandleCSBT 100 100 proxy_payload (35000 * baseErb) 7 sample_ledger =
    (Inl ''cannot have the same proxy'', L') \<and> l_Balance (L' 100) = 5000 * baseErb"
proof -
  let ?L = "L_StakerPledge 100 100 (35000 * baseErb) 7 200 sample_ledger"
  have "validators_in ?L = [NewValidator 200 (50000 * baseErb) 0]"
    using sample_ledger_fields(6) by (simp add: L_StakerPledge_def Let_def)
  moreover have "l_Pledged (?L 100) = 35000 * baseErb" "l_Proxy (?L 100) = 200" "l_Balance (?L 100) = 5000 * baseErb"
    by (simp_all add: L_StakerPledge_def Let_def sample_ledger_fields)
  ultimately have "L_ResetMinerBecome 100 ?L = (Inl ''cannot have the same proxy'', ?L)"
    by (simp add: L_ResetMinerBecome_def Let_def ValidatorBase_def on_account_def upd_validators_def
        vl_ResetRemoveValidator_def vl_DeepCopy_def vl_Exist_def NewValidator_def)
  then show ?thesis
    using \<open>l_Balance (?L 100) = 5000 * baseErb\<close>
    by (simp add: L_HandleCSBT_def L_Pledge_def sample_ledger_fields StakerBase_def baseErb_def sel_GetBalance_def)
qed

lemma Exist_ledger: "ledger_of (snd (db_Exist s a)) = ledger_of s"
  by (simp add: db_Exist_def getStateObject_eq)

lemma Snapshot_ledger: "ledger_of (snd (Snapshot s)) = ledger_of s"
  by (rule ledger_of_cong) (simp add: Snapshot_def Let_def)

lemma CanTransfer_ledger:
  "fst (CanTransfer s a v) = (v \<le> l_Balance (ledger_of s a))" "ledger_of (snd (CanTransfer s a v)) = ledger_of s"
  using GetBalance_ledger [of s a] by (auto simp: CanTransfer_def split: prod.split)


text \<open>The JSON text of the payload, and a decoder that knows just this text.\<close>
definition proxy_json :: bytes where
  "proxy_json = (let quote = \<lambda>x. CHR 0x22 # x @ [CHR 0x22] in
    string_bytes (''{'' @ quote ''type'' @ '':3,'' @ quote ''proxy_address'' @ '':'' @ quote (w_ProxyAddress proxy_payload) @ ''}''))"

definition proxy_unmarshal :: "bytes \<Rightarrow> Wormholes option" where
  "proxy_unmarshal b = (if b = proxy_json then Some proxy_payload else None)"


end
