(* ===== verification/Snapshot_Undo.thy ===== *)
theory Snapshot_Undo
  imports Snapshot_Revert
begin

text \<open>
  RevertToSnapshot undoes every sequence of state changes made since the snapshot, up to the zero
  values that the GetOrNew methods put into nil fields without a journal entry.  A change is
  undoable when the entries it appends to the journal, reverted in the opposite order, lead back
  from any state that is like the changed one to a state that is like the one before.  Undoable
  changes compose, also around nested snapshots, so it is enough to look at each setter once.
\<close>

subsection \<open>States that are alike\<close>

definition sim_obj :: "address \<Rightarrow> stateObject \<Rightarrow> stateObject \<Rightarrow> bool" where
  "sim_obj a ob' ob \<longleftrightarrow> so_address ob' = so_address ob \<and> so_suicided ob' = so_suicided ob \<and>
    so_deleted ob' = so_deleted ob \<and> account_of a (so_data ob') = account_of a (so_data ob) \<and>
    (a_Worm (so_data ob) \<noteq> None \<longrightarrow> a_Worm (so_data ob') \<noteq> None) \<and>
    (a_Csbt (so_data ob) \<noteq> None \<longrightarrow> a_Csbt (so_data ob') \<noteq> None) \<and>
    (a_Staker (so_data ob) \<noteq> None \<longrightarrow> a_Staker (so_data ob') \<noteq> None)"

text \<open>\<open>t\<close> is like \<open>s\<close>, except that more fields may be initialised.\<close>
definition sim :: "StateDB \<Rightarrow> StateDB \<Rightarrow> bool" where
  "sim t s \<longleftrightarrow> (\<forall>a. rel_option (sim_obj a) (peek t a) (peek s a)) \<and>
    refund t = refund s \<and> trie t = trie s \<and> db_accessList t = db_accessList s"

lemma sim_obj_refl [simp]: "sim_obj a ob ob"
  by (simp add: sim_obj_def)

lemma sim_obj_trans: "\<lbrakk>sim_obj a x y; sim_obj a y z\<rbrakk> \<Longrightarrow> sim_obj a x z"
  by (simp add: sim_obj_def)

lemma sim_refl [simp]: "sim s s"
  by (simp add: sim_def option.rel_refl)

lemma rel_sim_obj_trans:
  "\<lbrakk>rel_option (sim_obj a) x y; rel_option (sim_obj a) y z\<rbrakk> \<Longrightarrow> rel_option (sim_obj a) x z"
  by (cases x; cases y; cases z) (auto intro: sim_obj_trans)

lemma sim_trans: "\<lbrakk>sim s t; sim t u\<rbrakk> \<Longrightarrow> sim s u"
  unfolding sim_def by (auto intro: rel_sim_obj_trans)

lemma sim_visible: "sim t s \<Longrightarrow> rel_option (sim_obj a) (visible t a) (visible s a)"
proof -
  assume "sim t s"
  then have "rel_option (sim_obj a) (peek t a) (peek s a)" by (simp add: sim_def)
  then show ?thesis by (cases rule: option.rel_cases) (auto simp: visible_def sim_obj_def)
qed

lemma sim_ledger: "sim t s \<Longrightarrow> ledger_of t = ledger_of s"
proof
  fix a assume "sim t s"
  from sim_visible [OF this, of a] show "ledger_of t a = ledger_of s a"
    by (cases rule: option.rel_cases) (auto simp: ledger_of_def sim_obj_def)
qed

lemma simI:
  assumes "\<And>b. b \<noteq> a \<Longrightarrow> rel_option (sim_obj b) (peek t b) (peek s b)"
    "rel_option (sim_obj a) (peek t a) (peek s a)" "refund t = refund s" "trie t = trie s"
    "db_accessList t = db_accessList s"
  shows "sim t s"
  using assms unfolding sim_def by metis

lemma sim_cong:
  assumes "sim t s" "\<And>a. peek t' a = peek t a" "refund t' = refund t" "trie t' = trie t"
    "db_accessList t' = db_accessList t"
  shows "sim t' s"
  using assms by (simp add: sim_def)

subsection \<open>Undoable changes\<close>

definition revs_ok :: "StateDB \<Rightarrow> bool" where
  "revs_ok s \<longleftrightarrow> sorted_wrt (<) (map rev_id (validRevisions s)) \<and>
    (\<forall>r \<in> set (validRevisions s). rev_id r < nextRevisionId s)"

abbreviation entries :: "StateDB \<Rightarrow> journalEntry list" where
  "entries s \<equiv> j_entries (db_journal s)"

text \<open>Newer revisions have been appended, and the well-formedness of the state is kept.\<close>
definition grows :: "StateDB \<Rightarrow> StateDB \<Rightarrow> bool" where
  "grows s s' \<longleftrightarrow> (db_ok s \<longrightarrow> db_ok s') \<and> (revs_ok s \<longrightarrow> revs_ok s') \<and>
    nextRevisionId s \<le> nextRevisionId s' \<and>
    (\<exists>rs. validRevisions s' = validRevisions s @ rs \<and> (\<forall>r \<in> set rs. nextRevisionId s \<le> rev_id r))"

definition undoable :: "StateDB \<Rightarrow> StateDB \<Rightarrow> bool" where
  "undoable s s' \<longleftrightarrow> grows s s' \<and> (db_ok s \<longrightarrow>
    (\<exists>es. entries s' = entries s @ es \<and>
      (\<forall>t. sim t s' \<longrightarrow> (\<exists>t'. revert_loop (rev es) t = Some t' \<and> sim t' s))))"

lemma grows_refl [simp]: "grows s s"
  by (simp add: grows_def)

lemma grows_trans: "\<lbrakk>grows s t; grows t u\<rbrakk> \<Longrightarrow> grows s u"
  unfolding grows_def by (fastforce intro: order_trans)

lemma revert_loop_append: "revert_loop (es @ fs) s = Option.bind (revert_loop es s) (revert_loop fs)"
  by (induction es arbitrary: s) (simp_all add: Let_def bind_assoc)

lemma undoable_refl [simp]: "undoable s s"
  by (auto simp: undoable_def)

lemma undoable_trans:
  assumes "undoable s t" "undoable t u"
  shows "undoable s u"
proof -
  have "\<exists>es. entries u = entries s @ es \<and>
      (\<forall>x. sim x u \<longrightarrow> (\<exists>y. revert_loop (rev es) x = Some y \<and> sim y s))" if ok: "db_ok s"
  proof -
    have "db_ok t" using assms(1) ok by (simp add: undoable_def grows_def)
    then obtain es fs where es: "entries t = entries s @ es"
      "\<And>x. sim x t \<Longrightarrow> \<exists>y. revert_loop (rev es) x = Some y \<and> sim y s"
      and fs: "entries u = entries t @ fs" "\<And>x. sim x u \<Longrightarrow> \<exists>y. revert_loop (rev fs) x = Some y \<and> sim y t"
      using assms ok by (auto simp: undoable_def)
    have "\<exists>y. revert_loop (rev (es @ fs)) x = Some y \<and> sim y s" if "sim x u" for x
      using fs(2) [OF that] es(2) by (auto simp: revert_loop_append)
    then show ?thesis using es(1) fs(1) by (intro exI [of _ "es @ fs"]) simp
  qed
  then show ?thesis using assms grows_trans by (auto simp: undoable_def)
qed

text \<open>A change without a journal entry that leads to a like state.\<close>
lemma undoable_silent:
  assumes "sim s' s" "entries s' = entries s" "grows s s'"
  shows "undoable s s'"
  using assms by (auto simp: undoable_def intro: sim_trans)

lemma sim_journal [simp]: "sim (s\<lparr>db_journal := j\<rparr>) t = sim s t"
  by (simp add: sim_def)

text \<open>A change with one entry.\<close>
lemma undoable_entry:
  assumes "entries s' = entries s @ [e]" "grows s s'"
    "\<And>t. \<lbrakk>db_ok s; sim t s'\<rbrakk> \<Longrightarrow> \<exists>t'. revert_entry e t = Some t' \<and> sim t' s"
  shows "undoable s s'"
proof -
  have "\<exists>t'. revert_loop (rev [e]) t = Some t' \<and> sim t' s" if "db_ok s" "sim t s'" for t
    using assms(3) [OF that] by (auto simp: Let_def)
  then show ?thesis unfolding undoable_def using assms(1,2) by blast
qed

lemma grows_objects:
  assumes "db_ok s \<Longrightarrow> db_ok s'" "validRevisions s' = validRevisions s" "nextRevisionId s' = nextRevisionId s"
  shows "grows s s'"
  using assms by (auto simp: grows_def revs_ok_def)


subsection \<open>Every setter is undoable\<close>

lemma on_object_sim:
  assumes "sim t s'" "peek s' a = Some ob'" "\<not> so_deleted ob'"
    and g: "\<And>ob''. sim_obj a ob'' ob' \<Longrightarrow> \<exists>ob3. g ob'' = Some ob3 \<and> sim_obj a ob3 ob"
    and s: "\<And>b. b \<noteq> a \<Longrightarrow> peek s' b = peek s b" "peek s a = Some ob" "refund s' = refund s" "trie s' = trie s"
      "db_accessList s' = db_accessList s"
  shows "\<exists>t'. on_object t a g = Some t' \<and> sim t' s"
proof -
  have "rel_option (sim_obj a) (peek t a) (Some ob')" using assms(1,2) by (metis sim_def)
  then obtain ob'' where ob'': "peek t a = Some ob''" "sim_obj a ob'' ob'"
    by (cases rule: option.rel_cases) auto
  then obtain ob3 where ob3: "g ob'' = Some ob3" "sim_obj a ob3 ob" using g by blast
  have "visible t a = Some ob''" using ob'' assms(3) by (simp add: visible_def sim_obj_def)
  then have "on_object t a g = Some (put t a ob3)"
    using ob3(1) by (simp add: on_object_def getStateObject_Some put_def)
  moreover have "sim (put t a ob3) s"
  proof (rule simI [of a])
    show "rel_option (sim_obj b) (peek (put t a ob3) b) (peek s b)" if "b \<noteq> a" for b
      using assms(1) s(1) [OF that] that unfolding sim_def by (metis put_simps(1))
  qed (use assms(1) s ob3(2) in \<open>simp_all add: sim_def put_def\<close>)
  ultimately show ?thesis by blast
qed

text \<open>The entry leads back from the changed object to the old one.\<close>
definition entry_undoes :: "address \<Rightarrow> journalEntry \<Rightarrow> stateObject \<Rightarrow> stateObject \<Rightarrow> bool" where
  "entry_undoes a e ob' ob \<longleftrightarrow> so_address ob' = so_address ob \<and> so_deleted ob' = so_deleted ob \<and>
    (a_Worm (so_data ob) \<noteq> None \<longrightarrow> a_Worm (so_data ob') \<noteq> None) \<and>
    (a_Csbt (so_data ob) \<noteq> None \<longrightarrow> a_Csbt (so_data ob') \<noteq> None) \<and>
    (a_Staker (so_data ob) \<noteq> None \<longrightarrow> a_Staker (so_data ob') \<noteq> None) \<and>
    (\<exists>g. revert_entry e = (\<lambda>t. on_object t a g) \<and>
      (\<forall>ob''. sim_obj a ob'' ob' \<longrightarrow> (\<exists>ob3. g ob'' = Some ob3 \<and> sim_obj a ob3 ob)))"

lemma so_write_undoable:
  assumes "live s a" "so_write s a f = Some s'"
    and f: "\<And>ob e ob'. f ob = Some (e, ob') \<Longrightarrow> entry_undoes a e ob' ob"
  shows "undoable s s'" "keeps s s'"
proof -
  obtain ob where ob: "stateObjects s a = Some ob" "\<not> so_deleted ob" using assms(1) by (auto simp: live_def)
  then obtain e ob' where e: "f ob = Some (e, ob')"
    and s': "s' = (db_append s e)\<lparr>stateObjects := (stateObjects s)(a \<mapsto> ob')\<rparr>"
    using assms(2) by (auto simp: so_write_def split: Option.bind_splits)
  obtain g where u: "so_address ob' = so_address ob" "so_deleted ob' = so_deleted ob"
    "revert_entry e = (\<lambda>t. on_object t a g)"
    "\<And>ob''. sim_obj a ob'' ob' \<Longrightarrow> \<exists>ob3. g ob'' = Some ob3 \<and> sim_obj a ob3 ob"
    using f [OF e] by (auto simp: entry_undoes_def)
  have peek: "peek s' b = (if b = a then Some ob' else peek s b)" for b
    by (simp add: s' peek_def db_append_def split: option.split)
  show "keeps s s'"
    using ob(1) f [OF e] by (auto simp: keeps_def has_defs s' db_append_def entry_undoes_def)
  show "undoable s s'"
  proof (rule undoable_entry [of s' s e])
    show "entries s' = entries s @ [e]" by (simp add: s' db_append_def j_append_def)
    show "grows s s'" using ob(1) u(1) by (intro grows_objects) (auto simp: s' db_append_def db_ok_def objects_ok_def)
    show "\<exists>t'. revert_entry e t = Some t' \<and> sim t' s" if "sim t s'" for t
      unfolding u(3)
    proof (rule on_object_sim [OF that _ _ u(4)])
      show "refund s' = refund s" "trie s' = trie s" "db_accessList s' = db_accessList s"
        by (simp_all add: s' db_append_def)
    qed (simp_all add: peek u(2) ob peek_live)
  qed
qed

lemma entry_undoesI:
  assumes "\<And>t. revert_entry e t = on_object t a g" "so_address ob' = so_address ob" "so_deleted ob' = so_deleted ob"
    "(a_Worm (so_data ob) \<noteq> None \<longrightarrow> a_Worm (so_data ob') \<noteq> None) \<and>
      (a_Csbt (so_data ob) \<noteq> None \<longrightarrow> a_Csbt (so_data ob') \<noteq> None) \<and>
      (a_Staker (so_data ob) \<noteq> None \<longrightarrow> a_Staker (so_data ob') \<noteq> None)"
    "\<And>ob''. sim_obj a ob'' ob' \<Longrightarrow> \<exists>ob3. g ob'' = Some ob3 \<and> sim_obj a ob3 ob"
  shows "entry_undoes a e ob' ob"
proof -
  have "revert_entry e = (\<lambda>t. on_object t a g)" using assms(1) by (rule ext)
  then show ?thesis unfolding entry_undoes_def using assms(2-5) by (intro conjI exI [of _ g]) auto
qed

text \<open>Computations, with and without a value, that do nothing but undoable changes.\<close>

definition safe :: "StateDB option \<Rightarrow> StateDB \<Rightarrow> bool" where
  "safe r s \<longleftrightarrow> (\<forall>s'. r = Some s' \<longrightarrow> undoable s s' \<and> keeps s s')"

definition safeR :: "('r \<times> StateDB) option \<Rightarrow> StateDB \<Rightarrow> bool" where
  "safeR r s \<longleftrightarrow> (\<forall>x s'. r = Some (x, s') \<longrightarrow> undoable s s' \<and> keeps s s')"

lemma safe_write:
  "\<lbrakk>live s a; \<And>ob e ob'. f ob = Some (e, ob') \<Longrightarrow> entry_undoes a e ob' ob\<rbrakk> \<Longrightarrow> safe (so_write s a f) s"
  using so_write_undoable unfolding safe_def by blast

lemmas undo_simps = sim_obj_def setter_defs with_defs account_of_def nil_defs

text \<open>The new object, the reverted entry, and that one undoes the other.\<close>
lemma safe_setters:
  assumes "live s a"
  shows "safe (so_SetBalance s a v) s" "safe (so_SetNonce s a n) s" "safe (so_SetExtra s a x) s"
    "safe (so_SetOwner s a o1) s" "safe (so_SetNFTInfo s a o1 o2) s" "safe (so_CleanNFT s a) s"
    "safe (so_SetStakerPledge s a sx) s" "safe (so_SetValidatorExtension s a vx) s"
    "safe (so_SetPledgedBalance s a v) s" "safe (so_SetPledgedBlockNumber s a v) s"
    "safe (so_SetCoefficient s a c) s" "safe (so_SetValidatorProxy s a o1) s"
    "safe (so_SetUserMint s a v) s" "safe (so_SetOfficialMint s a v) s"
    "safe (so_SetValidators s a vl) s" "safe (so_SetStakers s a sl) s"
  unfolding so_SetBalance_def so_SetNonce_def so_SetExtra_def so_SetOwner_def so_SetNFTInfo_def so_CleanNFT_def
    so_SetStakerPledge_def so_SetValidatorExtension_def so_SetPledgedBalance_def so_SetPledgedBlockNumber_def
    so_SetCoefficient_def so_SetValidatorProxy_def so_SetUserMint_def so_SetOfficialMint_def
    so_SetValidators_def so_SetStakers_def Let_def
  by (rule safe_write [OF assms], clarsimp simp: Option.bind_eq_Some_conv,
    rule entry_undoesI, rule revert_entry.simps; clarsimp simp: undo_simps)+


subsection \<open>Loading and creating objects\<close>

abbreviation create_entry :: "StateDB \<Rightarrow> address \<Rightarrow> journalEntry" where
  "create_entry s a \<equiv> (case peek s a of None \<Rightarrow> createObjectChange a | Some p \<Rightarrow> resetObjectChange p)"

lemma createObject_entry:
  assumes "visible s a = None"
  shows "createObject (s\<lparr>stateObjects := (stateObjects s)(a := peek s a)\<rparr>) a =
    (None, put (db_append s (create_entry s a)) a (newObject a Account_zero))"
  using assms
  by (auto simp: createObject_def getDeletedStateObject_eq Let_def visible_def put_def
    setStateObject_def db_append_def split: option.splits if_splits)

lemma get_or_new_put:
  "visible s a = Some ob \<Longrightarrow> GetOrNewStateObject s a = put s a ob"
  "visible s a = Some ob \<Longrightarrow> GetOrNewAccountStateObject s a = put s a (init_Worm ob)"
  "visible s a = Some ob \<Longrightarrow> GetOrNewNFTStateObject s a = put s a (init_Csbt ob)"
  "visible s a = Some ob \<Longrightarrow> GetOrNewStakerStateObject s a = put s a (init_Staker a ob)"
  by (simp_all add: GetOrNewStateObject_def GetOrNewAccountStateObject_def GetOrNewNFTStateObject_def
    GetOrNewStakerStateObject_def getStateObject_Some)

lemma get_or_new_create:
  assumes "visible s a = None"
  shows "GetOrNewStateObject s a = put (db_append s (create_entry s a)) a (newObject a Account_zero)"
    "GetOrNewAccountStateObject s a = put (db_append s (create_entry s a)) a (init_Worm (newObject a Account_zero))"
    "GetOrNewNFTStateObject s a = put (db_append s (create_entry s a)) a (init_Csbt (newObject a Account_zero))"
    "GetOrNewStakerStateObject s a = put (db_append s (create_entry s a)) a (init_Staker a (newObject a Account_zero))"
  using createObject_entry [OF assms] assms
  by (simp_all add: GetOrNewStateObject_def GetOrNewAccountStateObject_def GetOrNewNFTStateObject_def
    GetOrNewStakerStateObject_def getStateObject_eq newObject_def Account_zero_def setter_defs init_Worm_def)

lemma init_sim:
  "sim_obj a (init_Worm ob) ob" "sim_obj a (init_Csbt ob) ob" "sim_obj a (init_Staker a ob) ob"
  by (auto simp: init_Worm_def Let_def undo_simps WormholesExtension_zero_def split: option.split)

lemma put_undoable:
  assumes "visible s a = Some ob" "sim_obj a ob' ob"
  shows "undoable s (put s a ob')"
proof (rule undoable_silent)
  have ob: "peek s a = Some ob" using assms(1) by (auto simp: visible_def split: option.splits if_splits)
  show "sim (put s a ob') s"
    using ob assms(2) by (intro simI [of a]) (auto simp: put_def option.rel_refl)
  show "grows s (put s a ob')"
    using ob assms(2) db_ok_peek [of s a ob]
    by (intro grows_objects) (auto simp: put_def db_ok_def objects_ok_def sim_obj_def)
qed simp

lemma create_undoable:
  assumes "visible s a = None" "so_address ob' = a"
  shows "undoable s (put (db_append s (create_entry s a)) a ob')"
proof (rule undoable_entry)
  let ?e = "create_entry s a" let ?s = "put (db_append s ?e) a ob'"
  show "entries ?s = entries s @ [?e]" by (simp add: db_append_def j_append_def)
  show "grows s ?s" using assms(2) by (intro grows_objects) (auto simp: put_def db_append_def db_ok_def objects_ok_def)
  show "\<exists>t'. revert_entry ?e t = Some t' \<and> sim t' s" if "db_ok s" "sim t ?s" for t
  proof -
    have t: "trie t = trie s" "refund t = refund s" "db_accessList t = db_accessList s"
      using that(2) unfolding sim_def by (auto simp: put_def db_append_def)
    have others: "rel_option (sim_obj b) (peek t b) (peek s b)" if "b \<noteq> a" for b
      using \<open>sim t ?s\<close> that unfolding sim_def by (metis put_simps(1) peek_journal(2))
    show ?thesis
    proof (cases "peek s a")
      case None
      let ?t = "t\<lparr>stateObjects := (stateObjects t)(a := None), stateObjectsDirty := stateObjectsDirty t - {a}\<rparr>"
      have "trie s a = None" using None by (auto simp: peek_def split: option.splits)
      moreover have "peek ?t b = peek t b" if "b \<noteq> a" for b using that by (simp add: peek_def split: option.split)
      ultimately have "sim ?t s" using t others None by (intro simI [of a]) (auto simp: peek_def [of ?t a])
      then show ?thesis using None by simp
    next
      case (Some p)
      then have "so_address p = a" using that(1) by (simp add: db_ok_peek)
      then have "sim (setStateObject t p) s"
        using Some t others by (intro simI [of a]) (auto simp: setStateObject_def)
      then show ?thesis using Some by simp
    qed
  qed
qed

lemma load_undoable: "undoable s (s\<lparr>stateObjects := (stateObjects s)(a := peek s a)\<rparr>)"
proof (rule undoable_silent)
  show "sim (s\<lparr>stateObjects := (stateObjects s)(a := peek s a)\<rparr>) s"
    by (rule sim_cong [OF sim_refl]) simp_all
  show "grows s (s\<lparr>stateObjects := (stateObjects s)(a := peek s a)\<rparr>)"
    using db_ok_peek [of s a] by (intro grows_objects) (auto simp: db_ok_def objects_ok_def)
qed simp

lemma get_or_new_undoable:
  "undoable s (GetOrNewStateObject s a)" "undoable s (GetOrNewAccountStateObject s a)"
  "undoable s (GetOrNewNFTStateObject s a)" "undoable s (GetOrNewStakerStateObject s a)"
  "undoable s (snd (getStateObject s a))"
proof -
  have addr: "so_address (init_Worm (newObject a Account_zero)) = a"
    "so_address (init_Csbt (newObject a Account_zero)) = a"
    "so_address (init_Staker a (newObject a Account_zero)) = a"
    using init_sim [of a "newObject a Account_zero"] by (simp_all add: sim_obj_def)
  show "undoable s (GetOrNewStateObject s a)" "undoable s (GetOrNewAccountStateObject s a)"
    "undoable s (GetOrNewNFTStateObject s a)" "undoable s (GetOrNewStakerStateObject s a)"
    using addr put_undoable create_undoable init_sim
    by (cases "visible s a"; simp only: get_or_new_put get_or_new_create newObject_simps sim_obj_refl)+
  show "undoable s (snd (getStateObject s a))" by (simp add: getStateObject_eq load_undoable)
qed


subsection \<open>Composing computations\<close>

lemma safe_return: "safe (Some s) s"
  and safe_None: "safe None s"
  and safeR_return: "safeR (Some (x, s)) s"
  and safeR_None: "safeR None s"
  by (simp_all add: safe_def safeR_def)

lemma safe_bind:
  assumes "safe r s" "\<And>s'. keeps s s' \<Longrightarrow> safe (k s') s'"
  shows "safe (Option.bind r k) s"
  using assms unfolding safe_def by (cases r) (auto intro: undoable_trans keeps_trans)

lemma safeR_bind:
  assumes "safe r s" "\<And>s'. keeps s s' \<Longrightarrow> safeR (k s') s'"
  shows "safeR (Option.bind r k) s"
  using assms unfolding safe_def safeR_def
  by (cases r) (auto dest!: meta_spec intro: undoable_trans keeps_trans)

lemma safe_bindR:
  assumes "safeR r s" "\<And>x s'. keeps s s' \<Longrightarrow> safe (k x s') s'"
  shows "safe (Option.bind r (\<lambda>(x, s'). k x s')) s"
  using assms unfolding safe_def safeR_def by (cases r) (auto intro: undoable_trans keeps_trans)

lemma safeR_bindR:
  assumes "safeR r s" "\<And>x s'. keeps s s' \<Longrightarrow> safeR (k x s') s'"
  shows "safeR (Option.bind r (\<lambda>(x, s'). k x s')) s"
  using assms unfolding safeR_def by (cases r) (auto intro: undoable_trans keeps_trans)

lemma safe_read: "(\<And>v. safe (k v) s) \<Longrightarrow> safe (Option.bind r k) s"
  and safeR_read: "(\<And>v. safeR (k' v) s) \<Longrightarrow> safeR (Option.bind r k') s"
  by (cases r; simp add: safe_def safeR_def)+

lemma safe_if: "\<lbrakk>b \<Longrightarrow> safe r s; \<not> b \<Longrightarrow> safe r' s\<rbrakk> \<Longrightarrow> safe (if b then r else r') s"
  and safeR_if: "\<lbrakk>b \<Longrightarrow> safeR q s; \<not> b \<Longrightarrow> safeR q' s\<rbrakk> \<Longrightarrow> safeR (if b then q else q') s"
  by simp_all

lemma safe_Let: "(\<And>v. safe (k v) s) \<Longrightarrow> safe (Let x k) s"
  and safeR_Let: "(\<And>v. safeR (k' v) s) \<Longrightarrow> safeR (Let x k') s"
  by (simp_all add: Let_def)

lemma safeR_sum:
  "\<lbrakk>\<And>e. safeR (f e) s; \<And>v. safeR (g v) s\<rbrakk> \<Longrightarrow> safeR (case x of Inl e \<Rightarrow> f e | Inr v \<Rightarrow> g v) s"
  by (cases x) simp_all

lemma safe_pre: "\<lbrakk>undoable s t; keeps s t; safe r t\<rbrakk> \<Longrightarrow> safe r s"
  and safeR_pre: "\<lbrakk>undoable s t; keeps s t; safeR q t\<rbrakk> \<Longrightarrow> safeR q s"
  unfolding safe_def safeR_def by (blast intro: undoable_trans keeps_trans)+

lemma safe_lookups:
  "(\<And>t. \<lbrakk>keeps s t; live t a\<rbrakk> \<Longrightarrow> safe (k t) t) \<Longrightarrow> safe (let t = GetOrNewStateObject s a in k t) s"
  "(\<And>t. \<lbrakk>keeps s t; live t a\<rbrakk> \<Longrightarrow> safe (k t) t) \<Longrightarrow> safe (let t = GetOrNewAccountStateObject s a in k t) s"
  "(\<And>t. \<lbrakk>keeps s t; live t a\<rbrakk> \<Longrightarrow> safe (k t) t) \<Longrightarrow> safe (let t = GetOrNewNFTStateObject s a in k t) s"
  "(\<And>t. \<lbrakk>keeps s t; live t a\<rbrakk> \<Longrightarrow> safe (k t) t) \<Longrightarrow> safe (let t = GetOrNewStakerStateObject s a in k t) s"
  unfolding Let_def using get_or_new_undoable [of s a]
  by (blast intro: safe_pre GetOrNewAccount GetOrNewNFT GetOrNewStaker GetOrNewState has_live)+

lemma safeR_lookups:
  "(\<And>t. \<lbrakk>keeps s t; live t a\<rbrakk> \<Longrightarrow> safeR (k t) t) \<Longrightarrow> safeR (let t = GetOrNewStateObject s a in k t) s"
  "(\<And>t. \<lbrakk>keeps s t; live t a\<rbrakk> \<Longrightarrow> safeR (k t) t) \<Longrightarrow> safeR (let t = GetOrNewAccountStateObject s a in k t) s"
  "(\<And>t. \<lbrakk>keeps s t; live t a\<rbrakk> \<Longrightarrow> safeR (k t) t) \<Longrightarrow> safeR (let t = GetOrNewNFTStateObject s a in k t) s"
  "(\<And>t. \<lbrakk>keeps s t; live t a\<rbrakk> \<Longrightarrow> safeR (k t) t) \<Longrightarrow> safeR (let t = GetOrNewStakerStateObject s a in k t) s"
  unfolding Let_def using get_or_new_undoable [of s a]
  by (blast intro: safeR_pre GetOrNewAccount GetOrNewNFT GetOrNewStaker GetOrNewState has_live)+

lemma so_touch_undoable: "undoable s (so_touch s a)"
proof (rule undoable_entry)
  show "entries (so_touch s a) = entries s @ [touchChange a]"
    by (simp add: so_touch_def Let_def db_append_def j_append_def j_dirty_def)
  show "grows s (so_touch s a)"
    by (rule grows_objects) (auto simp: so_touch_def Let_def db_append_def db_ok_def objects_ok_def)
  show "\<exists>t'. revert_entry (touchChange a) t = Some t' \<and> sim t' s" if "sim t (so_touch s a)" for t
  proof -
    have "refund (so_touch s a) = refund s" "trie (so_touch s a) = trie s"
      "db_accessList (so_touch s a) = db_accessList s"
      by (simp_all add: so_touch_def Let_def db_append_def)
    with that show ?thesis by (simp add: sim_def)
  qed
qed

lemma safe_touch: "safe (Some (so_touch s a)) s"
  by (simp add: safe_def so_touch_undoable keeps_same_objects)

lemmas safe_rules = safe_return safeR_return safe_None safeR_None safe_touch safe_lookups safeR_lookups safe_setters
  safe_if safeR_if safeR_sum safe_Let safeR_Let

lemma safe_changes:
  assumes "live s a"
  shows "safe (so_AddBalance s a v) s" "safe (so_SubBalance s a v) s" "safe (so_ChangeNFTOwner s a o1) s"
    "safe (so_StakerPledge s a b v n) s" "safe (so_RemoveStakerPledge s a b v) s"
    "safe (so_AddValidatorExtension s a b v n) s" "safe (so_RemoveValidatorExtension s a b v) s"
    "safe (so_AddPledgedBalance s a v) s" "safe (so_SubPledgedBalance s a v) s"
    "safe (so_AddCoefficient s a c) s" "safe (so_SubCoefficient s a c) s" "safe (so_RemoveCoefficient s a) s"
    "safe (so_AddUserMint s a v) s" "safe (so_AddOfficialMint s a v) s"
    "safe (so_AddStaker s a b v) s" "safe (so_RemoveStaker s a b v) s" "safe (so_CancelStaker s a b) s"
  unfolding so_AddBalance_def so_SubBalance_def so_ChangeNFTOwner_def so_StakerPledge_def
    so_RemoveStakerPledge_def so_AddValidatorExtension_def so_RemoveValidatorExtension_def
    so_AddPledgedBalance_def so_SubPledgedBalance_def so_AddCoefficient_def so_SubCoefficient_def
    so_RemoveCoefficient_def so_AddUserMint_def so_AddOfficialMint_def so_AddStaker_def so_RemoveStaker_def
    so_CancelStaker_def
  by (rule safe_rules safe_read assms)+

lemma safe_validators: "live s a \<Longrightarrow> safeR (change_validators s a f) s"
  unfolding change_validators_def case_prod_unfold
  by (rule safe_rules safeR_bind safeR_read | assumption)+


subsection \<open>Refunds, self-destruction and nested snapshots\<close>

lemma refund_undoable:
  "undoable s ((db_append s (refundChange (refund s)))\<lparr>refund := r\<rparr>)"
proof (rule undoable_entry)
  let ?s = "(db_append s (refundChange (refund s)))\<lparr>refund := r\<rparr>"
  show "entries ?s = entries s @ [refundChange (refund s)]" by (simp add: db_append_def j_append_def)
  show "grows s ?s" by (rule grows_objects) (simp_all add: db_append_def db_ok_def objects_ok_def)
  show "\<exists>t'. revert_entry (refundChange (refund s)) t = Some t' \<and> sim t' s" if "sim t ?s" for t
    using that by (simp add: sim_def db_append_def)
qed

text \<open>Changes of the access list only, undone by entries that restore it.\<close>
lemma access_undoable:
  assumes s': "s' = s\<lparr>db_accessList := al, db_journal := j\<rparr>" and es: "j_entries j = entries s @ es"
    and al: "al_ok (db_accessList s) \<Longrightarrow> al_ok al"
    and undo: "\<And>t. \<lbrakk>al_ok (db_accessList s); db_accessList t = al\<rbrakk> \<Longrightarrow>
      \<exists>j'. revert_loop (rev es) t = Some (t\<lparr>db_accessList := db_accessList s, db_journal := j'\<rparr>)"
  shows "undoable s s'"
proof -
  have "grows s s'" using al by (intro grows_objects) (simp_all add: s' db_ok_def objects_ok_def)
  moreover have "\<exists>t'. revert_loop (rev es) t = Some t' \<and> sim t' s" if ok: "db_ok s" and t: "sim t s'" for t
  proof -
    have "db_accessList t = al" using t by (simp add: sim_def s')
    then obtain j' where "revert_loop (rev es) t = Some (t\<lparr>db_accessList := db_accessList s, db_journal := j'\<rparr>)"
      using undo [of t] ok unfolding db_ok_def by blast
    then show ?thesis using t by (simp add: sim_def s')
  qed
  ultimately show ?thesis unfolding undoable_def using es s' by auto
qed

lemma AddAddress_undoable: "undoable s (AddAddressToAccessList s a)"
proof -
  obtain added al where add: "AddAddress (db_accessList s) a = (added, al)" by fastforce
  note al = AddAddress_undo [OF add]
  show ?thesis
  proof (cases added)
    case True
    show ?thesis
      by (rule access_undoable [where s = s and al = al and es = "[accessListAddAccountChange a]"])
        (use add True al in \<open>auto simp: AddAddressToAccessList_def db_append_def j_append_def Let_def\<close>)
  next
    case False
    then have "AddAddressToAccessList s a = s" using add al(2) by (simp add: AddAddressToAccessList_def)
    then show ?thesis by simp
  qed
qed

lemma AddSlot_undoable:
  assumes "AddSlotToAccessList s a k = Some s'"
  shows "undoable s s'"
proof (cases "db_ok s")
  case False
  have "validRevisions s' = validRevisions s" "nextRevisionId s' = nextRevisionId s"
    using assms by (auto simp: AddSlotToAccessList_def Let_def db_append_def Option.bind_eq_Some_conv)
  then show ?thesis using False by (simp add: undoable_def grows_def revs_ok_def)
next
  case True
  let ?al = "db_accessList s"
  have ok: "al_ok ?al" using True by (simp add: db_ok_def)
  consider "al_addresses ?al a = None \<or> al_addresses ?al a = Some (-1)"
    | idx where "al_addresses ?al a = Some idx" "idx \<noteq> -1" "k \<notin> al_slots ?al ! nat idx"
    | idx where "al_addresses ?al a = Some idx" "idx \<noteq> -1" "k \<in> al_slots ?al ! nat idx"
    by (cases "al_addresses ?al a") auto
  then show ?thesis
  proof cases
    case 1
    obtain al where al: "AddSlot ?al a k = Some ((al_addresses ?al a = None, True), al)" "al_ok al"
      "DeleteSlot al a k = Some (?al\<lparr>al_addresses := (al_addresses ?al)(a \<mapsto> -1)\<rparr>)"
      using AddSlot_new [OF ok 1, of k] by blast
    let ?es = "[accessListAddAccountChange a, accessListAddSlotChange a k]"
    show ?thesis
    proof (cases "al_addresses ?al a")
      case None
      show ?thesis
        by (rule access_undoable [where s = s and al = al and es = ?es])
          (use assms al None in \<open>auto simp: AddSlotToAccessList_def db_append_def j_append_def Let_def
            DeleteAddress_def fun_upd_idem\<close>)
    next
      case (Some idx)
      show ?thesis
        by (rule access_undoable [where s = s and al = al and es = "[accessListAddSlotChange a k]"])
          (use assms al Some 1 in \<open>auto simp: AddSlotToAccessList_def db_append_def j_append_def Let_def
            fun_upd_idem\<close>)
    qed
  next
    case 2
    obtain al where al: "AddSlot ?al a k = Some ((False, True), al)" "al_ok al" "DeleteSlot al a k = Some ?al"
      using AddSlot_more [OF ok 2] by blast
    show ?thesis
      by (rule access_undoable [where s = s and al = al and es = "[accessListAddSlotChange a k]"])
        (use assms al in \<open>auto simp: AddSlotToAccessList_def db_append_def j_append_def Let_def\<close>)
  next
    case 3
    then have "s' = s" using AddSlot_same [OF ok 3] assms by (simp add: AddSlotToAccessList_def)
    then show ?thesis by simp
  qed
qed

lemma AddSlot_total: "db_ok s \<Longrightarrow> \<exists>s'. AddSlotToAccessList s a k = Some s'"
proof -
  let ?al = "db_accessList s"
  assume "db_ok s"
  then have ok: "al_ok ?al" by (simp add: db_ok_def)
  consider "al_addresses ?al a = None \<or> al_addresses ?al a = Some (-1)"
    | idx where "al_addresses ?al a = Some idx" "idx \<noteq> -1" by (cases "al_addresses ?al a") auto
  then show ?thesis
    by cases (use AddSlot_new [OF ok, of a k] AddSlot_more [OF ok, of a _ k] AddSlot_same [OF ok, of a _ k] in
      \<open>fastforce simp: AddSlotToAccessList_def Let_def\<close>)+
qed

lemma Suicide_undoable: "undoable s (snd (Suicide s a))"
proof (cases "visible s a")
  case None
  then show ?thesis by (simp add: Suicide_def getStateObject_eq load_undoable)
next
  case (Some ob)
  let ?e = "suicideChange a (so_suicided ob) (a_Balance (so_data ob))"
  let ?ob = "setBalance 0 (ob\<lparr>so_suicided := True\<rparr>)"
  let ?s = "put (db_append s ?e) a ?ob"
  have ob: "peek s a = Some ob" "\<not> so_deleted ob"
    using Some by (auto simp: visible_def split: option.splits if_splits)
  have "undoable s ?s"
  proof (rule undoable_entry)
    show "entries ?s = entries s @ [?e]" by (simp add: db_append_def j_append_def)
    show "grows s ?s"
      using db_ok_peek [OF _ ob(1)]
      by (intro grows_objects) (auto simp: put_def db_append_def db_ok_def objects_ok_def setBalance_def)
    show "\<exists>t'. revert_entry ?e t = Some t' \<and> sim t' s" if t: "sim t ?s" for t
    proof -
      have "rel_option (sim_obj a) (peek t a) (peek ?s a)" using t unfolding sim_def by blast
      then obtain ob' where ob': "peek t a = Some ob'" "sim_obj a ob' ?ob"
        by (cases rule: option.rel_cases) auto
      then have "visible t a = Some ob'" using ob(2) by (simp add: visible_def sim_obj_def setBalance_def)
      then have "revert_entry ?e t = Some (put t a (setBalance (a_Balance (so_data ob)) (ob'\<lparr>so_suicided := so_suicided ob\<rparr>)))"
        by (simp add: getStateObject_Some put_def)
      moreover have "sim (put t a (setBalance (a_Balance (so_data ob)) (ob'\<lparr>so_suicided := so_suicided ob\<rparr>))) s"
      proof (rule simI [of a])
        show "rel_option (sim_obj b) (peek (put t a (setBalance (a_Balance (so_data ob)) (ob'\<lparr>so_suicided := so_suicided ob\<rparr>))) b)
            (peek s b)" if "b \<noteq> a" for b
          using t that unfolding sim_def by (metis put_simps(1) peek_journal(2))
      qed (use t ob ob'(2) in \<open>auto simp: sim_def put_def db_append_def undo_simps\<close>)
      ultimately show ?thesis by blast
    qed
  qed
  then show ?thesis using Some by (simp add: Suicide_def getStateObject_Some put_def db_append_def)
qed

lemma Snapshot_undoable: "undoable s (snd (Snapshot s))"
  by (rule undoable_silent [OF sim_cong [OF sim_refl]])
    (auto simp: Snapshot_def Let_def grows_def db_ok_def objects_ok_def revs_ok_def sorted_wrt_append less_SucI)

text \<open>The search for the revision finds the entry that Snapshot has appended.\<close>
lemma find_revision:
  assumes "revs_ok s" "validRevisions s = vr @ r # rs"
  shows "sort_Search (length (validRevisions s)) (\<lambda>i. rev_id r \<le> rev_id (validRevisions s ! i)) = length vr"
proof -
  let ?vr = "validRevisions s" let ?f = "\<lambda>i. rev_id r \<le> rev_id (?vr ! i)"
  let ?k = "sort_Search (length ?vr) ?f"
  have less: "rev_id (?vr ! i) < rev_id (?vr ! j)" if "i < j" "j < length ?vr" for i j
    using assms(1) that sorted_wrt_nth_less [of "(<)" "map rev_id ?vr" i j] by (simp add: revs_ok_def)
  have mono: "?f j" if "?f i" "i \<le> j" "j < length ?vr" for i j
    using that less [of i j] by (cases "i = j") auto
  have r: "?vr ! length vr = r" "length vr < length ?vr" using assms(2) by simp_all
  have k: "\<And>x. x < ?k \<Longrightarrow> \<not> ?f x" "?k < length ?vr \<Longrightarrow> ?f ?k"
    using sort_Search_least(2,3) [of ?f "length ?vr"] mono by blast+
  show ?thesis
  proof (rule antisym)
    show "?k \<le> length vr" using k(1) [of "length vr"] r(1) by (auto intro: leI)
    show "length vr \<le> ?k" using k(2) less [of ?k "length vr"] r by (fastforce intro: leI)
  qed
qed

lemma on_object_eq:
  "on_object s a g = (case visible s a of None \<Rightarrow> None | Some ob \<Rightarrow> map_option (put s a) (g ob))"
proof (cases "visible s a")
  case (Some ob)
  then show ?thesis
    by (cases "g ob") (simp_all add: on_object_def getStateObject_Some put_def)
qed (simp add: on_object_def getStateObject_eq)

lemma on_object_keeps:
  assumes "on_object s a g = Some s'" "\<And>ob ob'. g ob = Some ob' \<Longrightarrow> so_address ob' = so_address ob"
  shows "db_journal s' = db_journal s \<and> validRevisions s' = validRevisions s \<and>
    nextRevisionId s' = nextRevisionId s \<and> (objects_ok s \<longrightarrow> objects_ok s')"
proof -
  obtain ob ob' where ob: "visible s a = Some ob" "g ob = Some ob'" "s' = put s a ob'"
    using assms(1) by (auto simp: on_object_eq split: option.splits)
  have "peek s a = Some ob" using ob(1) by (auto simp: visible_def split: option.splits if_splits)
  then have "objects_ok s \<Longrightarrow> so_address ob' = a"
    using objects_ok_peek assms(2) [OF ob(2)] by simp
  then show ?thesis using ob(3) by (auto simp: put_def objects_ok_def)
qed

lemma objects_ok_load: "objects_ok s \<Longrightarrow> objects_ok (s\<lparr>stateObjects := (stateObjects s)(a := peek s a)\<rparr>)"
  unfolding objects_ok_def using objects_ok_peek [of s a] by (auto simp: objects_ok_def)

lemma objects_ok_simps [simp]:
  "objects_ok (s\<lparr>db_journal := j\<rparr>) = objects_ok s" "objects_ok (s\<lparr>validRevisions := vr\<rparr>) = objects_ok s"
  "objects_ok (s\<lparr>db_accessList := al\<rparr>) = objects_ok s"
  by (simp_all add: objects_ok_def)

lemma objects_ok_put: "\<lbrakk>objects_ok s; so_address ob = a\<rbrakk> \<Longrightarrow> objects_ok (put s a ob)"
  by (auto simp: objects_ok_def put_def)

lemma revert_entry_keeps:
  assumes "revert_entry e s = Some s'"
  shows "db_journal s' = db_journal s \<and> validRevisions s' = validRevisions s \<and>
    nextRevisionId s' = nextRevisionId s \<and> (objects_ok s \<longrightarrow> objects_ok s')"
proof (cases e)
  case (suicideChange a p b)
  show ?thesis
  proof (cases "visible s a")
    case None
    then have "s' = s\<lparr>stateObjects := (stateObjects s)(a := peek s a)\<rparr>"
      using assms suicideChange by (simp add: getStateObject_eq)
    then show ?thesis using objects_ok_load by simp
  next
    case (Some ob)
    have "s' = put s a (setBalance b (ob\<lparr>so_suicided := p\<rparr>))"
      using assms [unfolded suicideChange] by (simp add: getStateObject_Some [OF Some] put_def)
    moreover have "peek s a = Some ob" using Some by (auto simp: visible_def split: option.splits if_splits)
    ultimately show ?thesis
      using objects_ok_peek [of s a ob] objects_ok_put [of s _ a] by (simp add: setBalance_def) (simp add: put_def)
  qed
next
  case (createObjectChange a)
  then show ?thesis using assms by (auto simp: objects_ok_def split: if_splits)
next
  case (resetObjectChange p)
  then show ?thesis using assms by (auto simp: objects_ok_def setStateObject_def split: if_splits)
next
  case (refundChange r)
  then show ?thesis using assms by (auto simp: objects_ok_def)
next
  case (touchChange a)
  then show ?thesis using assms by simp
next
  case (accessListAddAccountChange a)
  then show ?thesis using assms by (auto simp: objects_ok_def)
next
  case (accessListAddSlotChange a k)
  then show ?thesis using assms by (auto simp: objects_ok_def Option.bind_eq_Some_conv)
qed (insert assms, simp, erule on_object_keeps, clarsimp simp: setter_defs with_defs)+

lemma revert_loop_keeps:
  assumes "revert_loop es s = Some s'"
  shows "entries s' = entries s \<and> validRevisions s' = validRevisions s \<and>
    nextRevisionId s' = nextRevisionId s \<and> (objects_ok s \<longrightarrow> objects_ok s')"
  using assms
proof (induction es arbitrary: s)
  case (Cons e es)
  obtain t where t: "revert_entry e s = Some t" using Cons.prems by (cases "revert_entry e s") auto
  then have "revert_loop es (t\<lparr>db_journal := (db_journal t)\<lparr>j_dirties := dirties_drop (j_dirties (db_journal t)) e\<rparr>\<rparr>) = Some s'"
    using Cons.prems by (simp add: Let_def)
  from Cons.IH [OF this] show ?case using revert_entry_keeps [OF t] by simp
qed simp

lemma revert_to_snapshot:
  assumes "db_ok s" "revs_ok s" "undoable (snd (Snapshot s)) u"
  shows "\<exists>s'. RevertToSnapshot u (fst (Snapshot s)) = Some s' \<and> sim s' s \<and> undoable s s' \<and>
    entries s' = entries s \<and> validRevisions s' = validRevisions s"
proof -
  let ?r = "\<lparr>rev_id = nextRevisionId s, rev_journalIndex = length (entries s)\<rparr>"
  let ?s1 = "snd (Snapshot s)"
  have s1: "entries ?s1 = entries s" "validRevisions ?s1 = validRevisions s @ [?r]" "sim ?s1 s" "db_ok ?s1"
    "revs_ok ?s1"
    using assms(1,2) Snapshot_undoable [of s] sim_cong [OF sim_refl, of ?s1 s]
    by (simp_all add: Snapshot_def Let_def j_length_def undoable_def grows_def)
  have u: "grows ?s1 u" "\<exists>es. entries u = entries ?s1 @ es \<and>
      (\<forall>t. sim t u \<longrightarrow> (\<exists>t'. revert_loop (rev es) t = Some t' \<and> sim t' ?s1))"
    using assms(3) s1(4) unfolding undoable_def by blast+
  obtain es where es: "entries u = entries s @ es"
    "\<forall>t. sim t u \<longrightarrow> (\<exists>t'. revert_loop (rev es) t = Some t' \<and> sim t' ?s1)"
    using u(2) unfolding s1(1) by blast
  obtain t where t': "revert_loop (rev es) u = Some t" "sim t ?s1" using es(2) sim_refl by blast
  obtain rs where rs: "validRevisions u = validRevisions s @ ?r # rs"
    using u(1) s1(2) by (auto simp: grows_def)
  have ok: "revs_ok u" "db_ok u" "nextRevisionId s \<le> nextRevisionId u"
    using u(1) s1(4,5) by (auto simp: grows_def Snapshot_def Let_def)
  have t: "entries t = entries u" "validRevisions t = validRevisions u" "nextRevisionId t = nextRevisionId u" "objects_ok t"
    using revert_loop_keeps [OF t'(1)] ok(2) by (simp_all add: db_ok_def)
  moreover have "db_accessList t = db_accessList s" using t'(2) s1(3) by (simp add: sim_def)
  ultimately have "db_ok t" using assms(1) by (simp add: db_ok_def)
  let ?t = "t\<lparr>db_journal := (db_journal t)\<lparr>j_entries := entries s\<rparr>, validRevisions := validRevisions s\<rparr>"
  have "RevertToSnapshot u (fst (Snapshot s)) = Some ?t"
    using find_revision [OF ok(1) rs] es(1) t'(1) t rs
    by (simp add: RevertToSnapshot_def j_revert_def Snapshot_def Let_def)
  moreover have "sim ?t s"
    using sim_trans [OF t'(2) s1(3)] by (rule sim_cong) simp_all
  moreover have "grows s ?t"
    using assms(2) t \<open>db_ok t\<close> ok(3) by (auto simp: grows_def revs_ok_def db_ok_def)
  ultimately show ?thesis using undoable_silent [of ?t s] by simp
qed

end
