(* ===== verification/State_Runs.thy ===== *)
theory State_Runs
  imports Handle_CSBT Snapshot_Undo
begin

text \<open>
  Sequences of calls of the StateDB methods, with nested snapshots, as an inductive step relation.
  Whatever happens between Snapshot and RevertToSnapshot is undone, so a failing call of contract
  code leaves the ledger as it was.
\<close>

subsection \<open>The operations do nothing but undoable changes\<close>

lemmas safe_steps = safe_rules safe_changes safe_validators safe_bind safeR_bind safe_bindR safeR_bindR
  safe_read safeR_read

lemma safe_balances:
  "safe (db_AddBalance s a v) s" "safe (db_SubBalance s a v) s" "safe (db_SetBalance s a v) s"
  "safe (db_SetNonce s a n) s" "safe (db_ChangeNFTOwner s a o1) s"
  "safe (db_AddValidatorCoefficient s a c) s" "safe (db_SubValidatorCoefficient s a c) s"
  "safe (db_ChangeValidatorProxy s a o1) s"
  unfolding db_AddBalance_def db_SubBalance_def db_SetBalance_def db_SetNonce_def db_ChangeNFTOwner_def
    db_AddValidatorCoefficient_def db_SubValidatorCoefficient_def db_ChangeValidatorProxy_def
  by (rule safe_steps | assumption)+

lemma safeR_StakerPledge: "safeR (db_StakerPledge s frm a v n wh) s"
  unfolding db_StakerPledge_def
  by (rule safe_steps | assumption | erule keepsD)+

lemma safeR_getters:
  "safeR (db_GetValidatorCoefficient s a) s" "safeR (db_GetStakerPledged s a b) s"
  "safeR (db_GetPledgedBalance s a) s" "safeR (db_GetStakerPledgedBalance s a b) s"
  "safeR (db_GetNFTOwner16 s a) s" "safeR (db_GetStakerStorageAddress s) s"
  unfolding db_GetValidatorCoefficient_def db_GetStakerPledged_def db_GetPledgedBalance_def
    db_GetStakerPledgedBalance_def db_GetNFTOwner16_def db_GetStakerStorageAddress_def db_GetStakers_def
  by (rule safe_steps)+

lemma safeR_ResetMinerBecome: "safeR (db_ResetMinerBecome s a) s"
  unfolding db_ResetMinerBecome_def so_ResetemoveValidator_def so_SetValidatorAmount_def
  by (rule safe_balances safeR_getters safe_steps | assumption | erule keepsD)+

lemma safe_revocate_loop:
  "\<lbrakk>live s a; live s ValidatorStorageAddress\<rbrakk> \<Longrightarrow> safe (revocate_loop s a sts) s"
proof (induction sts arbitrary: s)
  case (Cons st sts)
  show ?case
    unfolding revocate_loop.simps so_RemoveValidator_def
    by (rule safe_steps Cons | assumption | erule keepsD)+
qed (simp add: safe_return)

lemma safe_RevocateAllStakers: "safe (db_RevocateAllStakers s a) s"
  unfolding db_RevocateAllStakers_def
  by (rule safe_revocate_loop safe_steps | assumption | erule keepsD)+

lemma safe_take_pledge:
  "\<lbrakk>live s frm; live s a; live s ValidatorStorageAddress\<rbrakk> \<Longrightarrow> safe (take_pledge s frm a v) s"
  unfolding take_pledge_def so_RemoveValidator_def
  by (rule safe_steps | assumption | erule keepsD)+

lemma safeR_NewCancelStakerPledge: "safeR (db_NewCancelStakerPledge s frm a v) s"
  unfolding db_NewCancelStakerPledge_def
  by (rule safe_take_pledge safe_RevocateAllStakers safe_steps | assumption | erule keepsD)+

lemma safeR_GetBalance:
  assumes "\<And>b t. keeps s t \<Longrightarrow> safeR (k b t) t"
  shows "safeR (case db_GetBalance s a of (b, t) \<Rightarrow> k b t) s"
proof -
  have "undoable s (snd (db_GetBalance s a))"
    by (auto simp: db_GetBalance_def getStateObject_eq load_undoable split: option.split)
  then show ?thesis
    using assms GetBalance_ledger(3) [of s a] by (cases "db_GetBalance s a") (auto intro: safeR_pre)
qed

lemma safeR_CanTransfer:
  assumes "\<And>b t. keeps s t \<Longrightarrow> safeR (k b t) t"
  shows "safeR (case CanTransfer s a v of (b, t) \<Rightarrow> k b t) s"
  using safeR_GetBalance [of s "\<lambda>b. k (v \<le> b)" a] assms by (simp add: CanTransfer_def split: prod.splits)

lemma safe_Transfer: "safe (Transfer s a b v) s"
  unfolding Transfer_def by (rule safe_balances safe_steps)+

lemma safeR_prod: "(\<And>x y. safeR (f x y) s) \<Longrightarrow> safeR (case p of (x, y) \<Rightarrow> f x y) s"
  by (cases p) simp

lemma safeR_contexts:
  "safeR (VerifyCSBTOwner s str a) s" "safeR (TransferCSBT s str a) s" "safeR (IsExistStakerStorageAddress s a) s"
  unfolding VerifyCSBTOwner_def TransferCSBT_def IsExistStakerStorageAddress_def
  by (rule safe_balances safeR_getters safe_steps safeR_prod)+

lemma safeR_RecoverValidatorCoefficient: "safeR (RecoverValidatorCoefficient s a) s"
  unfolding RecoverValidatorCoefficient_def Let_def
  by (rule safeR_GetBalance safe_balances safeR_getters safe_steps)+

lemma safeR_HandleCSBT: "safeR (HandleCSBT s caller a wh v n) s"
  unfolding HandleCSBT_def Let_def
  by (rule safeR_CanTransfer safe_balances safeR_getters safeR_contexts safe_Transfer safeR_StakerPledge
    safeR_ResetMinerBecome safeR_NewCancelStakerPledge safeR_RecoverValidatorCoefficient safe_steps)+

subsection \<open>Runs\<close>

text \<open>One call of a method that changes the state.\<close>
inductive db_step :: "StateDB \<Rightarrow> StateDB \<Rightarrow> bool" where
  step_AddBalance: "db_AddBalance s a v = Some s' \<Longrightarrow> db_step s s'"
| step_SubBalance: "db_SubBalance s a v = Some s' \<Longrightarrow> db_step s s'"
| step_SetBalance: "db_SetBalance s a v = Some s' \<Longrightarrow> db_step s s'"
| step_SetNonce: "db_SetNonce s a n = Some s' \<Longrightarrow> db_step s s'"
| step_CreateAccount: "db_step s (db_CreateAccount s a)"
| step_Suicide: "db_step s (snd (Suicide s a))"
| step_AddRefund: "db_step s (AddRefund s gas)"
| step_SubRefund: "SubRefund s gas = Some s' \<Longrightarrow> db_step s s'"
| step_get: "db_step s (snd (getStateObject s a))"
| step_Snapshot: "db_step s (snd (Snapshot s))"
| step_ChangeNFTOwner: "db_ChangeNFTOwner s a newOwner = Some s' \<Longrightarrow> db_step s s'"
| step_SubCoefficient: "db_SubValidatorCoefficient s a c = Some s' \<Longrightarrow> db_step s s'"
| step_ChangeProxy: "db_ChangeValidatorProxy s a p = Some s' \<Longrightarrow> db_step s s'"
| step_RevocateAllStakers: "db_RevocateAllStakers s a = Some s' \<Longrightarrow> db_step s s'"
| step_AddAddress: "db_step s (AddAddressToAccessList s a)"
| step_AddSlot: "AddSlotToAccessList s a k = Some s' \<Longrightarrow> db_step s s'"
| step_HandleCSBT: "HandleCSBT s caller a wh v n = Some (r, s') \<Longrightarrow> db_step s s'"

text \<open>Any sequence of such calls; a part of it may be reverted on the way.\<close>
inductive runs :: "StateDB \<Rightarrow> StateDB \<Rightarrow> bool" where
  runs_start: "runs s s"
| runs_step: "\<lbrakk>runs s t; db_step t u\<rbrakk> \<Longrightarrow> runs s u"
| runs_revert: "\<lbrakk>runs s t; Snapshot t = (i, t1); runs t1 t2; RevertToSnapshot t2 i = Some u\<rbrakk> \<Longrightarrow> runs s u"

lemma db_step_undoable: "db_step s s' \<Longrightarrow> undoable s s'"
proof (induction rule: db_step.induct)
  case (step_AddRefund s gas)
  show ?case using refund_undoable [of s "refund s + gas"] by (simp add: AddRefund_def)
next
  case (step_SubRefund s gas s')
  then show ?case
    using refund_undoable [of s "refund s - gas"]
    by (simp add: SubRefund_def Let_def db_append_def split: if_splits)
next
  case (step_HandleCSBT s caller a wh v n r s')
  then show ?case using safeR_HandleCSBT by (auto simp: safeR_def)
next
  case (step_RevocateAllStakers s a s')
  then show ?case using safe_RevocateAllStakers by (auto simp: safe_def)
qed (use safe_balances in \<open>auto simp: safe_def db_CreateAccount_def get_or_new_undoable Suicide_undoable
  Snapshot_undoable AddAddress_undoable AddSlot_undoable\<close>)


lemma undoable_ok: "\<lbrakk>undoable s t; db_ok s; revs_ok s\<rbrakk> \<Longrightarrow> db_ok t \<and> revs_ok t"
  by (simp add: undoable_def grows_def)

lemma runs_undoable: "\<lbrakk>runs s u; db_ok s; revs_ok s\<rbrakk> \<Longrightarrow> undoable s u"
proof (induction rule: runs.induct)
  case (runs_step s t u)
  then show ?case using db_step_undoable undoable_trans by blast
next
  case (runs_revert s t i t1 t2 u)
  then have t: "undoable s t" "db_ok t" "revs_ok t" using undoable_ok by blast+
  moreover have "undoable t t1" using Snapshot_undoable [of t] runs_revert.hyps(2) by simp
  ultimately have "undoable t1 t2" using runs_revert.IH(2) undoable_ok by blast
  then have "undoable t u"
    using revert_to_snapshot [OF t(2,3), of t2] runs_revert.hyps(2,4) by auto
  with t(1) show ?case by (rule undoable_trans)
qed simp

text \<open>
  C4.  RevertToSnapshot undoes whatever has happened since the snapshot: for every sequence of
  state changes after Snapshot, with nested snapshots and reverts in between, reverting succeeds
  and restores the ledger, the refund counter, the access list, the journal and the list of valid
  revisions.
\<close>
theorem RevertToSnapshot_restores:
  assumes "db_ok s" "revs_ok s" "Snapshot s = (i, s1)" "runs s1 s2"
  shows "\<exists>s3. RevertToSnapshot s2 i = Some s3 \<and> ledger_of s3 = ledger_of s \<and> refund s3 = refund s \<and>
    db_accessList s3 = db_accessList s \<and> j_entries (db_journal s3) = j_entries (db_journal s) \<and> validRevisions s3 = validRevisions s"
proof -
  have s1: "s1 = snd (Snapshot s)" "i = fst (Snapshot s)" using assms(3) by simp_all
  then have "undoable s1 s2"
    using runs_undoable [OF assms(4)] undoable_ok [OF Snapshot_undoable assms(1,2)] by simp
  then obtain s3 where "RevertToSnapshot s2 i = Some s3" "sim s3 s" "entries s3 = entries s"
    "validRevisions s3 = validRevisions s"
    using revert_to_snapshot [OF assms(1,2)] s1 by blast
  then show ?thesis using sim_ledger by (auto simp: sim_def)
qed

lemma state_New_ok: "db_ok (state_New tr)" "revs_ok (state_New tr)"
  by (simp_all add: state_New_def db_ok_def objects_ok_def revs_ok_def)

theorem RevertToSnapshot_restores_witness:
  "\<exists>s3. RevertToSnapshot (AddRefund (AddAddressToAccessList
      (snd (Suicide (snd (Snapshot (state_New sample_trie))) 200)) 200) 7) 0 = Some s3 \<and>
    ledger_of s3 = sample_ledger \<and> refund s3 = refund (state_New sample_trie) \<and>
    db_accessList s3 = db_accessList (state_New sample_trie) \<and>
    j_entries (db_journal s3) = j_entries (db_journal (state_New sample_trie)) \<and>
    validRevisions s3 = validRevisions (state_New sample_trie)"
proof (rule RevertToSnapshot_restores [OF state_New_ok])
  show "Snapshot (state_New sample_trie) = (0, snd (Snapshot (state_New sample_trie)))"
    by (simp add: Snapshot_def state_New_def Let_def)
  show "runs (snd (Snapshot (state_New sample_trie)))
      (AddRefund (AddAddressToAccessList (snd (Suicide (snd (Snapshot (state_New sample_trie))) 200)) 200) 7)"
    by (intro runs_step [OF runs_step [OF runs_step [OF runs_start step_Suicide] step_AddAddress] step_AddRefund])
qed

subsection \<open>Failing calls\<close>

lemma Call_check_ledger:
  assumes "Call_check s caller addr payload v = Some (r, s')"
  shows "ledger_of s' = ledger_of s" "undoable s s'"
proof -
  have can: "ledger_of t = ledger_of s" "undoable s t" if "CanTransfer s caller v = (b, t)" for b t
    using that CanTransfer_ledger(2) [of s caller v]
    by (auto simp: CanTransfer_def db_GetBalance_def getStateObject_eq load_undoable split: option.splits)
  have pledged: "ledger_of t = ledger_of x" "undoable x t"
    if "db_GetStakerPledgedBalance x caller addr = Some (b, t)" for b x t
    using that safeR_getters(4) [of x caller addr]
    by (auto simp: safeR_def db_GetStakerPledgedBalance_def Let_def Option.bind_eq_Some_conv)
  have "ledger_of s' = ledger_of s \<and> undoable s s'"
    using assms
    by (auto simp: Call_check_def VerifyStakerPledgedBalance_def Option.bind_eq_Some_conv can
      split: option.splits if_splits prod.splits dest: pledged intro: undoable_trans)
      (metis pledged(1))+
  then show "ledger_of s' = ledger_of s" "undoable s s'" by blast+
qed


text \<open>The part of Call after the snapshot up to the execution of the code.\<close>
lemma Call_prefix_undoable:
  assumes "db_Exist s addr = (ex, s1)" "s2 = (if \<not> ex then db_CreateAccount s1 addr else s1)"
    "(case payload of Some wh \<Rightarrow> HandleCSBT s2 caller addr wh v n
      | None \<Rightarrow> do { db \<leftarrow> Transfer s2 caller addr v; Some (Inr (), db) }) = Some (r, s3)"
  shows "undoable s s3" "ledger_of s2 = ledger_of s"
proof -
  have s1: "undoable s s1" "ledger_of s1 = ledger_of s"
    using assms(1) load_undoable [of s addr] Exist_ledger [of s addr] by (auto simp: db_Exist_def getStateObject_eq)
  moreover have "undoable s1 s2" "ledger_of s2 = ledger_of s1"
    using assms(2) by (simp_all add: db_CreateAccount_def get_or_new_undoable)
  moreover have "undoable s2 s3"
    using assms(3) safeR_HandleCSBT safe_Transfer
    by (cases payload) (auto simp: safe_def safeR_def Option.bind_eq_Some_conv)
  ultimately show "undoable s s3" "ledger_of s2 = ledger_of s" by (auto intro: undoable_trans)
qed

lemma runs_from:
  assumes "db_ok s" "revs_ok s" "undoable s t" "runs t u"
  shows "undoable s u"
  using runs_undoable [OF assms(4)] undoable_ok [OF assms(3,1,2)] undoable_trans [OF assms(3)] by blast

text \<open>
  The three ways a call can end: nothing has changed, the CSBT handler returned an error, or the
  code ran to its end.
\<close>
lemma Call_outcome:
  assumes code: "\<forall>db r db'. run db caller addr inp gas v = Some (r, db') \<longrightarrow> runs db db'"
    and "db_ok s" "revs_ok s"
    and call: "Call unmarshal run noRecursion depth n s caller addr inp gas v = Some (r, s')"
  shows "(ledger_of s' = ledger_of s \<and> undoable s s') \<or>
    (\<exists>payload s4 s5 err. Call_payload unmarshal inp = Inr payload \<and> ledger_of s4 = ledger_of s \<and> undoable s s' \<and>
      (case payload of Some wh \<Rightarrow> HandleCSBT s4 caller addr wh v n
        | None \<Rightarrow> do { db \<leftarrow> Transfer s4 caller addr v; Some (Inr (), db) }) = Some (err, s5) \<and>
      (s' = s5 \<and> (\<exists>e. err = Inl e \<and> cr_err r = Inl e) \<or>
       (\<exists>u. err = Inr u) \<and> cr_err r = Inr () \<and> run s5 caller addr inp gas v = Some (r, s')))"
proof (cases "(noRecursion \<and> depth > 0) \<or> depth > CallCreateDepth \<or> (\<exists>e. Call_payload unmarshal inp = Inl e)")
  case True
  then show ?thesis using call by (auto simp: Call_def split: if_splits)
next
  case False
  then have guards: "(noRecursion \<and> 0 < depth) = False" "(CallCreateDepth < depth) = False" by auto
  obtain payload where p: "Call_payload unmarshal inp = Inr payload"
    using False by (cases "Call_payload unmarshal inp") auto
  obtain ok s1 where c: "Call_check s caller addr payload v = Some (ok, s1)"
    using call p by (cases "Call_check s caller addr payload v") (auto simp: Call_def guards)
  note s1 = Call_check_ledger [OF c] undoable_ok [OF Call_check_ledger(2) [OF c] assms(2,3)]
  show ?thesis
  proof (cases ok)
    case (Inl e')
    then show ?thesis using call p c s1 by (simp add: Call_def guards)
  next
    case (Inr u)
    obtain i s2 where i: "Snapshot s1 = (i, s2)" by fastforce
    obtain ex s3 where ex: "db_Exist s2 addr = (ex, s3)" by fastforce
    define s4 where "s4 = (if \<not> ex then db_CreateAccount s3 addr else s3)"
    let ?h = "case payload of Some wh \<Rightarrow> HandleCSBT s4 caller addr wh v n
      | None \<Rightarrow> do { db \<leftarrow> Transfer s4 caller addr v; Some (Inr (), db) }"
    obtain err s5 where h: "?h = Some (err, s5)"
      using call p c Inr i ex by (cases ?h) (auto simp: Call_def guards s4_def [symmetric])
    note pre = Call_prefix_undoable [OF ex s4_def h]
    have snap: "undoable s1 s2" "ledger_of s2 = ledger_of s1" "snd (Snapshot s1) = s2" "fst (Snapshot s1) = i"
      using Snapshot_undoable [of s1] Snapshot_ledger [of s1] i by simp_all
    have s4: "ledger_of s4 = ledger_of s" using pre(2) snap(2) s1(1) by simp
    have s5: "undoable s s5" using pre(1) snap(1) s1(2) undoable_trans by blast
    show ?thesis
    proof (cases err)
      case (Inl e')
      then have e': "s' = s5" "cr_err r = Inl e'"
        using call p c Inr i ex h by (auto simp: Call_def guards s4_def [symmetric])
      then show ?thesis using p s4 s5 h Inl by blast
    next
      case (Inr u')
      obtain r' s6 where run: "run s5 caller addr inp gas v = Some (r', s6)"
        using call p c \<open>ok = Inr u\<close> i ex h Inr
        by (cases "run s5 caller addr inp gas v") (auto simp: Call_def guards s4_def [symmetric])
      have s6: "undoable s2 s6"
        using runs_from [OF _ _ pre(1) code [rule_format, OF run]] undoable_ok [OF snap(1)] s1(3) by blast
      then obtain s7 where s7: "RevertToSnapshot s6 i = Some s7" "ledger_of s7 = ledger_of s1" "undoable s1 s7"
        using revert_to_snapshot [of s1 s6] s1(3) snap(3,4) sim_ledger by auto
      show ?thesis
      proof (cases "cr_err r'")
        case (Inl e)
        then have "s' = s7"
          using call p c \<open>ok = Inr u\<close> i ex h Inr run s7(1)
          by (auto simp: Call_def guards s4_def [symmetric] split: if_splits)
        then show ?thesis using s7 s1(1,2) undoable_trans by metis
      next
        case (Inr u'')
        then have "s' = s6" "r' = r"
          using call p c \<open>ok = Inr u\<close> i ex h \<open>err = Inr u'\<close> run
          by (auto simp: Call_def guards s4_def [symmetric])
        moreover have "undoable s s6" using s6 snap(1) s1(2) undoable_trans by blast
        ultimately show ?thesis using p s4 h \<open>err = Inr u'\<close> Inr run by (auto simp: eq_commute [of u''])
      qed
    qed
  qed
qed

text \<open>
  C5.  A failing call has no effect on the ledger.  Suppose that executing contract code changes
  the state only through the methods of StateDB.  If Call returns an error, whichever check, the
  CSBT handler or the code caused it, then balances, nonces, pledges, credit scores, validators
  and CSBT owners are what they were, with one exception: a pledge that is rejected because its
  proxy is the address of another validator.
\<close>
theorem Call_error_unchanged:
  assumes code: "\<And>db r db'. run db caller addr inp gas v = Some (r, db') \<Longrightarrow> runs db db'"
    and "db_ok s" "revs_ok s"
    and call: "Call unmarshal run noRecursion depth n s caller addr inp gas v = Some (r, s')" "cr_err r = Inl e"
  shows "ledger_of s' = ledger_of s \<or>
    (\<exists>wh. Call_payload unmarshal inp = Inr (Some wh) \<and> w_Type wh = 3) \<and> e = ''cannot have the same proxy''"
proof -
  have "\<forall>db r db'. run db caller addr inp gas v = Some (r, db') \<longrightarrow> runs db db'" using code by blast
  note out = Call_outcome [OF this assms(2-4)]
  consider "ledger_of s' = ledger_of s" | "cr_err r = Inr ()"
    | payload s4 s5 e' where "Call_payload unmarshal inp = Inr payload" "ledger_of s4 = ledger_of s"
      "(case payload of Some wh \<Rightarrow> HandleCSBT s4 caller addr wh v n
        | None \<Rightarrow> do { db \<leftarrow> Transfer s4 caller addr v; Some (Inr (), db) }) = Some (Inl e', s5)"
      "s' = s5" "cr_err r = Inl e'"
    using out by blast
  then show ?thesis
  proof cases
    case 3
    then obtain wh where wh: "payload = Some wh" "HandleCSBT s4 caller addr wh v n = Some (Inl e, s5)"
      using call(2) by (cases payload) (auto simp: Option.bind_eq_Some_conv)
    show ?thesis using HandleCSBT_unchanged [OF wh(2)] 3 wh(1) by auto
  qed (use call(2) in simp_all)
qed

text \<open>Code that adds to the refund counter and then runs out of gas.\<close>
definition failing_code :: "StateDB \<Rightarrow> address \<Rightarrow> address \<Rightarrow> bytes \<Rightarrow> uint64 \<Rightarrow> int \<Rightarrow> call_result outcome" where
  "failing_code db caller addr inp gas v =
    Some (\<lparr>cr_ret = [], cr_gas = 0, cr_err = Inl ''out of gas''\<rparr>, AddRefund db 5)"

lemma failing_code_runs: "failing_code db caller addr inp gas v = Some (r, db') \<Longrightarrow> runs db db'"
  using runs_step [OF runs_start step_AddRefund] by (auto simp: failing_code_def)

lemma failing_call:
  "\<exists>r s'. Call (\<lambda>_. None) failing_code False 0 7 (state_New sample_trie) 100 200 [] 50000 0 = Some (r, s') \<and>
    cr_err r = Inl ''out of gas''"
proof -
  let ?s = "state_New sample_trie"
  obtain i s2 where i: "Snapshot ?s = (i, s2)" by fastforce
  obtain ex s3 where ex: "db_Exist s2 200 = (ex, s3)" by fastforce
  define s4 where "s4 = (if \<not> ex then db_CreateAccount s3 200 else s3)"
  obtain s5 where s5: "Transfer s4 100 200 0 = Some s5"
    using Transfer_yields [of s4 100 200 0] by (auto simp: yields_def)
  have "undoable s2 s5" using Call_prefix_undoable(1) [OF ex s4_def, where payload = None and caller = 100 and v = 0 and ?s3.0 = s5]
      s5 by simp
  moreover have "undoable s5 (AddRefund s5 5)" by (rule db_step_undoable [OF step_AddRefund])
  ultimately obtain s6 where "RevertToSnapshot (AddRefund s5 5) i = Some s6"
    using revert_to_snapshot [OF state_New_ok, of sample_trie "AddRefund s5 5"] undoable_trans i by fastforce
  then show ?thesis
    using i ex s5
    by (simp add: Call_def Call_payload_def Call_check_def CallCreateDepth_def s4_def [symmetric] failing_code_def)
qed

theorem Call_error_unchanged_witness:
  "\<exists>r s'. Call (\<lambda>_. None) failing_code False 0 7 (state_New sample_trie) 100 200 [] 50000 0 = Some (r, s') \<and>
    cr_err r = Inl ''out of gas'' \<and> ledger_of s' = sample_ledger"
proof -
  obtain r s' where call: "Call (\<lambda>_. None) failing_code False 0 7 (state_New sample_trie) 100 200 [] 50000 0 = Some (r, s')"
    "cr_err r = Inl ''out of gas''"
    using failing_call by blast
  have "ledger_of s' = sample_ledger \<or> (\<exists>wh. Call_payload (\<lambda>_. None) [] = Inr (Some wh) \<and> w_Type wh = 3) \<and>
      ''out of gas'' = ''cannot have the same proxy''"
    by (rule Call_error_unchanged [OF failing_code_runs state_New_ok call])
  then show ?thesis using call by simp
qed

end
