(* ===== verification/State_Transition.thy ===== *)
theory State_Transition
  imports State_Runs
begin

text \<open>
  Applying a transaction (core/state_transition.go) and the gas pool of a block (core/gaspool.go):
  the checks before execution, the purchase of gas, the intrinsic gas, the call, the refund and
  the fee of the miner.

  An error is represented by the text of the error it wraps.  Parameters, collected in a record:
  the JSON decoder, the execution of contract code and evm.Create, which belong to the
  interpreter, the rules of the chain at the block with the precompiled contracts, and the block
  context.
\<close>

subsection \<open>The gas pool\<close>

definition gp_AddGas :: "uint64 \<Rightarrow> uint64 \<Rightarrow> uint64 option" where
  "gp_AddGas gp amount = (if gp > (- 1) - amount then None else Some (gp + amount))"

definition gp_SubGas :: "uint64 \<Rightarrow> uint64 \<Rightarrow> uint64 result" where
  "gp_SubGas gp amount = (if gp < amount then Inl ''gas limit reached'' else Inr (gp - amount))"

subsection \<open>Messages\<close>

record TxMessage =
  tm_From :: address
  tm_To :: "address option"
  tm_GasPrice :: int
  tm_GasFeeCap :: "int option"
  tm_GasTipCap :: "int option"
  tm_Gas :: uint64
  tm_Value :: int
  tm_Nonce :: uint64
  tm_IsFake :: bool
  tm_Data :: bytes
  tm_AccessList :: "(address \<times> hash list) list option"

record EVM =
  e_unmarshal :: "bytes \<Rightarrow> Wormholes option"
  e_run :: "StateDB \<Rightarrow> address \<Rightarrow> address \<Rightarrow> bytes \<Rightarrow> uint64 \<Rightarrow> int \<Rightarrow> call_result outcome"
  e_Create :: "StateDB \<Rightarrow> address \<Rightarrow> bytes \<Rightarrow> uint64 \<Rightarrow> int \<Rightarrow> call_result outcome"
  e_NoRecursion :: bool
  e_NoBaseFee :: bool
  e_IsHomestead :: bool
  e_IsIstanbul :: bool
  e_IsLondon :: bool
  e_IsBerlin :: bool
  e_ActivePrecompiles :: "address list"
  e_BlockNumber :: int
  e_BaseFee :: "int option"
  e_Coinbase :: address

record ExecutionResult =
  er_UsedGas :: uint64
  er_Err :: "unit result"
  er_ReturnData :: bytes

definition er_Return :: "ExecutionResult \<Rightarrow> bytes" where
  "er_Return result = (if er_Err result \<noteq> Inr () then [] else er_ReturnData result)"

definition er_Revert :: "ExecutionResult \<Rightarrow> bytes" where
  "er_Revert result = (if er_Err result \<noteq> Inl ''execution reverted'' then [] else er_ReturnData result)"

definition IsWormholesNFTTx :: "bytes \<Rightarrow> bool" where
  "IsWormholesNFTTx data \<longleftrightarrow>
    length data > TransactionTypeLen \<and> take TransactionTypeLen data = string_bytes TransactionType"

definition GetWormholes :: "(bytes \<Rightarrow> Wormholes option) \<Rightarrow> bytes \<Rightarrow> Wormholes option" where
  "GetWormholes unmarshal data =
    (if IsWormholesNFTTx data then unmarshal (drop TransactionTypeLen data) else None)"

subsection \<open>Intrinsic gas\<close>

definition TxGas :: uint64 where "TxGas = 21000"
definition TxGasContractCreation :: uint64 where "TxGasContractCreation = 53000"
definition TxDataZeroGas :: uint64 where "TxDataZeroGas = 4"
definition TxDataNonZeroGasFrontier :: uint64 where "TxDataNonZeroGasFrontier = 68"
definition TxDataNonZeroGasEIP2028 :: uint64 where "TxDataNonZeroGasEIP2028 = 16"
definition TxAccessListAddressGas :: uint64 where "TxAccessListAddressGas = 2400"
definition TxAccessListStorageKeyGas :: uint64 where "TxAccessListStorageKeyGas = 1900"
definition RefundQuotient :: uint64 where "RefundQuotient = 2"
definition RefundQuotientEIP3529 :: uint64 where "RefundQuotientEIP3529 = 5"

lemmas gas_params = TxGas_def TxGasContractCreation_def TxDataZeroGas_def TxDataNonZeroGasFrontier_def
  TxDataNonZeroGasEIP2028_def TxAccessListAddressGas_def TxAccessListStorageKeyGas_def

text \<open>The sum of the lengths of the key lists.\<close>
definition StorageKeys :: "(address \<times> hash list) list \<Rightarrow> nat" where
  "StorageKeys al = foldl (\<lambda>sum tuple. sum + length (snd tuple)) 0 al"

text \<open>The gas before the data is counted.\<close>
definition base_gas :: "(bytes \<Rightarrow> Wormholes option) \<Rightarrow> bytes \<Rightarrow> bool \<Rightarrow> bool \<Rightarrow> uint64 result" where
  "base_gas unmarshal data isContractCreation isHomestead =
    (if IsWormholesNFTTx data then
       (case unmarshal (drop TransactionTypeLen data) of
          None \<Rightarrow> Inl ''wormholes format error!''
        | Some wormholes \<Rightarrow> TxGas_wormholes wormholes)
     else Inr (if isContractCreation \<and> isHomestead then TxGasContractCreation else TxGas))"

text \<open>The loop that counts the non-zero bytes.\<close>
definition count_nz :: "bytes \<Rightarrow> uint64" where
  "count_nz data = foldl (\<lambda>nz byt. if byt \<noteq> 0 then nz + 1 else nz) 0 data"

definition data_gas :: "uint64 \<Rightarrow> bytes \<Rightarrow> bool \<Rightarrow> uint64 result" where
  "data_gas gas data isEIP2028 =
    (if length data > 0 then
       let nz = count_nz data;
           nonZeroGas = (if isEIP2028 then TxDataNonZeroGasEIP2028 else TxDataNonZeroGasFrontier)
       in if ((- 1) - gas) div nonZeroGas < nz then Inl ''gas uint64 overflow''
          else let gas = gas + nz * nonZeroGas; z = word_of_nat (length data) - nz
            in if ((- 1) - gas) div TxDataZeroGas < z then Inl ''gas uint64 overflow''
               else Inr (gas + z * TxDataZeroGas)
     else Inr gas)"

definition IntrinsicGas ::
    "(bytes \<Rightarrow> Wormholes option) \<Rightarrow> bytes \<Rightarrow> (address \<times> hash list) list option \<Rightarrow> bool \<Rightarrow> bool \<Rightarrow> bool \<Rightarrow> uint64 result" where
  "IntrinsicGas unmarshal data accessList isContractCreation isHomestead isEIP2028 =
    (case base_gas unmarshal data isContractCreation isHomestead of
       Inl err \<Rightarrow> Inl err
     | Inr gas \<Rightarrow> (case data_gas gas data isEIP2028 of
         Inl err \<Rightarrow> Inl err
       | Inr gas \<Rightarrow> Inr (case accessList of
           None \<Rightarrow> gas
         | Some al \<Rightarrow> gas + word_of_nat (length al) * TxAccessListAddressGas
             + word_of_nat (StorageKeys al) * TxAccessListStorageKeyGas)))"

subsection \<open>Buying gas\<close>

record StateTransition =
  st_gp :: uint64
  st_gas :: uint64
  st_initialGas :: uint64
  st_db :: StateDB

definition db_GetCodeHash :: "StateDB \<Rightarrow> address \<Rightarrow> hash \<times> StateDB" where
  "db_GetCodeHash s addr =
    (case getStateObject s addr of
       (Some ob, s) \<Rightarrow> (a_CodeHash (so_data ob), s) | (None, s) \<Rightarrow> (0, s))"

definition db_GetRefund :: "StateDB \<Rightarrow> uint64" where
  "db_GetRefund s = refund s"

definition balanceCheck :: "EVM \<Rightarrow> TxMessage \<Rightarrow> int" where
  "balanceCheck evm msg =
    (let mgval = uint (tm_Gas msg) * tm_GasPrice msg;
         full = (case tm_GasFeeCap msg of
             None \<Rightarrow> mgval | Some cap \<Rightarrow> uint (tm_Gas msg) * cap + tm_Value msg)
     in case GetWormholes (e_unmarshal evm) (tm_Data msg) of
          Some wormholes \<Rightarrow> if w_Type wormholes = 4 then mgval else full
        | None \<Rightarrow> full)"

definition buyGas :: "EVM \<Rightarrow> TxMessage \<Rightarrow> StateTransition \<Rightarrow> (unit result \<times> StateTransition) option" where
  "buyGas evm msg st =
    (let mgval = uint (tm_Gas msg) * tm_GasPrice msg;
         (have_balance, db) = db_GetBalance (st_db st) (tm_From msg);
         st = st\<lparr>st_db := db\<rparr>
     in if have_balance < balanceCheck evm msg
        then Some (Inl ''insufficient funds for gas * price + value'', st)
        else case gp_SubGas (st_gp st) (tm_Gas msg) of
          Inl err \<Rightarrow> Some (Inl err, st)
        | Inr gp \<Rightarrow> do {
            let st = st\<lparr>st_gp := gp, st_gas := st_gas st + tm_Gas msg, st_initialGas := tm_Gas msg\<rparr>;
            db \<leftarrow> db_SubBalance (st_db st) (tm_From msg) mgval;
            Some (Inr (), st\<lparr>st_db := db\<rparr>)
          })"

text \<open>The checks of the nonce and of the sender's code, skipped for a fake message.\<close>
definition check_sender :: "TxMessage \<Rightarrow> StateDB \<Rightarrow> unit result \<times> StateDB" where
  "check_sender msg db =
    (if tm_IsFake msg then (Inr (), db)
     else let (stNonce, db) = db_GetNonce db (tm_From msg) in
       if stNonce < tm_Nonce msg then (Inl ''nonce too high'', db)
       else if stNonce > tm_Nonce msg then (Inl ''nonce too low'', db)
       else let (codeHash, db) = db_GetCodeHash db (tm_From msg) in
         if codeHash \<noteq> emptyCodeHash \<and> codeHash \<noteq> 0 then (Inl ''sender not an eoa'', db)
         else (Inr (), db))"

text \<open>The fee caps against the base fee; a cap or a base fee that is nil panics where it is first read.\<close>
definition check_fees :: "EVM \<Rightarrow> TxMessage \<Rightarrow> unit result option" where
  "check_fees evm msg =
    (if \<not> e_IsLondon evm then Some (Inr ())
     else do {
       feeCap \<leftarrow> tm_GasFeeCap msg;
       skip \<leftarrow> (if e_NoBaseFee evm \<and> feeCap = 0 then map_option (\<lambda>tipCap. tipCap = 0) (tm_GasTipCap msg) else Some False);
       if skip then Some (Inr ())
       else if \<bar>feeCap\<bar> \<ge> 2 ^ 256 then Some (Inl ''max fee per gas higher than 2^256-1'')
       else do {
         tipCap \<leftarrow> tm_GasTipCap msg;
         if \<bar>tipCap\<bar> \<ge> 2 ^ 256 then Some (Inl ''max priority fee per gas higher than 2^256-1'')
         else if feeCap < tipCap then Some (Inl ''max priority fee per gas higher than max fee per gas'')
         else do {
           baseFee \<leftarrow> e_BaseFee evm;
           Some (if feeCap < baseFee then Inl ''max fee per gas less than block base fee'' else Inr ())
         }
       }
     })"

definition preCheck :: "EVM \<Rightarrow> TxMessage \<Rightarrow> StateTransition \<Rightarrow> (unit result \<times> StateTransition) option" where
  "preCheck evm msg st =
    (let (err, db) = check_sender msg (st_db st); st = st\<lparr>st_db := db\<rparr> in
     case err of
       Inl e \<Rightarrow> Some (Inl e, st)
     | Inr _ \<Rightarrow> do {
         err \<leftarrow> check_fees evm msg;
         case err of Inl e \<Rightarrow> Some (Inl e, st) | Inr _ \<Rightarrow> buyGas evm msg st
       })"

subsection \<open>The transition\<close>

definition gasUsed :: "StateTransition \<Rightarrow> uint64" where
  "gasUsed st = st_initialGas st - st_gas st"

definition refundGas :: "TxMessage \<Rightarrow> uint64 \<Rightarrow> StateTransition \<Rightarrow> StateTransition option" where
  "refundGas msg refundQuotient st =
    do {
      let refund = gasUsed st div refundQuotient;
      let refund = (if refund > db_GetRefund (st_db st) then db_GetRefund (st_db st) else refund);
      let st = st\<lparr>st_gas := st_gas st + refund\<rparr>;
      let remaining = uint (st_gas st) * tm_GasPrice msg;
      db \<leftarrow> db_AddBalance (st_db st) (tm_From msg) remaining;
      gp \<leftarrow> gp_AddGas (st_gp st) (st_gas st);
      Some (st\<lparr>st_db := db, st_gp := gp\<rparr>)
    }"

text \<open>Whether the sender can pay the value; not asked when a pledge is withdrawn.\<close>
definition can_pay :: "EVM \<Rightarrow> TxMessage \<Rightarrow> StateDB \<Rightarrow> bool \<times> StateDB" where
  "can_pay evm msg db =
    (case GetWormholes (e_unmarshal evm) (tm_Data msg) of
       Some wormholes \<Rightarrow>
         if w_Type wormholes = 4 then (True, db)
         else if tm_Value msg > 0 then CanTransfer db (tm_From msg) (tm_Value msg) else (True, db)
     | None \<Rightarrow> if tm_Value msg > 0 then CanTransfer db (tm_From msg) (tm_Value msg) else (True, db))"

text \<open>The initial access list.\<close>
definition prepare :: "EVM \<Rightarrow> TxMessage \<Rightarrow> StateDB \<Rightarrow> StateDB option" where
  "prepare evm msg db =
    (if e_IsBerlin evm
     then PrepareAccessList db (tm_From msg) (tm_To msg) (e_ActivePrecompiles evm)
       (case tm_AccessList msg of None \<Rightarrow> [] | Some list \<Rightarrow> list)
     else Some db)"

text \<open>A contract creation, or the nonce and a call.\<close>
definition execute :: "EVM \<Rightarrow> TxMessage \<Rightarrow> StateDB \<Rightarrow> uint64 \<Rightarrow> call_result outcome" where
  "execute evm msg db gas =
    (case tm_To msg of
       None \<Rightarrow> e_Create evm db (tm_From msg) (tm_Data msg) gas (tm_Value msg)
     | Some addr \<Rightarrow> do {
         let (nonce, db) = db_GetNonce db (tm_From msg);
         db \<leftarrow> db_SetNonce db (tm_From msg) (nonce + 1);
         Call (e_unmarshal evm) (e_run evm) (e_NoRecursion evm) 0 (e_BlockNumber evm) db
           (tm_From msg) addr (tm_Data msg) gas (tm_Value msg)
       })"

definition TransitionDb ::
    "EVM \<Rightarrow> TxMessage \<Rightarrow> StateTransition \<Rightarrow> (ExecutionResult result \<times> StateTransition) option" where
  "TransitionDb evm msg st =
    do {
      (err, st) \<leftarrow> preCheck evm msg st;
      case err of
        Inl e \<Rightarrow> Some (Inl e, st)
      | Inr _ \<Rightarrow>
          (case IntrinsicGas (e_unmarshal evm) (tm_Data msg) (tm_AccessList msg) (tm_To msg = None)
              (e_IsHomestead evm) (e_IsIstanbul evm) of
             Inl e \<Rightarrow> Some (Inl e, st)
           | Inr gas \<Rightarrow>
               if st_gas st < gas then Some (Inl ''intrinsic gas too low'', st)
               else do {
                 let st = st\<lparr>st_gas := st_gas st - gas\<rparr>;
                 let (ok, db) = can_pay evm msg (st_db st);
                 let st = st\<lparr>st_db := db\<rparr>;
                 if \<not> ok then Some (Inl ''insufficient funds for transfer'', st)
                 else do {
                   db \<leftarrow> prepare evm msg (st_db st);
                   let st = st\<lparr>st_db := db\<rparr>;
                   (r, db) \<leftarrow> execute evm msg (st_db st) (st_gas st);
                   let st = st\<lparr>st_db := db, st_gas := cr_gas r\<rparr>;
                   st \<leftarrow> refundGas msg (if e_IsLondon evm then RefundQuotientEIP3529 else RefundQuotient) st;
                   db \<leftarrow> db_AddBalance (st_db st) (e_Coinbase evm) (uint (gasUsed st) * tm_GasPrice msg);
                   Some (Inr \<lparr>er_UsedGas = gasUsed st, er_Err = cr_err r, er_ReturnData = cr_ret r\<rparr>, st\<lparr>st_db := db\<rparr>)
                 }
               })
    }"

text \<open>NewStateTransition and ApplyMessage.\<close>
definition ApplyMessage ::
    "EVM \<Rightarrow> TxMessage \<Rightarrow> uint64 \<Rightarrow> StateDB \<Rightarrow> (ExecutionResult result \<times> StateTransition) option" where
  "ApplyMessage evm msg gp db =
    TransitionDb evm msg \<lparr>st_gp = gp, st_gas = 0, st_initialGas = 0, st_db = db\<rparr>"

end
