(* ===== verification/Transaction_Properties.thy ===== *)
theory Transaction_Properties
  imports State_Transition
begin

text \<open>
  What a transaction does to the gas pool and to the ledger: the intrinsic gas is the sum of its
  parts or an overflow error, the pool loses exactly the gas that is reported as used, no tokens
  appear or vanish, and a transaction that passes the checks is executed.
\<close>

subsection \<open>Gas arithmetic\<close>

lemma unat_uint64: "unat (g :: uint64) < 2 ^ 64"
  using unsigned_less [of g, where ?'a = nat] by simp

text \<open>The room below \<^verbatim>\<open>math.MaxUint64\<close>.\<close>
lemma unat_room: "unat ((- 1) - g :: uint64) = 2 ^ 64 - 1 - unat g"
  by (simp add: unat_sub unsigned_minus_1_eq_mask mask_eq_exp_minus_1)

lemma gp_AddGas_nat:
  "gp_AddGas gp amount = (if unat gp + unat amount < 2 ^ 64 then Some (gp + amount) else None)"
proof -
  have "gp > (- 1) - amount \<longleftrightarrow> 2 ^ 64 - 1 - unat amount < unat gp"
    by (simp only: word_less_nat_alt unat_room)
  then have "gp > (- 1) - amount \<longleftrightarrow> \<not> unat gp + unat amount < 2 ^ 64"
    using unat_uint64 [of amount] by linarith
  then show ?thesis by (simp add: gp_AddGas_def)
qed

lemma unat_plus_small: "unat a + unat b < 2 ^ 64 \<Longrightarrow> unat (a + b :: uint64) = unat a + unat b"
  by (simp add: unat_plus_if')

lemma count_nz_nat: "count_nz data = word_of_nat (length (filter (\<lambda>b. b \<noteq> 0) data))"
proof -
  have "foldl (\<lambda>nz byt. if byt \<noteq> 0 then nz + 1 else nz) n data = n + word_of_nat (length (filter (\<lambda>b. b \<noteq> 0) data))"
    for n :: uint64
    by (induction data arbitrary: n) (auto simp: algebra_simps)
  then show ?thesis by (simp add: count_nz_def)
qed

text \<open>The overflow check before gas is added for n items of c each.\<close>
lemma overflow_check:
  assumes "0 < c" "n < 2 ^ 64" "c < 2 ^ 64"
  shows "((- 1) - g) div word_of_nat c < (word_of_nat n :: uint64) \<longleftrightarrow> 2 ^ 64 \<le> unat g + n * c"
    "unat g + n * c < 2 ^ 64 \<Longrightarrow> unat (g + word_of_nat n * word_of_nat c) = unat g + n * c"
proof -
  have n: "unat (word_of_nat n :: uint64) = n" "unat (word_of_nat c :: uint64) = c"
    using assms by (simp_all add: unat_of_nat take_bit_nat_eq_self)
  have "((- 1) - g) div word_of_nat c < (word_of_nat n :: uint64) \<longleftrightarrow> (2 ^ 64 - 1 - unat g) div c < n"
    by (simp only: word_less_nat_alt unat_div unat_room n)
  also have "\<dots> \<longleftrightarrow> 2 ^ 64 - 1 - unat g < n * c"
    using assms(1) by (simp add: div_less_iff_less_mult)
  finally show "((- 1) - g) div word_of_nat c < (word_of_nat n :: uint64) \<longleftrightarrow> 2 ^ 64 \<le> unat g + n * c"
    using unat_uint64 [of g] by linarith
  assume small: "unat g + n * c < 2 ^ 64"
  then have "unat (word_of_nat n * word_of_nat c :: uint64) = n * c"
    using n by (simp add: unat_mult_lem [THEN iffD1])
  with small show "unat (g + word_of_nat n * word_of_nat c) = unat g + n * c"
    by (simp add: unat_plus_small)
qed

text \<open>The price of a non-zero byte.\<close>
definition nonZeroGas :: "bool \<Rightarrow> nat" where
  "nonZeroGas isEIP2028 = (if isEIP2028 then 16 else 68)"

text \<open>The cost of the data, without a bound.\<close>
definition data_cost :: "bytes \<Rightarrow> bool \<Rightarrow> nat" where
  "data_cost data isEIP2028 =
    length (filter (\<lambda>b. b \<noteq> 0) data) * nonZeroGas isEIP2028 + length (filter (\<lambda>b. b = 0) data) * 4"

lemma data_gas_exact:
  assumes "length data < 2 ^ 64"
  shows "data_gas gas data eip =
    (if unat gas + data_cost data eip < 2 ^ 64 then Inr (gas + word_of_nat (data_cost data eip))
     else Inl ''gas uint64 overflow'')"
proof -
  define nz z c where "nz = length (filter (\<lambda>b. b \<noteq> 0) data)" and "z = length (filter (\<lambda>b. b = 0) data)"
    and "c = nonZeroGas eip"
  have len: "length data = nz + z" using sum_length_filter_compl [of "\<lambda>b. b \<noteq> 0" data] by (simp add: nz_def z_def)
  then have nz: "nz < 2 ^ 64" "z < 2 ^ 64" using assms by simp_all
  have c: "0 < c" "c < 2 ^ 64" by (simp_all add: c_def nonZeroGas_def)
  have price: "(if eip then TxDataNonZeroGasEIP2028 else TxDataNonZeroGasFrontier) = word_of_nat c"
    "TxDataZeroGas = word_of_nat 4"
    by (simp_all add: c_def nonZeroGas_def gas_params)
  have cost: "data_cost data eip = nz * c + z * 4" by (simp add: data_cost_def nz_def z_def c_def)
  have count: "count_nz data = word_of_nat nz" "word_of_nat (length data) - word_of_nat nz = (word_of_nat z :: uint64)"
    by (simp_all add: count_nz_nat nz_def [symmetric] len)
  note first = overflow_check [OF c(1) nz(1) c(2), of gas]
  note second = overflow_check [of 4 z "gas + word_of_nat nz * word_of_nat c"]
  show ?thesis
  proof (cases "length data = 0")
    case True
    then have "data_cost data eip = 0" by (simp add: data_cost_def)
    then show ?thesis using True unat_uint64 [of gas] by (simp add: data_gas_def)
  next
    case False
    then have "data_gas gas data eip =
        (if ((- 1) - gas) div word_of_nat c < (word_of_nat nz :: uint64) then Inl ''gas uint64 overflow''
         else if ((- 1) - (gas + word_of_nat nz * word_of_nat c)) div word_of_nat 4 < (word_of_nat z :: uint64)
         then Inl ''gas uint64 overflow''
         else Inr (gas + word_of_nat nz * word_of_nat c + word_of_nat z * word_of_nat 4))"
      by (simp only: data_gas_def Let_def price count) simp
    then show ?thesis
      using first second nz(2) unfolding cost by (auto simp: not_le algebra_simps)
  qed
qed

lemma IntrinsicGas_None:
  assumes "length data < 2 ^ 64" "base_gas unmarshal data create homestead = Inr g"
  shows "IntrinsicGas unmarshal data None create homestead eip =
    (if unat g + data_cost data eip < 2 ^ 64 then Inr (g + word_of_nat (data_cost data eip))
     else Inl ''gas uint64 overflow'')"
  using assms by (simp add: IntrinsicGas_def data_gas_exact)

text \<open>
  C26.  The intrinsic gas of a message without an access list is exactly its base price plus the
  price of its bytes, counted without wrap-around; when that sum does not fit 64 bits, the result
  is the overflow error and never a smaller number.
\<close>
theorem IntrinsicGas_exact:
  assumes "length data < 2 ^ 64" "base_gas unmarshal data create homestead = Inr g"
  shows "(\<forall>gas. IntrinsicGas unmarshal data None create homestead eip = Inr gas \<longrightarrow>
      unat gas = unat g + data_cost data eip) \<and>
    (IntrinsicGas unmarshal data None create homestead eip = Inl ''gas uint64 overflow'' \<longleftrightarrow>
      2 ^ 64 \<le> unat g + data_cost data eip)"
  using IntrinsicGas_None [OF assms, of eip] unat_plus_small [of g "word_of_nat (data_cost data eip)"]
  by (auto simp: unat_of_nat take_bit_nat_eq_self)

theorem IntrinsicGas_exact_witness:
  "IntrinsicGas (\<lambda>_. None) [0, 7, 7] None False True True = Inr 21036 \<and> data_cost [0, 7, 7] True = 36 \<and>
    unat (21036 :: uint64) = unat (21000 :: uint64) + data_cost [0, 7, 7] True"
  using IntrinsicGas_exact [of "[0, 7, 7]" "\<lambda>_. None" False True 21000 True]
  by (simp add: IntrinsicGas_def base_gas_def IsWormholesNFTTx_def data_gas_def count_nz_def gas_params Let_def
    data_cost_def nonZeroGas_def TransactionTypeLen_def)

subsection \<open>The steps of a transaction on the ledger\<close>

text \<open>A step that acts on the ledger as the function says and can be undone.\<close>
definition moves :: "StateDB \<Rightarrow> (ledger \<Rightarrow> ledger) \<Rightarrow> StateDB \<Rightarrow> bool" where
  "moves s g s' \<longleftrightarrow> ledger_of s' = g (ledger_of s) \<and> undoable s s'"

abbreviation credit :: "address \<Rightarrow> int \<Rightarrow> ledger \<Rightarrow> ledger" where
  "credit a v \<equiv> on_account a (\<lambda>x. x\<lparr>l_Balance := l_Balance x + v\<rparr>)"

lemma moves_trans: "\<lbrakk>moves s f t; moves t g u\<rbrakk> \<Longrightarrow> moves s (\<lambda>L. g (f L)) u"
  by (auto simp: moves_def intro: undoable_trans)

lemma moves_refl: "moves s (\<lambda>L. L) s"
  by (simp add: moves_def undoable_refl)

lemma load_moves: "moves s (\<lambda>L. L) (s\<lparr>stateObjects := (stateObjects s)(a := peek s a)\<rparr>)"
  by (simp add: moves_def load_undoable)

lemma getters_move:
  "moves s (\<lambda>L. L) (snd (db_GetBalance s a))" "moves s (\<lambda>L. L) (snd (db_GetNonce s a))"
  "moves s (\<lambda>L. L) (snd (db_GetCodeHash s a))" "moves s (\<lambda>L. L) (snd (CanTransfer s a v))"
proof -
  show *: "moves s (\<lambda>L. L) (snd (db_GetBalance s a))" "moves s (\<lambda>L. L) (snd (db_GetNonce s a))"
    "moves s (\<lambda>L. L) (snd (db_GetCodeHash s a))"
    using load_moves [of s a]
    by (simp_all add: db_GetBalance_def db_GetNonce_def db_GetCodeHash_def getStateObject_eq split: option.split)
  show "moves s (\<lambda>L. L) (snd (CanTransfer s a v))"
    using *(1) by (cases "db_GetBalance s a") (simp add: CanTransfer_def)
qed

lemma SetNonce_yields: "yields (db_SetNonce s a n) s (on_account a (l_Nonce_update (\<lambda>_. n)))"
  unfolding db_SetNonce_def Let_def
  by (rule yields_pre [OF so_SetNonce_yields]) (simp_all add: has_live)

lemma balances_move:
  "db_AddBalance s a v = Some s' \<Longrightarrow> moves s (credit a v) s'"
  "db_SubBalance s a v = Some s' \<Longrightarrow> moves s (credit a (- v)) s'"
  "db_SetNonce s a n = Some s' \<Longrightarrow> moves s (on_account a (l_Nonce_update (\<lambda>_. n))) s'"
proof -
  show "db_AddBalance s a v = Some s' \<Longrightarrow> moves s (credit a v) s'"
    using balance_ops_yield(1) [of s a v] safe_balances(1) [of s a v] by (auto simp: yields_def safe_def moves_def)
  show "db_SubBalance s a v = Some s' \<Longrightarrow> moves s (credit a (- v)) s'"
    using balance_ops_yield(2) [of s a v] safe_balances(2) [of s a v] by (auto simp: yields_def safe_def moves_def)
  show "db_SetNonce s a n = Some s' \<Longrightarrow> moves s (on_account a (l_Nonce_update (\<lambda>_. n))) s'"
    using SetNonce_yields [of s a n] safe_balances(4) [of s a n] by (auto simp: yields_def safe_def moves_def)
qed

lemma access_moves:
  "moves s (\<lambda>L. L) (AddAddressToAccessList s a)"
  "AddSlotToAccessList s a k = Some s' \<Longrightarrow> moves s (\<lambda>L. L) s'"
proof -
  have "ledger_of (AddAddressToAccessList s a) = ledger_of s"
    by (rule ledger_of_cong) (simp add: AddAddressToAccessList_def Let_def split: prod.split)
  then show "moves s (\<lambda>L. L) (AddAddressToAccessList s a)" by (simp add: moves_def AddAddress_undoable)
  show "moves s (\<lambda>L. L) s'" if "AddSlotToAccessList s a k = Some s'"
  proof -
    have "ledger_of s' = ledger_of s"
      using that by (intro ledger_of_cong) (auto simp: AddSlotToAccessList_def Let_def Option.bind_eq_Some_conv)
    then show ?thesis using AddSlot_undoable [OF that] by (simp add: moves_def)
  qed
qed

lemma moves_ok: "\<lbrakk>moves s g s'; db_ok s\<rbrakk> \<Longrightarrow> db_ok s'"
  by (simp add: moves_def undoable_def grows_def)

lemma add_slots_moves: "add_slots a keys s = Some s' \<Longrightarrow> moves s (\<lambda>L. L) s'"
proof (induction keys arbitrary: s)
  case (Cons k keys)
  then obtain s1 where s1: "AddSlotToAccessList s a k = Some s1" "add_slots a keys s1 = Some s'"
    by (auto simp: Option.bind_eq_Some_conv)
  from moves_trans [OF access_moves(2) [OF s1(1)] Cons.IH [OF s1(2)]] show ?case .
qed (simp add: moves_refl)

lemma add_slots_total: "db_ok s \<Longrightarrow> \<exists>s'. add_slots a keys s = Some s'"
proof (induction keys arbitrary: s)
  case (Cons k keys)
  obtain s1 where s1: "AddSlotToAccessList s a k = Some s1" using AddSlot_total [OF Cons.prems] by blast
  from Cons.IH [OF moves_ok [OF access_moves(2) [OF s1] Cons.prems]] show ?case by (simp add: s1)
qed simp

lemma add_elements_moves: "add_elements els s = Some s' \<Longrightarrow> moves s (\<lambda>L. L) s'"
proof (induction els arbitrary: s)
  case (Cons el els)
  then obtain s1 where s1: "add_slots (fst el) (snd el) (AddAddressToAccessList s (fst el)) = Some s1"
    "add_elements els s1 = Some s'" by (auto simp: Option.bind_eq_Some_conv)
  from moves_trans [OF moves_trans [OF access_moves(1) add_slots_moves [OF s1(1)]] Cons.IH [OF s1(2)]] show ?case .
qed (simp add: moves_refl)

lemma add_elements_total: "db_ok s \<Longrightarrow> \<exists>s'. add_elements els s = Some s'"
proof (induction els arbitrary: s)
  case (Cons el els)
  let ?s = "AddAddressToAccessList s (fst el)"
  have "db_ok ?s" by (rule moves_ok [OF access_moves(1) Cons.prems])
  then obtain s1 where s1: "add_slots (fst el) (snd el) ?s = Some s1" using add_slots_total by blast
  from Cons.IH [OF moves_ok [OF add_slots_moves [OF s1] \<open>db_ok ?s\<close>]] show ?case by (simp add: s1)
qed simp

lemma add_addresses_moves: "moves s (\<lambda>L. L) (foldl AddAddressToAccessList s as)"
proof (induction "as" arbitrary: s)
  case (Cons a "as")
  from moves_trans [OF access_moves(1) Cons.IH] show ?case by simp
qed (simp add: moves_refl)

lemma prepare_parts:
  obtains "prepare evm msg s = Some s"
  | s1 els where "prepare evm msg s = add_elements els s1" "moves s (\<lambda>L. L) s1"
proof (cases "e_IsBerlin evm")
  case True
  let ?s1 = "AddAddressToAccessList s (tm_From msg)"
  let ?s2 = "case tm_To msg of None \<Rightarrow> ?s1 | Some d \<Rightarrow> AddAddressToAccessList ?s1 d"
  have s2: "moves s (\<lambda>L. L) ?s2"
    using access_moves(1) [of s] moves_trans [OF access_moves(1) access_moves(1)] by (simp split: option.split)
  from moves_trans [OF this add_addresses_moves] show thesis
    by (rule that(2) [rotated]) (simp add: True prepare_def PrepareAccessList_def Let_def)
next
  case False
  then show thesis using that(1) by (simp add: prepare_def)
qed

lemma prepare_moves: "prepare evm msg s = Some s' \<Longrightarrow> moves s (\<lambda>L. L) s'"
  by (cases rule: prepare_parts [of evm msg s])
    (auto simp: moves_refl dest!: add_elements_moves intro: moves_trans [where f = "\<lambda>L. L" and g = "\<lambda>L. L"])

lemma prepare_total: "db_ok s \<Longrightarrow> \<exists>s'. prepare evm msg s = Some s'"
  by (cases rule: prepare_parts [of evm msg s]) (auto intro: add_elements_total dest: moves_ok)

lemma check_sender_moves: "check_sender msg s = (err, s') \<Longrightarrow> moves s (\<lambda>L. L) s'"
  using getters_move(2) [of s "tm_From msg"] getters_move(3) [of "snd (db_GetNonce s (tm_From msg))" "tm_From msg"]
    moves_trans [of s "\<lambda>L. L" _ "\<lambda>L. L"]
  by (auto simp: check_sender_def moves_refl Let_def split: prod.splits if_splits)

lemma buyGas_Inr:
  assumes "buyGas evm msg st = Some (Inr u, st')"
  shows "tm_Gas msg \<le> st_gp st" "balanceCheck evm msg \<le> l_Balance (ledger_of (st_db st) (tm_From msg))"
    "st_gp st' = st_gp st - tm_Gas msg" "st_gas st' = st_gas st + tm_Gas msg" "st_initialGas st' = tm_Gas msg"
    "moves (st_db st) (credit (tm_From msg) (- (uint (tm_Gas msg) * tm_GasPrice msg))) (st_db st')"
proof -
  obtain b db where b: "db_GetBalance (st_db st) (tm_From msg) = (b, db)" by fastforce
  have db: "b = l_Balance (ledger_of (st_db st) (tm_From msg))" "moves (st_db st) (\<lambda>L. L) db"
    using GetBalance_ledger(1) [of "st_db st" "tm_From msg"] getters_move(1) [of "st_db st" "tm_From msg"] b by simp_all
  have enough: "\<not> b < balanceCheck evm msg"
    using assms b by (auto simp: buyGas_def Let_def)
  then obtain gp db' where *: "gp_SubGas (st_gp st) (tm_Gas msg) = Inr gp"
      "db_SubBalance db (tm_From msg) (uint (tm_Gas msg) * tm_GasPrice msg) = Some db'"
      "st' = st\<lparr>st_db := db', st_gp := gp, st_gas := st_gas st + tm_Gas msg, st_initialGas := tm_Gas msg\<rparr>"
    using assms b by (auto simp: buyGas_def Let_def bind_eq_Some_conv split: sum.splits)
  show "tm_Gas msg \<le> st_gp st" "balanceCheck evm msg \<le> l_Balance (ledger_of (st_db st) (tm_From msg))"
    "st_gp st' = st_gp st - tm_Gas msg" "st_gas st' = st_gas st + tm_Gas msg" "st_initialGas st' = tm_Gas msg"
    using * enough db(1) by (auto simp: gp_SubGas_def split: if_splits)
  show "moves (st_db st) (credit (tm_From msg) (- (uint (tm_Gas msg) * tm_GasPrice msg))) (st_db st')"
    using moves_trans [OF db(2) balances_move(2) [OF *(2)]] *(3) by simp
qed

lemma unit_result_neq: "(y :: unit result) \<noteq> Inr () \<longleftrightarrow> (\<exists>e. y = Inl e)"
  by (cases y) auto

lemma preCheck_Inr:
  assumes "preCheck evm msg st = Some (Inr u, st')"
  shows "tm_Gas msg \<le> st_gp st" "balanceCheck evm msg \<le> l_Balance (ledger_of (st_db st) (tm_From msg))"
    "st_gp st' = st_gp st - tm_Gas msg" "st_gas st' = st_gas st + tm_Gas msg" "st_initialGas st' = tm_Gas msg"
    "moves (st_db st) (credit (tm_From msg) (- (uint (tm_Gas msg) * tm_GasPrice msg))) (st_db st')"
proof -
  obtain err db where c: "check_sender msg (st_db st) = (err, db)" by fastforce
  note db = check_sender_moves [OF c]
  have buy: "buyGas evm msg (st\<lparr>st_db := db\<rparr>) = Some (Inr u, st')"
    using assms c by (auto simp: preCheck_def Let_def bind_eq_Some_conv unit_result_neq split: sum.splits)
  show "tm_Gas msg \<le> st_gp st" "balanceCheck evm msg \<le> l_Balance (ledger_of (st_db st) (tm_From msg))"
    "st_gp st' = st_gp st - tm_Gas msg" "st_gas st' = st_gas st + tm_Gas msg" "st_initialGas st' = tm_Gas msg"
    using buyGas_Inr(1-5) [OF buy] db by (simp_all add: moves_def)
  show "moves (st_db st) (credit (tm_From msg) (- (uint (tm_Gas msg) * tm_GasPrice msg))) (st_db st')"
    using moves_trans [OF db] buyGas_Inr(6) [OF buy] by simp
qed

lemma can_pay_moves: "can_pay evm msg s = (ok, s') \<Longrightarrow> moves s (\<lambda>L. L) s'"
  using getters_move(4) [of s "tm_From msg" "tm_Value msg"]
  by (auto simp: can_pay_def moves_refl split: option.splits if_splits)

lemma refundGas_Some:
  assumes "refundGas msg q st = Some st'"
  obtains rf where "rf \<le> gasUsed st div q" "st_gas st' = st_gas st + rf" "st_initialGas st' = st_initialGas st"
    "gp_AddGas (st_gp st) (st_gas st') = Some (st_gp st')"
    "moves (st_db st) (credit (tm_From msg) (uint (st_gas st') * tm_GasPrice msg)) (st_db st')"
proof -
  define rf where "rf = (if gasUsed st div q > db_GetRefund (st_db st) then db_GetRefund (st_db st) else gasUsed st div q)"
  obtain db gp where *: "db_AddBalance (st_db st) (tm_From msg) (uint (st_gas st + rf) * tm_GasPrice msg) = Some db"
      "gp_AddGas (st_gp st) (st_gas st + rf) = Some gp" "st' = st\<lparr>st_gas := st_gas st + rf, st_db := db, st_gp := gp\<rparr>"
    using assms by (auto simp: refundGas_def Let_def rf_def [symmetric] bind_eq_Some_conv)
  show thesis
    by (rule that [of rf]) (use * balances_move(1) [OF *(1)] in \<open>auto simp: rf_def split: if_splits\<close>)
qed

text \<open>The parts of a transaction that was executed.\<close>
lemma ApplyMessage_Inr:
  assumes "ApplyMessage evm msg gp db = Some (Inr res, st')"
  obtains g db2 r db3 rf where
    "tm_Gas msg \<le> gp" "balanceCheck evm msg \<le> l_Balance (ledger_of db (tm_From msg))"
    "IntrinsicGas (e_unmarshal evm) (tm_Data msg) (tm_AccessList msg) (tm_To msg = None)
      (e_IsHomestead evm) (e_IsIstanbul evm) = Inr g" "g \<le> tm_Gas msg"
    "moves db (credit (tm_From msg) (- (uint (tm_Gas msg) * tm_GasPrice msg))) db2"
    "execute evm msg db2 (tm_Gas msg - g) = Some (r, db3)" "er_Err res = cr_err r"
    "rf \<le> (tm_Gas msg - cr_gas r) div (if e_IsLondon evm then RefundQuotientEIP3529 else RefundQuotient)"
    "st_gas st' = cr_gas r + rf" "er_UsedGas res = tm_Gas msg - st_gas st'"
    "gp_AddGas (gp - tm_Gas msg) (st_gas st') = Some (st_gp st')"
    "moves db3 (\<lambda>L. credit (e_Coinbase evm) (uint (er_UsedGas res) * tm_GasPrice msg)
      (credit (tm_From msg) (uint (st_gas st') * tm_GasPrice msg) L)) (st_db st')"
proof -
  let ?st = "\<lparr>st_gp = gp, st_gas = 0, st_initialGas = 0, st_db = db\<rparr>"
  let ?intr = "IntrinsicGas (e_unmarshal evm) (tm_Data msg) (tm_AccessList msg) (tm_To msg = None)
      (e_IsHomestead evm) (e_IsIstanbul evm)"
  let ?q = "if e_IsLondon evm then RefundQuotientEIP3529 else RefundQuotient"
  obtain err st1 where pre1: "preCheck evm msg ?st = Some (err, st1)"
    using assms by (auto simp: ApplyMessage_def TransitionDb_def bind_eq_Some_conv)
  then obtain u where pre: "preCheck evm msg ?st = Some (Inr u, st1)"
    using assms by (cases err) (auto simp: ApplyMessage_def TransitionDb_def)
  note st1 = preCheck_Inr [OF pre]
  obtain g where g: "?intr = Inr g" "\<not> st_gas st1 < g"
    using assms pre by (auto simp: ApplyMessage_def TransitionDb_def split: sum.splits if_splits)
  obtain ok db1 where pay1: "can_pay evm msg (st_db st1) = (ok, db1)" by fastforce
  have ok: ok
    using assms pre g pay1 by (auto simp: ApplyMessage_def TransitionDb_def Let_def split: if_splits)
  obtain db2 where prep: "prepare evm msg db1 = Some db2"
    using assms pre g pay1 ok
    by (cases "prepare evm msg db1") (auto simp: ApplyMessage_def TransitionDb_def Let_def)
  note pay = pay1 prep
  obtain r db3 where ex: "execute evm msg db2 (st_gas st1 - g) = Some (r, db3)"
    using assms pre g pay ok
    by (cases "execute evm msg db2 (st_gas st1 - g)") (auto simp: ApplyMessage_def TransitionDb_def Let_def)
  define st2 where "st2 = st1\<lparr>st_db := db3, st_gas := cr_gas r\<rparr>"
  obtain st3 where ref: "refundGas msg ?q st2 = Some st3"
    using assms pre g pay ok ex
    by (cases "refundGas msg ?q st2") (auto simp: ApplyMessage_def TransitionDb_def Let_def st2_def)
  obtain db4 where fee: "db_AddBalance (st_db st3) (e_Coinbase evm) (uint (gasUsed st3) * tm_GasPrice msg) = Some db4"
      "st' = st3\<lparr>st_db := db4\<rparr>" "res = \<lparr>er_UsedGas = gasUsed st3, er_Err = cr_err r, er_ReturnData = cr_ret r\<rparr>"
    using assms pre g pay ok ex ref
    by (auto simp: ApplyMessage_def TransitionDb_def Let_def st2_def bind_eq_Some_conv)
  obtain rf where rf: "rf \<le> gasUsed st2 div ?q" "st_gas st3 = st_gas st2 + rf" "st_initialGas st3 = st_initialGas st2"
      "gp_AddGas (st_gp st2) (st_gas st3) = Some (st_gp st3)"
      "moves (st_db st2) (credit (tm_From msg) (uint (st_gas st3) * tm_GasPrice msg)) (st_db st3)"
    using ref by (rule refundGas_Some)
  show thesis
  proof (rule that [of g db2 r db3 rf])
    show "moves db (credit (tm_From msg) (- (uint (tm_Gas msg) * tm_GasPrice msg))) db2"
      using moves_trans [OF moves_trans [OF st1(6) can_pay_moves [OF pay1]] prepare_moves [OF prep]] by simp
    show "moves db3 (\<lambda>L. credit (e_Coinbase evm) (uint (er_UsedGas res) * tm_GasPrice msg)
        (credit (tm_From msg) (uint (st_gas st') * tm_GasPrice msg) L)) (st_db st')"
      using moves_trans [OF rf(5) balances_move(1) [OF fee(1)]] fee(2,3) by (simp add: st2_def)
  qed (use st1 g ex rf fee in \<open>simp_all add: st2_def gasUsed_def not_less\<close>)
qed

subsection \<open>Gas\<close>

text \<open>The interpreter returns no more gas than it was given.\<close>
definition code_gas_ok :: "EVM \<Rightarrow> bool" where
  "code_gas_ok evm \<longleftrightarrow>
    (\<forall>db caller addr inp gas v r db'. e_run evm db caller addr inp gas v = Some (r, db') \<longrightarrow> cr_gas r \<le> gas) \<and>
    (\<forall>db caller inp gas v r db'. e_Create evm db caller inp gas v = Some (r, db') \<longrightarrow> cr_gas r \<le> gas)"

definition gas_le :: "uint64 \<Rightarrow> call_result outcome \<Rightarrow> bool" where
  "gas_le gas m \<longleftrightarrow> (\<forall>r db. m = Some (r, db) \<longrightarrow> cr_gas r \<le> gas)"

lemma gas_le_simps [simp]: "gas_le gas None" "gas_le gas (Some (r, db)) = (cr_gas r \<le> gas)"
  by (simp_all add: gas_le_def)

lemma gas_le_bind: "(\<And>x. m = Some x \<Longrightarrow> gas_le gas (k x)) \<Longrightarrow> gas_le gas (Option.bind m k)"
  by (cases m) simp_all

lemma Call_gas:
  assumes "\<And>db. gas_le gas (run db caller addr inp gas v)"
  shows "gas_le gas (Call unmarshal run noRecursion depth n s caller addr inp gas v)"
proof -
  have "gas_le gas (do {
      (r, db) \<leftarrow> run db caller addr inp gas v;
      case cr_err r of
        Inr _ \<Rightarrow> Some (r, db)
      | Inl e \<Rightarrow> do {
          db \<leftarrow> RevertToSnapshot db snapshot;
          Some (if e \<noteq> ''execution reverted'' then r\<lparr>cr_gas := 0\<rparr> else r, db)
        }
    })" for db snapshot
    using assms [of db] by (cases "run db caller addr inp gas v") (auto intro!: gas_le_bind split: sum.split)
  then show ?thesis by (auto simp: Call_def Let_def intro!: gas_le_bind split: sum.split prod.split)
qed

lemma execute_gas: "\<lbrakk>code_gas_ok evm; execute evm msg db gas = Some (r, db')\<rbrakk> \<Longrightarrow> cr_gas r \<le> gas"
proof -
  assume code: "code_gas_ok evm" and ex: "execute evm msg db gas = Some (r, db')"
  have run: "gas_le gas (e_run evm db caller addr inp gas v)" "gas_le gas (e_Create evm db caller inp gas v)"
    for db caller addr inp v
    using code unfolding code_gas_ok_def gas_le_def by blast+
  have "gas_le gas (execute evm msg db gas)"
    by (auto simp: execute_def run intro!: gas_le_bind Call_gas split: option.split prod.split)
  then show ?thesis using ex by simp
qed

text \<open>A share of what is used up comes back.\<close>
lemma refund_share:
  assumes "(g :: nat) \<le> u" "2 \<le> q" "rf \<le> u div q"
  shows "g - g div 2 \<le> u - rf"
proof -
  have "u div q \<le> u div 2" using assms(2) by (rule div_le_mono2 [rotated]) simp
  then show ?thesis using assms by linarith
qed

text \<open>The gas that is left after the refund is part of the gas that was bought.\<close>
lemma remaining_gas:
  assumes "g \<le> gas" "c \<le> gas - g" "rf \<le> (gas - c) div q" "(q :: uint64) = 2 \<or> q = 5"
  shows "unat (c + rf) = unat c + unat rf" "unat c + unat rf \<le> unat gas"
    "unat g - unat g div 2 \<le> unat gas - (unat c + unat rf)"
proof -
  have c: "unat c \<le> unat gas - unat g" "unat g \<le> unat gas"
    using assms(1,2) by (simp_all add: word_le_nat_alt unat_sub)
  then have "c \<le> gas" by (simp add: word_le_nat_alt)
  then have rf: "unat rf \<le> (unat gas - unat c) div unat q"
    using assms(3) by (simp add: word_le_nat_alt unat_div unat_sub)
  have q: "2 \<le> unat q" using assms(4) by auto
  have "(unat gas - unat c) div unat q \<le> unat gas - unat c" by simp
  then show small: "unat c + unat rf \<le> unat gas" using rf c by linarith
  then show "unat (c + rf) = unat c + unat rf" using unat_uint64 [of gas] by (intro unat_plus_small) linarith
  show "unat g - unat g div 2 \<le> unat gas - (unat c + unat rf)"
    using refund_share [OF _ q rf, of "unat g"] c by linarith
qed

lemma ApplyMessage_gas_bounds:
  assumes code: "code_gas_ok evm" and app: "ApplyMessage evm msg gp db = Some (Inr res, st')"
  shows "unat (st_gp st') + unat (er_UsedGas res) = unat gp" "unat (er_UsedGas res) + unat (st_gas st') = unat (tm_Gas msg)"
    "\<exists>g. IntrinsicGas (e_unmarshal evm) (tm_Data msg) (tm_AccessList msg) (tm_To msg = None)
      (e_IsHomestead evm) (e_IsIstanbul evm) = Inr g \<and> unat g - unat g div 2 \<le> unat (er_UsedGas res)"
proof -
  obtain g db2 r db3 rf where *: "tm_Gas msg \<le> gp"
    "IntrinsicGas (e_unmarshal evm) (tm_Data msg) (tm_AccessList msg) (tm_To msg = None)
      (e_IsHomestead evm) (e_IsIstanbul evm) = Inr g" "g \<le> tm_Gas msg"
    "execute evm msg db2 (tm_Gas msg - g) = Some (r, db3)"
    "rf \<le> (tm_Gas msg - cr_gas r) div (if e_IsLondon evm then RefundQuotientEIP3529 else RefundQuotient)"
    "st_gas st' = cr_gas r + rf" "er_UsedGas res = tm_Gas msg - st_gas st'"
    "gp_AddGas (gp - tm_Gas msg) (st_gas st') = Some (st_gp st')"
    using app by (rule ApplyMessage_Inr)
  note rest = remaining_gas [OF *(3) execute_gas [OF code *(4)] *(5)]
  have q: "(if e_IsLondon evm then RefundQuotientEIP3529 else RefundQuotient) = 2 \<or>
      (if e_IsLondon evm then RefundQuotientEIP3529 else RefundQuotient) = 5"
    by (simp add: RefundQuotient_def RefundQuotientEIP3529_def)
  note rest = rest [OF q]
  have gas: "unat (st_gas st') \<le> unat (tm_Gas msg)" using rest(1,2) *(6) by simp
  then have used: "unat (er_UsedGas res) = unat (tm_Gas msg) - unat (st_gas st')"
    using *(7) by (simp add: unat_sub word_le_nat_alt)
  then show "unat (er_UsedGas res) + unat (st_gas st') = unat (tm_Gas msg)" using gas by simp
  have "st_gp st' = gp - tm_Gas msg + st_gas st'" "unat (gp - tm_Gas msg) + unat (st_gas st') < 2 ^ 64"
    using *(8) by (auto simp: gp_AddGas_nat split: if_splits)
  then have "unat (st_gp st') = unat gp - unat (tm_Gas msg) + unat (st_gas st')"
    using *(1) by (simp add: unat_plus_small unat_sub)
  then show "unat (st_gp st') + unat (er_UsedGas res) = unat gp"
    using *(1) used gas by (simp add: word_le_nat_alt)
  show "\<exists>g. IntrinsicGas (e_unmarshal evm) (tm_Data msg) (tm_AccessList msg) (tm_To msg = None)
      (e_IsHomestead evm) (e_IsIstanbul evm) = Inr g \<and> unat g - unat g div 2 \<le> unat (er_UsedGas res)"
    using *(2) rest(1,3) *(6) used by auto
qed

text \<open>
  C24.  Gas accounting: if the interpreter returns no more gas than it was given, then a block's
  gas pool loses exactly the gas a transaction reports as used; this is at most the gas limit of
  the transaction and, whatever the refund counter says, at least half of its intrinsic gas.
\<close>
theorem ApplyMessage_gas:
  assumes "code_gas_ok evm" "ApplyMessage evm msg gp db = Some (Inr res, st')"
  shows "unat (st_gp st') + unat (er_UsedGas res) = unat gp \<and> er_UsedGas res \<le> tm_Gas msg \<and>
    (\<exists>g. IntrinsicGas (e_unmarshal evm) (tm_Data msg) (tm_AccessList msg) (tm_To msg = None)
      (e_IsHomestead evm) (e_IsIstanbul evm) = Inr g \<and> unat g - unat g div 2 \<le> unat (er_UsedGas res))"
  using ApplyMessage_gas_bounds [OF assms] by (auto simp: word_le_nat_alt)

text \<open>A chain with no contract code: every call ends at once and every creation fails.\<close>
definition sample_evm :: EVM where
  "sample_evm = \<lparr>e_unmarshal = (\<lambda>_. None),
     e_run = (\<lambda>db caller addr inp gas v. Some (\<lparr>cr_ret = [], cr_gas = gas, cr_err = Inr ()\<rparr>, db)),
     e_Create = (\<lambda>db caller inp gas v. Some (\<lparr>cr_ret = [], cr_gas = 0, cr_err = Inl ''out of gas''\<rparr>, db)),
     e_NoRecursion = False, e_NoBaseFee = False, e_IsHomestead = True, e_IsIstanbul = True, e_IsLondon = False,
     e_IsBerlin = True, e_ActivePrecompiles = [1, 2, 3], e_BlockNumber = 7, e_BaseFee = None, e_Coinbase = 300\<rparr>"

definition sample_message :: TxMessage where
  "sample_message = \<lparr>tm_From = 100, tm_To = Some 200, tm_GasPrice = 3, tm_GasFeeCap = None, tm_GasTipCap = None,
     tm_Gas = 30000, tm_Value = 5, tm_Nonce = 0, tm_IsFake = False, tm_Data = [], tm_AccessList = Some [(200, [7])]\<rparr>"

subsection \<open>The total supply\<close>

text \<open>
  What is assumed of contract code: it changes the state through the methods of StateDB only, and
  it neither creates nor destroys tokens on a ledger that satisfies the staking invariant.
\<close>
definition code_runs :: "EVM \<Rightarrow> bool" where
  "code_runs evm \<longleftrightarrow>
    (\<forall>db caller addr inp gas v r db'. e_run evm db caller addr inp gas v = Some (r, db') \<longrightarrow> runs db db') \<and>
    (\<forall>db caller inp gas v r db'. e_Create evm db caller inp gas v = Some (r, db') \<longrightarrow> runs db db')"

definition code_conserves :: "EVM \<Rightarrow> bool" where
  "code_conserves evm \<longleftrightarrow>
    (\<forall>db caller addr inp gas v r db'. staking_ok (ledger_of db) \<and> 0 \<le> v \<and>
      e_run evm db caller addr inp gas v = Some (r, db') \<longrightarrow>
      wealth UNIV (ledger_of db') = wealth UNIV (ledger_of db)) \<and>
    (\<forall>db caller inp gas v r db'. staking_ok (ledger_of db) \<and> 0 \<le> v \<and>
      e_Create evm db caller inp gas v = Some (r, db') \<longrightarrow>
      wealth UNIV (ledger_of db') = wealth UNIV (ledger_of db))"

lemma staking_ok_account:
  assumes "\<And>x. l_Stakes (f x) = l_Stakes x" "\<And>x. l_Backers (f x) = l_Backers x" "\<And>x. l_Pledged (f x) = l_Pledged x"
    "\<And>x. l_Coef (f x) = l_Coef x" "\<And>x. l_Staker (f x) = l_Staker x"
  shows "staking_ok (on_account a f L) = staking_ok L"
proof -
  have "pledges_ok (on_account a f L) = pledges_ok L" using assms by (intro pledges_ok_cong) simp_all
  then show ?thesis using assms by (simp add: staking_ok_def credit_ok_def)
qed

lemma Call_conserves:
  assumes "\<forall>db r db'. run db caller addr inp gas v = Some (r, db') \<longrightarrow> runs db db'"
    and code: "\<forall>db r db'. staking_ok (ledger_of db) \<and> run db caller addr inp gas v = Some (r, db') \<longrightarrow>
      wealth UNIV (ledger_of db') = wealth UNIV (ledger_of db)"
    and "db_ok s" "revs_ok s" and ok: "staking_ok (ledger_of s)" "0 \<le> v"
    and "Call unmarshal run noRecursion depth n s caller addr inp gas v = Some (r, s')"
  shows "wealth UNIV (ledger_of s') = wealth UNIV (ledger_of s)"
proof -
  have handled: "wealth UNIV (ledger_of s5) = wealth UNIV (ledger_of s)" "staking_ok (ledger_of s5)"
    if "(case payload of Some wh \<Rightarrow> HandleCSBT s4 caller addr wh v n
        | None \<Rightarrow> do { db \<leftarrow> Transfer s4 caller addr v; Some (Inr (), db) }) = Some (err, s5)"
      and s4: "ledger_of s4 = ledger_of s" for payload s4 s5 err
  proof -
    have p: "pledges_ok (ledger_of s)" using ok(1) by (simp add: staking_ok_def)
    have "wealth UNIV (ledger_of s5) = wealth UNIV (ledger_of s) \<and> staking_ok (ledger_of s5)"
    proof (cases payload)
      case None
      then have "ledger_of s5 = L_Transfer caller addr v (ledger_of s)"
        using that(1) s4 Transfer_yields [of s4 caller addr v] by (auto simp: yields_def)
      then show ?thesis using ok(1) by (simp add: wealth_Transfer staking_ok_def)
    next
      case (Some wh)
      then have "ledger_of s5 = snd (L_HandleCSBT caller addr wh v n (ledger_of s))"
        using that(1) s4 HandleCSBT_refines [of s4 caller addr wh v n] by (auto simp: refines_def)
      then show ?thesis
        using wealth_HandleCSBT [OF p ok(2), of UNIV caller addr wh n] staking_ok_HandleCSBT [OF ok, of caller addr wh n]
        by simp
    qed
    then show "wealth UNIV (ledger_of s5) = wealth UNIV (ledger_of s)" "staking_ok (ledger_of s5)" by blast+
  qed
  show ?thesis using Call_outcome [OF assms(1,3,4,7)] handled code by metis
qed

lemma execute_conserves:
  assumes "code_runs evm" "code_conserves evm" "db_ok s" "revs_ok s" "staking_ok (ledger_of s)" "0 \<le> tm_Value msg"
    and ex: "execute evm msg s gas = Some (r, s')"
  shows "wealth UNIV (ledger_of s') = wealth UNIV (ledger_of s)"
proof (cases "tm_To msg")
  case None
  then show ?thesis using assms by (auto simp: execute_def code_conserves_def)
next
  case (Some addr)
  obtain nonce s1 where n: "db_GetNonce s (tm_From msg) = (nonce, s1)" by fastforce
  obtain s2 where s2: "db_SetNonce s1 (tm_From msg) (nonce + 1) = Some s2"
    and call: "Call (e_unmarshal evm) (e_run evm) (e_NoRecursion evm) 0 (e_BlockNumber evm) s2
      (tm_From msg) addr (tm_Data msg) gas (tm_Value msg) = Some (r, s')"
    using ex Some n by (auto simp: execute_def bind_eq_Some_conv)
  have "moves s (\<lambda>L. L) s1" using getters_move(2) [of s "tm_From msg"] n by simp
  then have m: "moves s (on_account (tm_From msg) (l_Nonce_update (\<lambda>_. nonce + 1))) s2"
    using moves_trans balances_move(3) [OF s2] by fastforce
  then have ok: "db_ok s2" "revs_ok s2" "staking_ok (ledger_of s2)"
    using undoable_ok assms(3-5) by (auto simp: moves_def staking_ok_account)
  have "wealth UNIV (ledger_of s') = wealth UNIV (ledger_of s2)"
    using assms(1,2,6)
    by (intro Call_conserves [OF _ _ ok assms(6) call]) (auto simp: code_runs_def code_conserves_def)
  then show ?thesis using m by (simp add: moves_def wealth_on_account)
qed

text \<open>
  C23.  A transaction conserves the total supply.  Suppose that contract code changes the state
  through the methods of StateDB, returns no more gas than it was given and conserves tokens.
  Then executing a transaction with a non-negative value, whether it transfers, pledges, withdraws
  a pledge, creates or calls a contract, and whether the call succeeds or fails, leaves the sum of
  all balances and pledges unchanged: what the sender pays for gas is what is refunded to it and
  what the coinbase receives.
\<close>
theorem ApplyMessage_conserves:
  assumes "code_gas_ok evm" "code_runs evm" "code_conserves evm" "db_ok db" "revs_ok db"
    "staking_ok (ledger_of db)" "0 \<le> tm_Value msg"
    and app: "ApplyMessage evm msg gp db = Some (Inr res, st')"
  shows "wealth UNIV (ledger_of (st_db st')) = wealth UNIV (ledger_of db)"
proof -
  obtain g db2 r db3 rf where *:
    "moves db (credit (tm_From msg) (- (uint (tm_Gas msg) * tm_GasPrice msg))) db2"
    "execute evm msg db2 (tm_Gas msg - g) = Some (r, db3)"
    "moves db3 (\<lambda>L. credit (e_Coinbase evm) (uint (er_UsedGas res) * tm_GasPrice msg)
      (credit (tm_From msg) (uint (st_gas st') * tm_GasPrice msg) L)) (st_db st')"
    using app by (rule ApplyMessage_Inr)
  have db2: "db_ok db2" "revs_ok db2" "staking_ok (ledger_of db2)"
    using *(1) undoable_ok assms(4-6) by (auto simp: moves_def staking_ok_account)
  have "uint (er_UsedGas res) + uint (st_gas st') = uint (tm_Gas msg)"
    using ApplyMessage_gas_bounds(2) [OF assms(1) app] by (simp only: of_nat_add [symmetric] uint_nat)
  then have "uint (er_UsedGas res) * tm_GasPrice msg + uint (st_gas st') * tm_GasPrice msg = uint (tm_Gas msg) * tm_GasPrice msg"
    by (simp add: distrib_right [symmetric])
  then show ?thesis
    using *(1,3) execute_conserves [OF assms(2,3) db2 assms(7) *(2)]
    by (simp add: moves_def wealth_on_account)
qed

subsection \<open>Acceptance\<close>

definition code_total :: "EVM \<Rightarrow> bool" where
  "code_total evm \<longleftrightarrow> (\<forall>db caller addr inp gas v. e_run evm db caller addr inp gas v \<noteq> None) \<and>
    (\<forall>db caller inp gas v. e_Create evm db caller inp gas v \<noteq> None)"

lemma balances_total:
  obtains s' where "db_AddBalance s a v = Some s'"
  using balance_ops_yield(1) [of s a v] by (auto simp: yields_def)

lemma Call_check_total:
  obtains r s' where "Call_check s caller addr payload v = Some (r, s')"
proof -
  have pledged: "\<exists>b t. db_GetStakerPledgedBalance x caller addr = Some (b, t)" for x
    using getters_refine(2) [of x caller addr] by (auto simp: refines_def)
  obtain b t where b: "db_GetStakerPledgedBalance s caller addr = Some (b, t)" using pledged by blast
  obtain b' t' where "db_GetStakerPledgedBalance t caller addr = Some (b', t')" using pledged by blast
  then have "\<exists>r s'. Call_check s caller addr payload v = Some (r, s')"
    using b by (auto simp: Call_check_def VerifyStakerPledgedBalance_def split: option.split prod.split)
  then show thesis using that by blast
qed

lemma handler_total:
  obtains err s5 where "(case payload of Some wh \<Rightarrow> HandleCSBT s4 caller addr wh v n
      | None \<Rightarrow> do { db \<leftarrow> Transfer s4 caller addr v; Some (Inr (), db) }) = Some (err, s5)"
  using HandleCSBT_refines [of s4 caller addr "the payload" v n] Transfer_yields [of s4 caller addr v] that
  by (cases payload) (auto simp: refines_def yields_def)

lemma Call_total:
  assumes code: "\<forall>db r db'. run db caller addr inp gas v = Some (r, db') \<longrightarrow> runs db db'"
    and total: "\<And>db. run db caller addr inp gas v \<noteq> None" and ok: "db_ok s" "revs_ok s"
  shows "Call unmarshal run noRecursion depth n s caller addr inp gas v \<noteq> None"
proof (cases "Call_payload unmarshal inp")
  case (Inr payload)
  obtain ok s1 where c: "Call_check s caller addr payload v = Some (ok, s1)" by (rule Call_check_total)
  note s1 = undoable_ok [OF Call_check_ledger(2) [OF c] assms(3,4)]
  obtain i s2 where i: "Snapshot s1 = (i, s2)" by fastforce
  obtain ex s3 where ex: "db_Exist s2 addr = (ex, s3)" by fastforce
  define s4 where "s4 = (if \<not> ex then db_CreateAccount s3 addr else s3)"
  obtain err s5 where h: "(case payload of Some wh \<Rightarrow> HandleCSBT s4 caller addr wh v n
      | None \<Rightarrow> do { db \<leftarrow> Transfer s4 caller addr v; Some (Inr (), db) }) = Some (err, s5)"
    by (rule handler_total)
  obtain r s6 where run: "run s5 caller addr inp gas v = Some (r, s6)" using total [of s5] by auto
  have snap: "undoable s1 s2" "snd (Snapshot s1) = s2" "fst (Snapshot s1) = i"
    using Snapshot_undoable [of s1] i by simp_all
  have "undoable s2 s6"
    using runs_from [OF _ _ Call_prefix_undoable(1) [OF ex s4_def h] code [rule_format, OF run]]
      undoable_ok [OF snap(1)] s1 by blast
  then obtain s7 where s7: "RevertToSnapshot s6 i = Some s7"
    using revert_to_snapshot [of s1 s6] s1 snap(2,3) by auto
  show ?thesis
    using Inr c i ex h run s7 by (auto simp: Call_def s4_def [symmetric] split: sum.split)
qed (simp add: Call_def)

lemma execute_total:
  assumes "code_runs evm" "code_total evm" "db_ok s" "revs_ok s"
  shows "execute evm msg s gas \<noteq> None"
proof (cases "tm_To msg")
  case None
  then show ?thesis using assms(2) by (simp add: execute_def code_total_def)
next
  case (Some addr)
  obtain nonce s1 where n: "db_GetNonce s (tm_From msg) = (nonce, s1)" by fastforce
  have s1: "moves s (\<lambda>L. L) s1" using getters_move(2) [of s "tm_From msg"] n by simp
  obtain s2 where s2: "db_SetNonce s1 (tm_From msg) (nonce + 1) = Some s2"
    using SetNonce_yields [of s1 "tm_From msg" "nonce + 1"] by (auto simp: yields_def)
  have ok: "db_ok s2" "revs_ok s2"
    using undoable_ok [OF undoable_trans] s1 balances_move(3) [OF s2] assms(3,4) by (auto simp: moves_def)
  have "Call (e_unmarshal evm) (e_run evm) (e_NoRecursion evm) 0 (e_BlockNumber evm) s2
      (tm_From msg) addr (tm_Data msg) gas (tm_Value msg) \<noteq> None"
    using assms(1,2) by (intro Call_total ok) (auto simp: code_runs_def code_total_def)
  then show ?thesis using Some n s2 by (simp add: execute_def)
qed

lemma preCheck_accepts:
  assumes "fst (check_sender msg (st_db st)) = Inr ()" "check_fees evm msg = Some (Inr ())"
    "balanceCheck evm msg \<le> l_Balance (ledger_of (st_db st) (tm_From msg))" "tm_Gas msg \<le> st_gp st"
  obtains st' where "preCheck evm msg st = Some (Inr (), st')"
proof -
  obtain db where c: "check_sender msg (st_db st) = (Inr (), db)" using assms(1) by (cases "check_sender msg (st_db st)") auto
  obtain b db1 where b: "db_GetBalance db (tm_From msg) = (b, db1)" by fastforce
  have "b = l_Balance (ledger_of (st_db st) (tm_From msg))"
    using GetBalance_ledger(1) [of db "tm_From msg"] b check_sender_moves [OF c] by (simp add: moves_def)
  then have "\<not> b < balanceCheck evm msg" using assms(3) by simp
  moreover obtain db2 where "db_SubBalance db1 (tm_From msg) (uint (tm_Gas msg) * tm_GasPrice msg) = Some db2"
    using balance_ops_yield(2) [of db1 "tm_From msg" "uint (tm_Gas msg) * tm_GasPrice msg"] by (auto simp: yields_def)
  ultimately show thesis
    using that assms(2,4) c b by (simp add: preCheck_def buyGas_def gp_SubGas_def Let_def not_less)
qed

lemma can_pay_accepts:
  assumes "0 < tm_Value msg \<Longrightarrow> tm_Value msg \<le> l_Balance (ledger_of s (tm_From msg))"
  shows "fst (can_pay evm msg s)"
  using assms CanTransfer_ledger(1) [of s "tm_From msg" "tm_Value msg"]
  by (auto simp: can_pay_def split: option.split)

lemma refundGas_accepts:
  assumes "\<And>rf. rf \<le> gasUsed st div q \<Longrightarrow> gp_AddGas (st_gp st) (st_gas st + rf) \<noteq> None"
  obtains st' where "refundGas msg q st = Some st'"
proof -
  define rf where "rf = (if gasUsed st div q > db_GetRefund (st_db st) then db_GetRefund (st_db st) else gasUsed st div q)"
  have "rf \<le> gasUsed st div q" by (auto simp: rf_def)
  then obtain gp where "gp_AddGas (st_gp st) (st_gas st + rf) = Some gp" using assms by fastforce
  moreover obtain db where "db_AddBalance (st_db st) (tm_From msg) (uint (st_gas st + rf) * tm_GasPrice msg) = Some db"
    by (rule balances_total)
  ultimately show thesis using that by (simp add: refundGas_def Let_def rf_def [symmetric])
qed

lemma ApplyMessage_executes:
  assumes code: "code_gas_ok evm" "code_runs evm" "code_total evm" and ok: "db_ok db" "revs_ok db"
    and sender: "fst (check_sender msg db) = Inr ()" "check_fees evm msg = Some (Inr ())"
    and funds: "balanceCheck evm msg \<le> l_Balance (ledger_of db (tm_From msg))"
      "uint (tm_Gas msg) * tm_GasPrice msg + tm_Value msg \<le> l_Balance (ledger_of db (tm_From msg))"
    and gas: "tm_Gas msg \<le> gp" "g \<le> tm_Gas msg"
      "IntrinsicGas (e_unmarshal evm) (tm_Data msg) (tm_AccessList msg) (tm_To msg = None)
        (e_IsHomestead evm) (e_IsIstanbul evm) = Inr g"
  shows "\<exists>res st'. ApplyMessage evm msg gp db = Some (Inr res, st')"
proof -
  let ?st = "\<lparr>st_gp = gp, st_gas = 0, st_initialGas = 0, st_db = db\<rparr>"
  let ?q = "if e_IsLondon evm then RefundQuotientEIP3529 else RefundQuotient"
  obtain st1 where pre: "preCheck evm msg ?st = Some (Inr (), st1)"
    using preCheck_accepts [of msg ?st evm] sender funds(1) gas(1) by auto
  note st1 = preCheck_Inr [OF pre]
  obtain db1 where pay: "can_pay evm msg (st_db st1) = (True, db1)"
    using can_pay_accepts [of msg "st_db st1" evm] st1(6) funds(2)
    by (cases "can_pay evm msg (st_db st1)") (auto simp: moves_def on_account_def)
  note m = moves_trans [OF st1(6) can_pay_moves [OF pay]]
  obtain db2 where prep: "prepare evm msg db1 = Some db2" using prepare_total moves_ok [OF m] ok(1) by fastforce
  then have ok2: "db_ok db2" "revs_ok db2"
    using undoable_ok [of db db2] moves_trans [OF m prepare_moves [OF prep]] ok by (auto simp: moves_def)
  obtain r db3 where ex: "execute evm msg db2 (tm_Gas msg - g) = Some (r, db3)"
    using execute_total [OF code(2,3) ok2, of msg "tm_Gas msg - g"] by auto
  define st2 where "st2 = st1\<lparr>st_db := db3, st_gas := cr_gas r\<rparr>"
  have "gp_AddGas (st_gp st2) (st_gas st2 + rf) \<noteq> None" if "rf \<le> gasUsed st2 div ?q" for rf
  proof -
    have q: "?q = 2 \<or> ?q = 5" by (simp add: RefundQuotient_def RefundQuotientEIP3529_def)
    have "rf \<le> (tm_Gas msg - cr_gas r) div ?q" using that st1(5) by (simp add: st2_def gasUsed_def)
    note rest = remaining_gas(1,2) [OF gas(2) execute_gas [OF code(1) ex] this q]
    have "unat (gp - tm_Gas msg) + unat (cr_gas r + rf) < 2 ^ 64"
      using rest gas(1) unat_uint64 [of gp] by (simp add: unat_sub word_le_nat_alt)
    then show ?thesis using st1(3) by (simp add: gp_AddGas_nat st2_def)
  qed
  then obtain st3 where ref: "refundGas msg ?q st2 = Some st3" by (rule refundGas_accepts)
  obtain db4 where "db_AddBalance (st_db st3) (e_Coinbase evm) (uint (gasUsed st3) * tm_GasPrice msg) = Some db4"
    by (rule balances_total)
  then show ?thesis
    using pre gas(2,3) pay prep ex ref st1(4)
    by (auto simp: ApplyMessage_def TransitionDb_def st2_def)
qed

text \<open>
  C25.  A valid transaction is executed.  If contract code always ends, the nonce is the sender's
  and the sender has no code, the fee caps are in order, the block has gas left, the gas limit
  covers the intrinsic gas, and the balance of the sender covers the gas it buys and the value it
  sends, then ApplyMessage neither panics nor rejects the message.
\<close>
theorem ApplyMessage_accepts:
  assumes code: "code_gas_ok evm" "code_runs evm" "code_total evm" and ok: "db_ok db" "revs_ok db"
    and sender: "fst (check_sender msg db) = Inr ()" "check_fees evm msg = Some (Inr ())"
    and funds: "balanceCheck evm msg \<le> l_Balance (ledger_of db (tm_From msg))"
      "uint (tm_Gas msg) * tm_GasPrice msg + tm_Value msg \<le> l_Balance (ledger_of db (tm_From msg))"
    and gas: "tm_Gas msg \<le> gp" "g \<le> tm_Gas msg"
      "IntrinsicGas (e_unmarshal evm) (tm_Data msg) (tm_AccessList msg) (tm_To msg = None)
        (e_IsHomestead evm) (e_IsIstanbul evm) = Inr g"
  shows "\<exists>res st'. ApplyMessage evm msg gp db = Some (Inr res, st')"
  using ApplyMessage_executes [OF assms] .

subsection \<open>A sample transaction\<close>

lemma sample_code:
  "code_gas_ok sample_evm" "code_runs sample_evm" "code_conserves sample_evm" "code_total sample_evm"
  by (simp_all add: sample_evm_def code_gas_ok_def code_runs_def code_conserves_def code_total_def runs_start)

lemma sample_sender:
  "fst (check_sender sample_message (state_New sample_trie)) = Inr ()"
  "check_fees sample_evm sample_message = Some (Inr ())"
  "balanceCheck sample_evm sample_message \<le> 40000 * baseErb"
  "uint (tm_Gas sample_message) * tm_GasPrice sample_message + tm_Value sample_message \<le> 40000 * baseErb"
  "tm_Gas sample_message \<le> 8000000" "25300 \<le> tm_Gas sample_message"
  "IntrinsicGas (e_unmarshal sample_evm) (tm_Data sample_message) (tm_AccessList sample_message)
    (tm_To sample_message = None) (e_IsHomestead sample_evm) (e_IsIstanbul sample_evm) = Inr 25300"
  by code_simp+

lemma sample_transaction:
  "\<exists>res st'. ApplyMessage sample_evm sample_message 8000000 (state_New sample_trie) = Some (Inr res, st')"
  using ApplyMessage_executes [OF sample_code(1,2,4) state_New_ok sample_sender(1,2) _ _ sample_sender(5-7)]
    sample_sender(3,4)
  by (simp add: sample_ledger_fields sample_message_def)

theorem ApplyMessage_accepts_witness:
  "\<exists>res st'. ApplyMessage sample_evm sample_message 8000000 (state_New sample_trie) = Some (Inr res, st')"
  using ApplyMessage_accepts [OF sample_code(1,2,4) state_New_ok sample_sender(1,2) _ _ sample_sender(5-7)]
    sample_sender(3,4)
  by (simp add: sample_ledger_fields sample_message_def)

theorem ApplyMessage_gas_witness:
  "\<exists>res st'. ApplyMessage sample_evm sample_message 8000000 (state_New sample_trie) = Some (Inr res, st') \<and>
    unat (st_gp st') + unat (er_UsedGas res) = 8000000 \<and> er_UsedGas res \<le> 30000 \<and> 12650 \<le> unat (er_UsedGas res)"
proof -
  obtain res st' where app: "ApplyMessage sample_evm sample_message 8000000 (state_New sample_trie) = Some (Inr res, st')"
    using sample_transaction by blast
  have "tm_Gas sample_message = 30000" by (simp add: sample_message_def)
  then show ?thesis using ApplyMessage_gas [OF sample_code(1) app] app sample_sender(7) by auto
qed

theorem ApplyMessage_conserves_witness:
  "\<exists>res st'. ApplyMessage sample_evm sample_message 8000000 (state_New sample_trie) = Some (Inr res, st') \<and>
    wealth UNIV (ledger_of (st_db st')) = wealth UNIV sample_ledger"
proof -
  obtain res st' where app: "ApplyMessage sample_evm sample_message 8000000 (state_New sample_trie) = Some (Inr res, st')"
    using sample_transaction by blast
  have "0 \<le> tm_Value sample_message" by (simp add: sample_message_def)
  then show ?thesis
    using ApplyMessage_conserves [OF sample_code(1-3) state_New_ok sample_staking_ok _ app] app by blast
qed

end
