(* ===== verification/Rlp.thy ===== *)
theory Rlp
  imports Prelude
begin

unbundle bit_operations_syntax

text \<open>
  The RLP encoding (rlp/encode.go, rlp/raw.go): integers and headers, the encoding buffer that
  keeps list headers apart from the string data until a list is complete, and the functions that
  split encoded input.

  A Go int is an integer, a slice offset a natural number.  \<^verbatim>\<open>putint\<close> and
  \<^verbatim>\<open>puthead\<close> return the bytes they write to the front of the buffer they are given.
\<close>

subsection \<open>Integers and headers\<close>

definition putint :: "uint64 \<Rightarrow> bytes" where
  "putint i =
    (if i < 2 ^ 8 then [ucast i]
     else if i < 2 ^ 16 then [ucast (drop_bit 8 i), ucast i]
     else if i < 2 ^ 24 then [ucast (drop_bit 16 i), ucast (drop_bit 8 i), ucast i]
     else if i < 2 ^ 32 then
       [ucast (drop_bit 24 i), ucast (drop_bit 16 i), ucast (drop_bit 8 i), ucast i]
     else if i < 2 ^ 40 then
       [ucast (drop_bit 32 i), ucast (drop_bit 24 i), ucast (drop_bit 16 i), ucast (drop_bit 8 i), ucast i]
     else if i < 2 ^ 48 then
       [ucast (drop_bit 40 i), ucast (drop_bit 32 i), ucast (drop_bit 24 i), ucast (drop_bit 16 i),
        ucast (drop_bit 8 i), ucast i]
     else if i < 2 ^ 56 then
       [ucast (drop_bit 48 i), ucast (drop_bit 40 i), ucast (drop_bit 32 i), ucast (drop_bit 24 i),
        ucast (drop_bit 16 i), ucast (drop_bit 8 i), ucast i]
     else
       [ucast (drop_bit 56 i), ucast (drop_bit 48 i), ucast (drop_bit 40 i), ucast (drop_bit 32 i),
        ucast (drop_bit 24 i), ucast (drop_bit 16 i), ucast (drop_bit 8 i), ucast i])"

text \<open>The loop of intsize: shift by one byte until nothing is left.\<close>
partial_function (option) intsize_loop :: "uint64 \<Rightarrow> nat \<Rightarrow> nat option" where
  "intsize_loop i sz =
    (let i = drop_bit 8 i in if i = 0 then Some sz else intsize_loop i (sz + 1))"

definition intsize :: "uint64 \<Rightarrow> nat option" where
  "intsize i = intsize_loop i 1"

definition headsize :: "uint64 \<Rightarrow> nat option" where
  "headsize sz = (if sz < 56 then Some 1 else do { n \<leftarrow> intsize sz; Some (1 + n) })"

definition puthead :: "uint8 \<Rightarrow> uint8 \<Rightarrow> uint64 \<Rightarrow> bytes" where
  "puthead smalltag largetag sz =
    (if sz < 56 then [smalltag + ucast sz]
     else let sizebytes = putint sz in (largetag + word_of_nat (length sizebytes)) # sizebytes)"

definition IntSize :: "uint64 \<Rightarrow> nat option" where
  "IntSize x = (if x < 0x80 then Some 1 else do { n \<leftarrow> intsize x; Some (1 + n) })"

definition ListSize :: "uint64 \<Rightarrow> uint64 option" where
  "ListSize contentSize = do { n \<leftarrow> headsize contentSize; Some (word_of_nat n + contentSize) }"

definition AppendUint64 :: "bytes \<Rightarrow> uint64 \<Rightarrow> bytes" where
  "AppendUint64 b i =
    (if i = 0 then b @ [0x80]
     else if i < 128 then b @ [ucast i]
     else if i < 2 ^ 8 then b @ [0x81, ucast i]
     else if i < 2 ^ 16 then b @ [0x82, ucast (drop_bit 8 i), ucast i]
     else if i < 2 ^ 24 then b @ [0x83, ucast (drop_bit 16 i), ucast (drop_bit 8 i), ucast i]
     else if i < 2 ^ 32 then
       b @ [0x84, ucast (drop_bit 24 i), ucast (drop_bit 16 i), ucast (drop_bit 8 i), ucast i]
     else if i < 2 ^ 40 then
       b @ [0x85, ucast (drop_bit 32 i), ucast (drop_bit 24 i), ucast (drop_bit 16 i), ucast (drop_bit 8 i), ucast i]
     else if i < 2 ^ 48 then
       b @ [0x86, ucast (drop_bit 40 i), ucast (drop_bit 32 i), ucast (drop_bit 24 i), ucast (drop_bit 16 i),
         ucast (drop_bit 8 i), ucast i]
     else if i < 2 ^ 56 then
       b @ [0x87, ucast (drop_bit 48 i), ucast (drop_bit 40 i), ucast (drop_bit 32 i), ucast (drop_bit 24 i),
         ucast (drop_bit 16 i), ucast (drop_bit 8 i), ucast i]
     else
       b @ [0x88, ucast (drop_bit 56 i), ucast (drop_bit 48 i), ucast (drop_bit 40 i), ucast (drop_bit 32 i),
         ucast (drop_bit 24 i), ucast (drop_bit 16 i), ucast (drop_bit 8 i), ucast i])"

subsection \<open>The encoding buffer\<close>

record listhead =
  lh_offset :: nat
  lh_size :: int

record encbuf =
  eb_str :: bytes
  eb_lheads :: "listhead list"
  eb_lhsize :: int

definition eb_reset :: encbuf where
  "eb_reset = \<lparr>eb_str = [], eb_lheads = [], eb_lhsize = 0\<rparr>"

definition eb_size :: "encbuf \<Rightarrow> int" where
  "eb_size w = int (length (eb_str w)) + eb_lhsize w"

definition encodeStringHeader :: "encbuf \<Rightarrow> nat \<Rightarrow> encbuf" where
  "encodeStringHeader w sz =
    (if sz < 56 then w\<lparr>eb_str := eb_str w @ [0x80 + word_of_nat sz]\<rparr>
     else let sizebytes = putint (word_of_nat sz) in
       w\<lparr>eb_str := eb_str w @ (0xB7 + word_of_nat (length sizebytes)) # sizebytes\<rparr>)"

definition encodeString :: "encbuf \<Rightarrow> bytes \<Rightarrow> encbuf" where
  "encodeString w b =
    (if length b = 1 \<and> b ! 0 \<le> 0x7F then w\<lparr>eb_str := eb_str w @ [b ! 0]\<rparr>
     else let w = encodeStringHeader w (length b) in w\<lparr>eb_str := eb_str w @ b\<rparr>)"

definition encodeUint :: "encbuf \<Rightarrow> uint64 \<Rightarrow> encbuf" where
  "encodeUint w i =
    (if i = 0 then w\<lparr>eb_str := eb_str w @ [0x80]\<rparr>
     else if i < 128 then w\<lparr>eb_str := eb_str w @ [ucast i]\<rparr>
     else let s = putint i in w\<lparr>eb_str := eb_str w @ (0x80 + word_of_nat (length s)) # s\<rparr>)"

definition eb_list :: "encbuf \<Rightarrow> nat \<times> encbuf" where
  "eb_list w =
    (let w = w\<lparr>eb_lheads := eb_lheads w @ [\<lparr>lh_offset = length (eb_str w), lh_size = eb_lhsize w\<rparr>]\<rparr>
     in (length (eb_lheads w) - 1, w))"

text \<open>An index out of range panics.\<close>
definition listEnd :: "encbuf \<Rightarrow> nat \<Rightarrow> encbuf option" where
  "listEnd w index =
    (if index < length (eb_lheads w)
     then do {
       let lh = eb_lheads w ! index;
       let lh = lh\<lparr>lh_size := eb_size w - int (lh_offset lh) - lh_size lh\<rparr>;
       let w = w\<lparr>eb_lheads := (eb_lheads w)[index := lh]\<rparr>;
       n \<leftarrow> (if lh_size lh < 56 then Some 1 else do { n \<leftarrow> intsize (word_of_int (lh_size lh)); Some (1 + n) });
       Some (w\<lparr>eb_lhsize := eb_lhsize w + int n\<rparr>)
     }
     else None)"

definition lh_encode :: "listhead \<Rightarrow> bytes" where
  "lh_encode head = puthead 0xC0 0xF7 (word_of_int (lh_size head))"

text \<open>
  The loop of toBytes: the string data up to the next header, then the header.  The output is
  filled from the front and exactly as long as \<^verbatim>\<open>size()\<close> says, as shown below.
\<close>
fun toBytes_loop :: "bytes \<Rightarrow> nat \<Rightarrow> listhead list \<Rightarrow> bytes" where
  "toBytes_loop str strpos [] = drop strpos str"
| "toBytes_loop str strpos (head # heads) =
    take (lh_offset head - strpos) (drop strpos str) @ lh_encode head @
    toBytes_loop str (strpos + length (take (lh_offset head - strpos) (drop strpos str))) heads"

definition toBytes :: "encbuf \<Rightarrow> bytes" where
  "toBytes w = toBytes_loop (eb_str w) 0 (eb_lheads w)"

text \<open>
  The values that writeBytes and the writers of makeSliceWriter encode: byte strings, and lists
  between list() and listEnd().
\<close>
datatype rlp_value = RString bytes | RList "rlp_value list"

fun write_value :: "rlp_value \<Rightarrow> encbuf \<Rightarrow> encbuf option"
  and write_values :: "rlp_value list \<Rightarrow> encbuf \<Rightarrow> encbuf option" where
  "write_value (RString b) w = Some (encodeString w b)"
| "write_value (RList vs) w = (let (index, w) = eb_list w in do { w \<leftarrow> write_values vs w; listEnd w index })"
| "write_values [] w = Some w"
| "write_values (v # vs) w = do { w \<leftarrow> write_value v w; write_values vs w }"

definition EncodeToBytes :: "rlp_value \<Rightarrow> bytes option" where
  "EncodeToBytes v = do { w \<leftarrow> write_value v eb_reset; Some (toBytes w) }"

subsection \<open>Splitting encoded input\<close>

datatype Kind = Byte | String | List

definition readSize :: "bytes \<Rightarrow> uint8 \<Rightarrow> uint64 result" where
  "readSize b slen =
    (if unat slen > length b then Inl ''unexpected EOF''
     else
       let s = (if slen = 1 then ucast (b ! 0)
         else if slen = 2 then push_bit 8 (ucast (b ! 0)) OR ucast (b ! 1)
         else if slen = 3 then push_bit 16 (ucast (b ! 0)) OR push_bit 8 (ucast (b ! 1)) OR ucast (b ! 2)
         else if slen = 4 then push_bit 24 (ucast (b ! 0)) OR push_bit 16 (ucast (b ! 1)) OR
           push_bit 8 (ucast (b ! 2)) OR ucast (b ! 3)
         else if slen = 5 then push_bit 32 (ucast (b ! 0)) OR push_bit 24 (ucast (b ! 1)) OR
           push_bit 16 (ucast (b ! 2)) OR push_bit 8 (ucast (b ! 3)) OR ucast (b ! 4)
         else if slen = 6 then push_bit 40 (ucast (b ! 0)) OR push_bit 32 (ucast (b ! 1)) OR
           push_bit 24 (ucast (b ! 2)) OR push_bit 16 (ucast (b ! 3)) OR push_bit 8 (ucast (b ! 4)) OR ucast (b ! 5)
         else if slen = 7 then push_bit 48 (ucast (b ! 0)) OR push_bit 40 (ucast (b ! 1)) OR
           push_bit 32 (ucast (b ! 2)) OR push_bit 24 (ucast (b ! 3)) OR push_bit 16 (ucast (b ! 4)) OR
           push_bit 8 (ucast (b ! 5)) OR ucast (b ! 6)
         else if slen = 8 then push_bit 56 (ucast (b ! 0)) OR push_bit 48 (ucast (b ! 1)) OR
           push_bit 40 (ucast (b ! 2)) OR push_bit 32 (ucast (b ! 3)) OR push_bit 24 (ucast (b ! 4)) OR
           push_bit 16 (ucast (b ! 5)) OR push_bit 8 (ucast (b ! 6)) OR ucast (b ! 7)
         else 0 :: uint64)
       in if s < 56 \<or> b ! 0 = 0 then Inl ''rlp: non-canonical size information'' else Inr s)"

text \<open>The kind, the size of the tag and the size of the content.\<close>
definition readKind :: "bytes \<Rightarrow> (Kind \<times> uint64 \<times> uint64) result" where
  "readKind buf =
    (if length buf = 0 then Inl ''unexpected EOF''
     else
       let b = buf ! 0;
           r = (if b < 0x80 then Inr (Byte, 0, 1)
             else if b < 0xB8 then
               let contentsize = ucast (b - 0x80) in
               if contentsize = 1 \<and> length buf > 1 \<and> buf ! 1 < 128
               then Inl ''rlp: non-canonical size information'' else Inr (String, 1, contentsize)
             else if b < 0xC0 then
               map_sum id (\<lambda>contentsize. (String, ucast (b - 0xB7) + 1, contentsize)) (readSize (drop 1 buf) (b - 0xB7))
             else if b < 0xF8 then Inr (List, 1, ucast (b - 0xC0))
             else
               map_sum id (\<lambda>contentsize. (List, ucast (b - 0xF7) + 1, contentsize)) (readSize (drop 1 buf) (b - 0xF7)))
       in case r of
            Inl err \<Rightarrow> Inl err
          | Inr (k, tagsize, contentsize) \<Rightarrow>
              if contentsize > word_of_nat (length buf) - tagsize
              then Inl ''rlp: value size exceeds available input length''
              else Inr (k, tagsize, contentsize))"

definition Split :: "bytes \<Rightarrow> (Kind \<times> bytes \<times> bytes) result" where
  "Split b =
    (case readKind b of
       Inl err \<Rightarrow> Inl err
     | Inr (k, ts, cs) \<Rightarrow> Inr (k, take (unat cs) (drop (unat ts) b), drop (unat (ts + cs)) b))"

definition SplitString :: "bytes \<Rightarrow> (bytes \<times> bytes) result" where
  "SplitString b =
    (case Split b of
       Inl err \<Rightarrow> Inl err
     | Inr (k, content, rest) \<Rightarrow>
         if k = List then Inl ''rlp: expected String or Byte'' else Inr (content, rest))"

definition SplitUint64 :: "bytes \<Rightarrow> (uint64 \<times> bytes) result" where
  "SplitUint64 b =
    (case SplitString b of
       Inl err \<Rightarrow> Inl err
     | Inr (content, rest) \<Rightarrow>
         if length content = 0 then Inr (0, rest)
         else if length content = 1 then
           if content ! 0 = 0 then Inl ''rlp: non-canonical integer format''
           else Inr (ucast (content ! 0), rest)
         else if length content > 8 then Inl ''rlp: uint overflow''
         else case readSize content (word_of_nat (length content)) of
             Inl _ \<Rightarrow> Inl ''rlp: non-canonical integer format''
           | Inr x \<Rightarrow> Inr (x, rest))"

definition SplitList :: "bytes \<Rightarrow> (bytes \<times> bytes) result" where
  "SplitList b =
    (case Split b of
       Inl err \<Rightarrow> Inl err
     | Inr (k, content, rest) \<Rightarrow>
         if k \<noteq> List then Inl ''rlp: expected List'' else Inr (content, rest))"

text \<open>The loop of CountValues; None would be a loop that does not end.\<close>
partial_function (option) CountValues_loop :: "bytes \<Rightarrow> nat \<Rightarrow> nat result option" where
  "CountValues_loop b i =
    (if length b > 0 then
       (case readKind b of
          Inl err \<Rightarrow> Some (Inl err)
        | Inr (k, tagsize, sz) \<Rightarrow> CountValues_loop (drop (unat (tagsize + sz)) b) (i + 1))
     else Some (Inr i))"

definition CountValues :: "bytes \<Rightarrow> nat result option" where
  "CountValues b = CountValues_loop b 0"

end
