(* ===== verification/Rlp_Properties.thy ===== *)
theory Rlp_Properties
  imports Rlp
begin

unbundle bit_operations_syntax

text \<open>
  Properties of the RLP functions: the byte strings that Split accepts are exactly the canonical
  encodings, CountValues always ends and counts the values, integers survive a round trip, and
  the encoding buffer with its detached list headers produces the encoding that the recursive
  definition of RLP prescribes.
\<close>

subsection \<open>Big-endian numbers\<close>

definition be_val :: "bytes \<Rightarrow> nat" where
  "be_val bs = foldl (\<lambda>s x. s * 256 + unat x) 0 bs"

fun be_digits :: "nat \<Rightarrow> bytes" where
  "be_digits n = (if n < 256 then [word_of_nat n] else be_digits (n div 256) @ [word_of_nat n])"

declare be_digits.simps [simp del]

lemma be_digits_base: "n < 256 \<Longrightarrow> be_digits n = [word_of_nat n]"
  and be_digits_step: "256 \<le> n \<Longrightarrow> be_digits n = be_digits (n div 256) @ [word_of_nat n]"
  by (simp_all add: be_digits.simps [of n])

lemma be_val_snoc [simp]: "be_val (bs @ [x]) = be_val bs * 256 + unat x"
  and be_val_Nil [simp]: "be_val [] = 0"
  by (simp_all add: be_val_def)

lemma unat_byte_of_nat [simp]: "unat (word_of_nat n :: uint8) = n mod 256"
  by (simp add: unat_of_nat)

lemma unat_byte: "unat (x :: uint8) < 256"
  using unsigned_less [of x] by simp

lemma be_val_digits: "be_val (be_digits n) = n"
proof (induction n rule: be_digits.induct)
  case (1 n)
  show ?case
  proof (cases "n < 256")
    case True
    then show ?thesis using be_val_snoc [of "[]"] by (simp add: be_digits_base)
  next
    case False
    then show ?thesis using 1 by (simp add: be_digits_step)
  qed
qed

lemma be_digits_not_Nil: "be_digits n \<noteq> []"
  by (subst be_digits.simps) simp

lemma hd_be_digits: "n \<noteq> 0 \<Longrightarrow> hd (be_digits n) \<noteq> 0"
proof (induction n rule: be_digits.induct)
  case (1 n)
  show ?case
  proof (cases "n < 256")
    case True
    then have "unat (word_of_nat n :: uint8) = n" by simp
    then have "(word_of_nat n :: uint8) \<noteq> 0" using 1(2) by (metis unsigned_0)
    then show ?thesis using True by (simp add: be_digits_base)
  next
    case False
    then show ?thesis using 1 by (simp add: be_digits_step be_digits_not_Nil)
  qed
qed

lemma be_val_eq_0: "\<lbrakk>be_val bs = 0; bs \<noteq> []\<rbrakk> \<Longrightarrow> hd bs = 0"
proof (induction bs rule: rev_induct)
  case (snoc x bs)
  then show ?case using be_val_snoc [of "[]" x] by (cases "bs = []") (auto simp: word_unat_eq_iff)
qed simp

lemma be_digits_val: "\<lbrakk>bs \<noteq> []; hd bs \<noteq> 0\<rbrakk> \<Longrightarrow> be_digits (be_val bs) = bs"
proof (induction bs rule: rev_induct)
  case (snoc x bs)
  show ?case
  proof (cases "bs = []")
    case True
    then show ?thesis using be_digits_base [of "unat x"] unat_byte [of x] be_val_snoc [of "[]" x] by simp
  next
    case False
    then have "be_val bs \<noteq> 0" using snoc.prems be_val_eq_0 [of bs] by auto
    moreover have "(be_val bs * 256 + unat x) div 256 = be_val bs" using unat_byte [of x] by simp
    moreover have "(word_of_nat (be_val bs * 256 + unat x) :: uint8) = x"
      by (rule word_unat_eq_iff [THEN iffD2], subst unat_byte_of_nat) (use unat_byte [of x] in simp)
    ultimately show ?thesis using snoc False by (simp add: be_digits_step)
  qed
qed simp

lemma ucast_drop_bit: "ucast (drop_bit k (i :: uint64)) = (word_of_nat (unat i div 2 ^ k) :: uint8)"
  by (rule word_unat_eq_iff [THEN iffD2], subst unat_byte_of_nat)
    (simp add: unsigned_ucast_eq take_bit_eq_mod unat_drop_bit_eq, simp add: drop_bit_eq_div)

lemmas digits_simps = be_digits_base be_digits_step div_mult2_eq [symmetric] less_eq_div_iff_mult_less_eq
  div_less_iff_less_mult

lemma be_digits_cases:
  "n < 2 ^ 8 \<Longrightarrow> be_digits n = [word_of_nat n]"
  "\<lbrakk>2 ^ 8 \<le> n; n < 2 ^ 16\<rbrakk> \<Longrightarrow> be_digits n = [word_of_nat (n div 2 ^ 8), word_of_nat n]"
  "\<lbrakk>2 ^ 16 \<le> n; n < 2 ^ 24\<rbrakk> \<Longrightarrow> be_digits n = [word_of_nat (n div 2 ^ 16), word_of_nat (n div 2 ^ 8), word_of_nat n]"
  "\<lbrakk>2 ^ 24 \<le> n; n < 2 ^ 32\<rbrakk> \<Longrightarrow> be_digits n =
    [word_of_nat (n div 2 ^ 24), word_of_nat (n div 2 ^ 16), word_of_nat (n div 2 ^ 8), word_of_nat n]"
  "\<lbrakk>2 ^ 32 \<le> n; n < 2 ^ 40\<rbrakk> \<Longrightarrow> be_digits n =
    [word_of_nat (n div 2 ^ 32), word_of_nat (n div 2 ^ 24), word_of_nat (n div 2 ^ 16), word_of_nat (n div 2 ^ 8),
     word_of_nat n]"
  "\<lbrakk>2 ^ 40 \<le> n; n < 2 ^ 48\<rbrakk> \<Longrightarrow> be_digits n =
    [word_of_nat (n div 2 ^ 40), word_of_nat (n div 2 ^ 32), word_of_nat (n div 2 ^ 24), word_of_nat (n div 2 ^ 16),
     word_of_nat (n div 2 ^ 8), word_of_nat n]"
  "\<lbrakk>2 ^ 48 \<le> n; n < 2 ^ 56\<rbrakk> \<Longrightarrow> be_digits n =
    [word_of_nat (n div 2 ^ 48), word_of_nat (n div 2 ^ 40), word_of_nat (n div 2 ^ 32), word_of_nat (n div 2 ^ 24),
     word_of_nat (n div 2 ^ 16), word_of_nat (n div 2 ^ 8), word_of_nat n]"
  "\<lbrakk>2 ^ 56 \<le> n; n < 2 ^ 64\<rbrakk> \<Longrightarrow> be_digits n =
    [word_of_nat (n div 2 ^ 56), word_of_nat (n div 2 ^ 48), word_of_nat (n div 2 ^ 40), word_of_nat (n div 2 ^ 32),
     word_of_nat (n div 2 ^ 24), word_of_nat (n div 2 ^ 16), word_of_nat (n div 2 ^ 8), word_of_nat n]"
  by (simp_all add: digits_simps)

lemma unat_less_64: "unat (i :: uint64) < 2 ^ 64"
  using unsigned_less [of i] by simp

lemma word_ranges:
  fixes i :: uint64
  obtains "unat i < 2 ^ 8" | "2 ^ 8 \<le> unat i" "unat i < 2 ^ 16" | "2 ^ 16 \<le> unat i" "unat i < 2 ^ 24"
    | "2 ^ 24 \<le> unat i" "unat i < 2 ^ 32" | "2 ^ 32 \<le> unat i" "unat i < 2 ^ 40"
    | "2 ^ 40 \<le> unat i" "unat i < 2 ^ 48" | "2 ^ 48 \<le> unat i" "unat i < 2 ^ 56"
    | "2 ^ 56 \<le> unat i" "unat i < 2 ^ 64"
  using unat_less_64 [of i] by linarith

lemma putint_digits: "putint i = be_digits (unat i)"
  by (cases rule: word_ranges [of i])
    (simp_all only: be_digits_cases, simp_all add: putint_def word_less_nat_alt ucast_drop_bit)

text \<open>The shifts and disjunctions of readSize, one byte at a time.\<close>
definition be_word :: "bytes \<Rightarrow> uint64" where
  "be_word bs = foldl (\<lambda>s x. push_bit 8 s OR ucast x) 0 bs"

lemma be_word_snoc: "be_word (bs @ [x]) = push_bit 8 (be_word bs) OR ucast x"
  by (simp add: be_word_def)

lemma shift_or:
  assumes "unat (s :: uint64) < 2 ^ 56"
  shows "unat (push_bit 8 s OR ucast (x :: uint8)) = unat s * 256 + unat x"
proof -
  have "\<not> bit (push_bit 8 s) n \<or> \<not> bit (ucast x :: uint64) n" for n
    by (auto simp: bit_push_bit_iff bit_ucast_iff dest: bit_imp_le_length)
  then have "push_bit 8 s OR ucast x = push_bit 8 s + ucast x" by (rule disjunctive_add [symmetric])
  moreover have "unat (push_bit 8 s) = unat s * 256"
    using assms by (simp add: push_bit_eq_mult unat_word_ariths(2))
  moreover have "unat (ucast x :: uint64) = unat x" 
    using unat_byte [of x] by (simp add: unsigned_ucast_eq take_bit_nat_eq_self)
  moreover have "unat s * 256 + unat x < 2 ^ 64" using assms unat_byte [of x] by simp
  ultimately show ?thesis by (simp add: unat_word_ariths(1))
qed

lemma be_val_less: "be_val bs < 256 ^ length bs"
proof (induction bs rule: rev_induct)
  case (snoc x bs)
  then show ?case using unat_byte [of x] by (simp add: algebra_simps)
qed simp

lemma be_word_val: "length bs \<le> 8 \<Longrightarrow> unat (be_word bs) = be_val bs"
proof (induction bs rule: rev_induct)
  case (snoc x bs)
  have "be_val bs < 256 ^ length bs" by (rule be_val_less)
  also have "\<dots> \<le> 256 ^ 7" using snoc.prems by (intro power_increasing) simp_all
  finally show ?case using snoc by (simp add: be_word_snoc shift_or)
qed (simp add: be_word_def)

lemma nth_take_list:
  "k \<le> length b \<Longrightarrow> take k b = map ((!) b) [0..<k]"
  by (rule nth_equalityI) simp_all

lemma upt_small:
  "[0..<2] = [0, 1]" "[0..<3] = [0, 1, 2]" "[0..<4] = [0, 1, 2, 3]" "[0..<5] = [0, 1, 2, 3, 4]"
  "[0..<6] = [0, 1, 2, 3, 4, 5]" "[0..<7] = [0, 1, 2, 3, 4, 5, 6]" "[0..<8] = [0, 1, 2, 3, 4, 5, 6, 7 :: nat]"
  by (simp_all add: upt_rec)

lemma readSize_word:
  assumes "1 \<le> k" "k \<le> 8" "k \<le> length b"
  shows "readSize b (word_of_nat k) =
    (let s = be_word (take k b) in
     if s < 56 \<or> b ! 0 = 0 then Inl ''rlp: non-canonical size information'' else Inr s)"
proof -
  have k: "unat (word_of_nat k :: uint8) = k" using assms by simp
  have "k = 1 \<or> k = 2 \<or> k = 3 \<or> k = 4 \<or> k = 5 \<or> k = 6 \<or> k = 7 \<or> k = 8" using assms(1,2) by linarith
  then show ?thesis
    unfolding nth_take_list [OF assms(3)] readSize_def k
    using assms(3)
    by (elim disjE) (simp_all add: be_word_def push_bit_or or.assoc upt_small, auto)
qed

lemma length_putint: "1 \<le> length (putint i)" "length (putint i) \<le> 8"
  by (auto simp: putint_def)

lemma putint_hd: "i \<noteq> 0 \<Longrightarrow> hd (putint i) \<noteq> 0"
  by (simp add: putint_digits hd_be_digits unat_eq_zero)

lemma be_word_putint: "be_word (putint i) = i"
  using be_word_val [OF length_putint(2) [of i]] by (simp add: putint_digits be_val_digits word_unat_eq_iff)

lemma putint_inject: "putint i = putint j \<Longrightarrow> i = j"
  by (metis be_word_putint)

lemma putint_be_word:
  assumes "bs \<noteq> []" "hd bs \<noteq> 0" "length bs \<le> 8"
  shows "putint (be_word bs) = bs"
  using be_digits_val [OF assms(1,2)] be_word_val [OF assms(3)] by (simp add: putint_digits)

text \<open>readSize accepts exactly the minimal encodings of sizes from 56 on.\<close>
lemma readSize_iff:
  assumes "1 \<le> k" "k \<le> 8"
  shows "readSize b (word_of_nat k) = Inr s \<longleftrightarrow> k \<le> length b \<and> take k b = putint s \<and> 56 \<le> s"
proof (cases "k \<le> length b")
  case True
  then have b: "take k b \<noteq> []" "length (take k b) = k" "hd (take k b) = b ! 0"
    using assms by (cases b; auto)+
  show ?thesis
  proof
    assume "readSize b (word_of_nat k) = Inr s"
    then have "s = be_word (take k b)" "56 \<le> s" "b ! 0 \<noteq> 0"
      using readSize_word [OF assms True] by (auto simp: Let_def split: if_splits)
    then show "k \<le> length b \<and> take k b = putint s \<and> 56 \<le> s"
      using True putint_be_word [of "take k b"] b assms by simp
  next
    assume s: "k \<le> length b \<and> take k b = putint s \<and> 56 \<le> s"
    then have "s \<noteq> 0" by auto
    then have "b ! 0 \<noteq> 0" using s b putint_hd [of s] by metis
    then show "readSize b (word_of_nat k) = Inr s"
      using readSize_word [OF assms True] s be_word_putint [of s] by (simp add: Let_def not_less)
  qed
next
  case False
  then show ?thesis using assms by (simp add: readSize_def)
qed

subsection \<open>What Split accepts\<close>

text \<open>The encoding of a value with the given content.\<close>
fun frame :: "Kind \<Rightarrow> bytes \<Rightarrow> bytes" where
  "frame Byte c = c"
| "frame String c = puthead 0x80 0xB7 (word_of_nat (length c)) @ c"
| "frame List c = puthead 0xC0 0xF7 (word_of_nat (length c)) @ c"

text \<open>A single byte below 128 is encoded by itself, everything else is not.\<close>
fun canonical :: "Kind \<Rightarrow> bytes \<Rightarrow> bool" where
  "canonical Byte c \<longleftrightarrow> length c = 1 \<and> c ! 0 < 0x80"
| "canonical String c \<longleftrightarrow> \<not> (length c = 1 \<and> c ! 0 < 0x80)"
| "canonical List c \<longleftrightarrow> True"

abbreviation too_large :: "(Kind \<times> uint64 \<times> uint64) result" where
  "too_large \<equiv> Inl ''rlp: value size exceeds available input length''"

definition short_kind :: "Kind \<Rightarrow> nat \<Rightarrow> bytes \<Rightarrow> (Kind \<times> uint64 \<times> uint64) result" where
  "short_kind k n xs = (if n \<le> length xs then Inr (k, 1, word_of_nat n) else too_large)"

definition long_kind :: "Kind \<Rightarrow> nat \<Rightarrow> bytes \<Rightarrow> (Kind \<times> uint64 \<times> uint64) result" where
  "long_kind k n xs = (case readSize xs (word_of_nat n) of Inl e \<Rightarrow> Inl e
    | Inr s \<Rightarrow> if unat s \<le> length xs - n then Inr (k, word_of_nat (n + 1), s) else too_large)"

lemma readSize_EOF: "\<lbrakk>readSize xs (word_of_nat n) = Inr s; n < 256\<rbrakk> \<Longrightarrow> n \<le> length xs"
  by (auto simp: readSize_def split: if_splits)

text \<open>The comparison of the sizes with the length of the input.\<close>
lemma size_check:
  assumes "length xs < 2 ^ 64 - 1" "unat ts \<le> Suc (length xs)"
  shows "(cs > word_of_nat (length (x # xs)) - ts) = (Suc (length xs) - unat ts < unat (cs :: uint64))"
proof -
  have len: "unat (word_of_nat (length (x # xs)) :: uint64) = Suc (length xs)"
    using assms(1) by (subst unat_of_nat) simp
  then have "ts \<le> word_of_nat (length (x # xs))" using assms(2) by (simp only: word_le_nat_alt)
  then have "unat (word_of_nat (length (x # xs)) - ts) = Suc (length xs) - unat ts"
    by (simp only: unat_sub len)
  then show ?thesis by (simp only: word_less_nat_alt)
qed

lemma long_check:
  assumes "length xs < 2 ^ 64 - 1" "1 \<le> n" "n \<le> 8"
  shows "(case map_sum id (\<lambda>cs. (k, word_of_nat n + 1, cs)) (readSize xs (word_of_nat n)) of
      Inl err \<Rightarrow> Inl err
    | Inr (k, ts, cs) \<Rightarrow> if cs > 1 + word_of_nat (length xs) - ts then too_large else Inr (k, ts, cs)) =
    long_kind k n xs"
proof (cases "readSize xs (word_of_nat n)")
  case (Inr cs)
  then have n: "n \<le> length xs" using readSize_EOF assms(3) by simp
  have tag: "(word_of_nat n + 1 :: uint64) = word_of_nat (n + 1)" by simp
  then have ts: "unat (word_of_nat n + 1 :: uint64) = Suc n"
    unfolding tag unat_of_nat using assms(3) by (simp add: take_bit_nat_eq_self)
  then have "(cs > 1 + word_of_nat (length xs) - (word_of_nat n + 1)) = (length xs - n < unat cs)"
    using size_check [OF assms(1), where ts = "word_of_nat n + 1" and cs = cs and x = undefined] n by simp
  then show ?thesis using Inr unfolding long_kind_def by (simp only: tag sum.case map_sum.simps prod.case) auto
qed (simp add: long_kind_def)

lemma short_check:
  assumes "length xs < 2 ^ 64 - 1" "n < 256"
  shows "(if (word_of_nat n :: uint64) > word_of_nat (length (x # xs)) - 1 then too_large else Inr (k, 1, word_of_nat n)) =
    short_kind k n xs"
proof -
  have "unat (word_of_nat n :: uint64) = n" using assms(2) by (subst unat_of_nat) (simp add: take_bit_nat_eq_self)
  then have "(word_of_nat n > word_of_nat (length (x # xs)) - (1 :: uint64)) = (length xs < n)"
    using size_check [OF assms(1), where ts = 1 and cs = "word_of_nat n" and x = x] by simp
  then show ?thesis unfolding short_kind_def by (simp only:) auto
qed

lemma byte_casts:
  "n < 256 \<Longrightarrow> (ucast (word_of_nat n :: uint8) :: uint64) = word_of_nat n"
  "n < 256 \<Longrightarrow> (ucast (word_of_nat n :: uint64) :: uint8) = word_of_nat n"
  using unat_of_nat [of n, where 'a = 64]
  by (simp_all add: word_unat_eq_iff unsigned_ucast_eq take_bit_nat_eq_self take_bit_eq_mod)

text \<open>readKind on natural numbers.\<close>
lemma readKind_Cons:
  assumes len: "length xs < 2 ^ 64 - 1" and m: "m = unat b"
  shows "readKind (b # xs) =
    (if m < 128 then Inr (Byte, 0, 1)
     else if m < 184 then if m = 129 \<and> xs \<noteq> [] \<and> xs ! 0 < 128
       then Inl ''rlp: non-canonical size information'' else short_kind String (m - 128) xs
     else if m < 192 then long_kind String (m - 183) xs
     else if m < 248 then short_kind List (m - 192) xs
     else long_kind List (m - 247) xs)"
proof -
  have less: "(b < c) = (m < unat c)" for c by (simp add: word_less_nat_alt m)
  have b: "b = word_of_nat m" by (simp add: m)
  have one: "(word_of_nat n = (1 :: uint64)) = (n = 1)" if "n < 256" for n
    using that unat_of_nat [of n, where 'a = 64] by (auto simp: take_bit_nat_eq_self word_unat_eq_iff)
  consider "m < 128" | n where "m = 128 + n" "n < 56" | n where "m = 183 + n" "1 \<le> n" "n \<le> 8"
    | n where "m = 192 + n" "n < 56" | n where "m = 247 + n" "1 \<le> n" "n \<le> 8"
    using m unat_byte [of b] le_iff_add [of 128 m] le_iff_add [of 183 m] le_iff_add [of 192 m] le_iff_add [of 247 m] by fastforce
  then show ?thesis
  proof cases
    case 1
    have "\<not> (1 :: uint64) > word_of_nat (length (b # xs)) - 0"
      using size_check [OF len, where ts = 0 and cs = 1 and x = b] by simp
    then show ?thesis using 1 by (simp add: readKind_def less Let_def)
  next
    case (2 n)
    then have n: "b - 128 = word_of_nat n" "n < 256" by (simp_all add: b)
    then show ?thesis
      using 2 byte_casts(1) [of n] one [of n] short_check [OF len n(2), where k = String and x = b]
      by (cases "n = 1 \<and> xs \<noteq> [] \<and> xs ! 0 < 128")
        (auto simp: readKind_def less n(1) Let_def split del: if_split cong: if_cong)
  next
    case (3 n)
    then have n: "b - 183 = word_of_nat n" "n < 256" by (simp_all add: b)
    then show ?thesis
      using 3 byte_casts(1) [of n] long_check [OF len 3(2,3), where k = String] by (simp add: readKind_def less n(1) Let_def)
  next
    case (4 n)
    then have n: "b - 192 = word_of_nat n" "n < 256" by (simp_all add: b)
    then show ?thesis
      using 4 byte_casts(1) [of n] short_check [OF len n(2), where k = List and x = b]
      by (simp add: readKind_def less n(1) Let_def split del: if_split)
  next
    case (5 n)
    then have n: "b - 247 = word_of_nat n" "n < 256" by (simp_all add: b)
    then show ?thesis
      using 5 byte_casts(1) [of n] long_check [OF len 5(2,3), where k = List] by (simp add: readKind_def less n(1) Let_def)
  qed
qed

lemma short_kind_Inr:
  "short_kind k n xs = Inr (k', t, c) \<longleftrightarrow> k' = k \<and> t = 1 \<and> c = word_of_nat n \<and> n \<le> length xs"
  by (auto simp: short_kind_def)

lemma long_kind_Inr:
  assumes "1 \<le> n" "n \<le> 8"
  shows "long_kind k n xs = Inr (k', t, c) \<longleftrightarrow> k' = k \<and> t = word_of_nat (n + 1) \<and> n \<le> length xs \<and>
    take n xs = putint c \<and> 56 \<le> c \<and> unat c \<le> length xs - n"
  using readSize_iff [OF assms, of xs] putint_inject by (auto simp: long_kind_def split: sum.split)

text \<open>The sizes that readKind returns describe a canonical encoding at the front of the input.\<close>
definition starts_with :: "bytes \<Rightarrow> Kind \<Rightarrow> uint64 \<Rightarrow> uint64 \<Rightarrow> bool" where
  "starts_with b k t c \<longleftrightarrow> unat t + unat c \<le> length b \<and> canonical k (take (unat c) (drop (unat t) b)) \<and>
    take (unat t + unat c) b = frame k (take (unat c) (drop (unat t) b))"

lemma short_starts:
  assumes "n < 56" "n \<le> length xs" "k = String \<and> tag = 0x80 \<or> k = List \<and> tag = 0xC0"
    "k = String \<Longrightarrow> \<not> (n = 1 \<and> xs \<noteq> [] \<and> xs ! 0 < 128)"
  shows "starts_with ((tag + word_of_nat n) # xs) k 1 (word_of_nat n)"
proof -
  have n: "unat (word_of_nat n :: uint64) = n" "word_of_nat n < (56 :: uint64)"
    using assms(1) by (simp_all add: unat_of_nat take_bit_nat_eq_self word_less_nat_alt)
  show ?thesis
    using assms n byte_casts(2) [of n] by (auto simp: starts_with_def puthead_def)
qed

lemma long_starts:
  assumes "n = length (putint c)" "56 \<le> c" "take n xs = putint c" "n \<le> length xs" "unat c \<le> length xs - n"
    and "k = String \<and> tag = 0xB7 \<or> k = List \<and> tag = 0xF7"
  shows "starts_with ((tag + word_of_nat n) # xs) k (word_of_nat (n + 1)) c"
proof -
  have n: "n \<le> 8" using assms(1) length_putint(2) [of c] by simp
  then have t: "unat (word_of_nat (n + 1) :: uint64) = n + 1"
    by (subst unat_of_nat) (simp add: take_bit_nat_eq_self)
  have c: "56 \<le> unat c" "\<not> c < 56" using assms(2) by (simp_all add: word_le_nat_alt not_less)
  let ?content = "take (unat c) (drop n xs)"
  have len: "length ?content = unat c" using assms(4,5) by simp
  have "take (n + 1 + unat c) ((tag + word_of_nat n) # xs) = (tag + word_of_nat n) # putint c @ ?content"
    using assms(3) by (simp add: take_add)
  moreover have "canonical k ?content" using assms(6) len c(1) by auto
  moreover have "frame k ?content = (tag + word_of_nat n) # putint c @ ?content"
    using assms(1,6) len c(2) by (auto simp: puthead_def Let_def)
  ultimately show ?thesis
    using t assms(4,5) unfolding starts_with_def t by (simp del: frame.simps)
qed

lemma readKind_starts:
  assumes len: "length b < 2 ^ 64" and r: "readKind b = Inr (k, t, c)"
  shows "starts_with b k t c"
proof -
  obtain x xs where b: "b = x # xs" using r by (cases b) (auto simp: readKind_def)
  then have xs: "length xs < 2 ^ 64 - 1" using len by simp
  have m: "x = word_of_nat (unat x)" by simp
  note rk = r [unfolded b readKind_Cons [OF xs refl]]
  have tag: "x = word_of_nat (unat x - d) + word_of_nat d" if "d \<le> unat x" for d
    using that by (subst of_nat_add [symmetric]) simp
  have long: "n = length (putint c)" if "take n xs = putint c" "n \<le> length xs" for n
    using arg_cong [OF that(1), of length] that(2) by simp
  consider "unat x < 128" | n where "unat x = 128 + n" "n < 56" | n where "unat x = 183 + n" "1 \<le> n" "n \<le> 8"
    | n where "unat x = 192 + n" "n < 56" | n where "unat x = 247 + n" "1 \<le> n" "n \<le> 8"
    using unat_byte [of x] le_iff_add [of 128 "unat x"] le_iff_add [of 183 "unat x"]
      le_iff_add [of 192 "unat x"] le_iff_add [of 247 "unat x"] by fastforce
  then show ?thesis
  proof cases
    case 1
    then show ?thesis using rk by (simp add: b starts_with_def word_less_nat_alt)
  next
    case (2 n)
    then have "x = 0x80 + word_of_nat n" using tag [of 128] by simp
    then show ?thesis
      using 2 rk short_starts [where n = n and xs = xs and k = String and tag = "0x80"] by (auto simp: b short_kind_Inr split: if_splits)
  next
    case (3 n)
    then have "x = 0xB7 + word_of_nat n" using tag [of 183] by simp
    then show ?thesis
      using 3 rk long_starts [where n = n and c = c and xs = xs and k = String and tag = "0xB7"] long [of n] by (auto simp: b long_kind_Inr)
  next
    case (4 n)
    then have "x = 0xC0 + word_of_nat n" using tag [of 192] by simp
    then show ?thesis
      using 4 rk short_starts [where n = n and xs = xs and k = List and tag = "0xC0"] by (auto simp: b short_kind_Inr)
  next
    case (5 n)
    then have "x = 0xF7 + word_of_nat n" using tag [of 247] by simp
    then show ?thesis
      using 5 rk long_starts [where n = n and c = c and xs = xs and k = List and tag = "0xF7"] long [of n] by (auto simp: b long_kind_Inr)
  qed
qed

lemma unat_tag: "m < 256 \<Longrightarrow> n + m < 256 \<Longrightarrow> unat (word_of_nat m + word_of_nat n :: uint8) = m + n"
  by (simp add: unat_word_ariths(1))

lemma readKind_short:
  assumes "length (content @ rest) < 2 ^ 64 - 1" "length content < 56" "canonical k content"
    and "k = String \<and> tag = 128 \<or> k = List \<and> tag = 192"
  shows "readKind ((word_of_nat tag + word_of_nat (length content)) # content @ rest) =
    Inr (k, 1, word_of_nat (length content))"
proof -
  have "unat (word_of_nat tag + word_of_nat (length content) :: uint8) = tag + length content"
    using assms(2,4) by (intro unat_tag) auto
  note rk = readKind_Cons [OF assms(1) this [symmetric]]
  have "\<not> (tag = 128 \<and> length content = 1 \<and> content ! 0 < 128)" using assms(3,4) by auto
  then show ?thesis
    using assms(2,4) unfolding rk by (cases content) (auto simp: short_kind_def)
qed

lemma readKind_long:
  assumes "length (putint (word_of_nat (length content)) @ content @ rest) < 2 ^ 64 - 1" "56 \<le> length content"
    and "k = String \<and> tag = 183 \<or> k = List \<and> tag = 247"
  shows "readKind ((word_of_nat tag + word_of_nat (length (putint (word_of_nat (length content))))) #
      putint (word_of_nat (length content)) @ content @ rest) =
    Inr (k, word_of_nat (length (putint (word_of_nat (length content))) + 1), word_of_nat (length content))"
proof -
  let ?c = "word_of_nat (length content) :: uint64"
  let ?n = "length (putint ?c)"
  have c: "unat ?c = length content" using assms(1) by (simp add: unat_of_nat take_bit_nat_eq_self)
  have n: "1 \<le> ?n" "?n \<le> 8" by (rule length_putint)+
  have "unat (word_of_nat tag + word_of_nat ?n :: uint8) = tag + ?n"
    using assms(3) n by (intro unat_tag) auto
  note rk = readKind_Cons [OF assms(1) this [symmetric]]
  have "long_kind k ?n (putint ?c @ content @ rest) = Inr (k, word_of_nat (?n + 1), ?c)"
    using c assms(2) by (subst long_kind_Inr [OF n]) (simp add: word_le_nat_alt)
  then show ?thesis using assms(3) n unfolding rk by auto
qed

lemma length_puthead: "length (puthead small large c) = (if c < 56 then 1 else 1 + length (putint c))"
  by (simp add: puthead_def Let_def)

lemma readKind_frame:
  assumes len: "length (frame k content @ rest) < 2 ^ 64" and ok: "canonical k content"
  obtains t c where "readKind (frame k content @ rest) = Inr (k, t, c)" "unat c = length content"
    "unat t + length content = length (frame k content)"
proof (cases k)
  case Byte
  then obtain x where "content = [x]" "x < 0x80" using ok by (cases content) auto
  then show thesis
    using that [of 0 1] Byte len readKind_Cons [of rest "unat x" x] by (simp add: word_less_nat_alt)
next
  let ?c = "word_of_nat (length content) :: uint64"
  let ?n = "length (putint ?c)"
  have c: "unat ?c = length content"
    using len by (cases k) (auto simp: unat_of_nat take_bit_nat_eq_self)
  have t: "unat (word_of_nat (?n + 1) :: uint64) = ?n + 1"
    using length_putint(2) [of ?c] by (subst unat_of_nat) (simp add: take_bit_nat_eq_self)
  have less: "(?c < 56) = (length content < 56)" using c by (simp add: word_less_nat_alt)
  {
    case String
    show thesis
    proof (cases "length content < 56")
      case True
      then show thesis
        using that [of 1 ?c] String len ok c less byte_casts(2) [of "length content"]
          readKind_short [of content rest String 128]
        by (simp add: puthead_def)
    next
      case False
      then show thesis
        using that [of "word_of_nat (?n + 1)" ?c] String len c t less readKind_long [of content rest String 183]
        by (simp add: puthead_def Let_def del: of_nat_add)
    qed
  next
    case List
    show thesis
    proof (cases "length content < 56")
      case True
      then show thesis
        using that [of 1 ?c] List len ok c less byte_casts(2) [of "length content"]
          readKind_short [of content rest List 192]
        by (simp add: puthead_def)
    next
      case False
      then show thesis
        using that [of "word_of_nat (?n + 1)" ?c] List len c t less readKind_long [of content rest List 247]
        by (simp add: puthead_def Let_def del: of_nat_add)
    qed
  }
qed

lemma starts_sum:
  assumes "length b < 2 ^ 64" "starts_with b k t c"
  shows "unat (t + c) = unat t + unat c" "unat t + unat c \<le> length b" "0 < unat t + unat c"
proof -
  have le: "unat t + unat c \<le> length b" using assms(2) by (simp add: starts_with_def)
  then show "unat t + unat c \<le> length b" .
  show "unat (t + c) = unat t + unat c" using le assms(1) by (simp add: unat_word_ariths(1))
  let ?content = "take (unat c) (drop (unat t) b)"
  have "frame k ?content \<noteq> []"
    using assms(2) by (cases k) (auto simp: starts_with_def puthead_def Let_def)
  then show "0 < unat t + unat c"
    using assms(2) unfolding starts_with_def by (metis gr0I take_0)
qed

lemma Split_iff:
  assumes len: "length b < 2 ^ 64"
  shows "Split b = Inr (k, content, rest) \<longleftrightarrow> b = frame k content @ rest \<and> canonical k content"
proof
  assume "Split b = Inr (k, content, rest)"
  then obtain t c where r: "readKind b = Inr (k, t, c)" "content = take (unat c) (drop (unat t) b)"
      "rest = drop (unat (t + c)) b"
    by (auto simp: Split_def split: sum.splits)
  note st = readKind_starts [OF len r(1)]
  have "b = take (unat t + unat c) b @ rest" unfolding r(3) starts_sum(1) [OF len st] by simp
  then show "b = frame k content @ rest \<and> canonical k content"
    using st unfolding starts_with_def r(2) by simp
next
  assume b: "b = frame k content @ rest \<and> canonical k content"
  then obtain t c where r: "readKind b = Inr (k, t, c)" "unat c = length content"
      "unat t + length content = length (frame k content)"
    using readKind_frame [of k content rest] len by blast
  note st = readKind_starts [OF len r(1)]
  have "drop (unat (t + c)) b = rest" unfolding starts_sum(1) [OF len st] using b r(2,3) by simp
  moreover have "take (unat c) (drop (unat t) b) = content"
  proof -
    have t: "unat t = length (frame k content) - length content" using r(3) by simp
    have "drop (length (frame k content) - length content) (frame k content) = content"
      by (cases k) auto
    then have "drop (unat t) b = content @ rest" using b unfolding t by simp
    then show ?thesis using r(2) by simp
  qed
  ultimately show "Split b = Inr (k, content, rest)" using r(1) by (simp add: Split_def)
qed

text \<open>
  C28.  Split accepts exactly the canonical encodings: it returns a kind, a content and a rest if
  and only if the input is the canonical encoding of that content, with the shortest possible
  header, followed by the rest.
\<close>
theorem Split_canonical:
  assumes "length b < 2 ^ 64"
  shows "Split b = Inr (k, content, rest) \<longleftrightarrow> b = frame k content @ rest \<and> canonical k content"
  by (rule Split_iff [OF assms])

theorem Split_canonical_witness:
  "Split [0x82, 5, 6, 7] = Inr (String, [5, 6], [7]) \<and> Split [0x81, 5, 6, 7] \<noteq> Inr (String, [5], [6, 7])"
  using Split_canonical [of "[0x82, 5, 6, 7]" String "[5, 6]" "[7]"]
    Split_canonical [of "[0x81, 5, 6, 7]" String "[5]" "[6, 7]"]
  by (simp add: puthead_def)

subsection \<open>Counting values\<close>

definition values_of :: "bytes \<Rightarrow> (Kind \<times> bytes) list \<Rightarrow> bool" where
  "values_of b vs \<longleftrightarrow> b = concat (map (\<lambda>(k, c). frame k c) vs) \<and> (\<forall>(k, c) \<in> set vs. canonical k c)"

lemma values_of_Nil: "values_of b [] \<longleftrightarrow> b = []"
  by (simp add: values_of_def)

lemma values_of_Cons:
  "values_of b ((k, c) # vs) \<longleftrightarrow> (\<exists>rest. b = frame k c @ rest \<and> canonical k c \<and> values_of rest vs)"
  by (auto simp: values_of_def)

lemma CountValues_loop_spec:
  "length b < 2 ^ 64 \<Longrightarrow> \<exists>r. CountValues_loop b i = Some r \<and>
    (\<forall>n. r = Inr n \<longleftrightarrow> (\<exists>vs. n = i + length vs \<and> values_of b vs))"
proof (induction b arbitrary: i rule: length_induct)
  case (1 b)
  note len = "1.prems"
  show ?case
  proof (cases "b = []")
    case True
    have "values_of [] vs \<longleftrightarrow> vs = []" for vs
    proof (cases vs)
      case (Cons v vs')
      then have "\<not> values_of [] vs"
        by (cases v; cases "fst v") (auto simp: values_of_def puthead_def Let_def)
      then show ?thesis using Cons by simp
    qed (simp add: values_of_Nil)
    then show ?thesis using True by (auto simp: CountValues_loop.simps [of "[]"])
  next
    case False
    show ?thesis
    proof (cases "readKind b")
      case (Inl err)
      have "\<not> values_of b vs" for vs
      proof (cases vs)
        case (Cons v vs')
        obtain k c where v: "v = (k, c)" by fastforce
        have "Split b \<noteq> Inr (k, c, rest)" for rest using Inl by (simp add: Split_def)
        then show ?thesis using Split_iff [OF len, of k c] unfolding Cons v values_of_Cons by blast
      qed (use False in \<open>simp add: values_of_Nil\<close>)
      then show ?thesis using Inl False by (simp add: CountValues_loop.simps [of b])
    next
      case (Inr kts)
      then obtain k t c where r: "readKind b = Inr (k, t, c)" by (cases kts) auto
      let ?rest = "drop (unat (t + c)) b" let ?content = "take (unat c) (drop (unat t) b)"
      note sum = starts_sum [OF len readKind_starts [OF len r]]
      have sp: "Split b = Inr (k, ?content, ?rest)" using r by (simp add: Split_def)
      have rest: "length ?rest < length b" "length ?rest < 2 ^ 64" using sum False len by simp_all
      obtain r' where r': "CountValues_loop ?rest (i + 1) = Some r'"
        "\<And>n. r' = Inr n \<longleftrightarrow> (\<exists>vs. n = i + 1 + length vs \<and> values_of ?rest vs)"
        using "1.IH" [rule_format, OF rest, of "i + 1"] by blast
      have "(\<exists>vs. n = i + length vs \<and> values_of b vs) \<longleftrightarrow> (\<exists>vs. n = i + 1 + length vs \<and> values_of ?rest vs)" for n
      proof
        assume "\<exists>vs. n = i + length vs \<and> values_of b vs"
        then obtain us where us: "n = i + length us" "values_of b us" by blast
        then obtain k' c' vs where vs: "us = (k', c') # vs" using False by (cases us) (auto simp: values_of_Nil)
        then obtain rest' where rest': "b = frame k' c' @ rest'" "canonical k' c'" "values_of rest' vs"
          using us(2) unfolding vs values_of_Cons by blast
        then have "Split b = Inr (k', c', rest')" using Split_iff [OF len] by blast
        from trans [OF this [symmetric] sp] have "rest' = ?rest" by (simp only: sum.inject prod.inject)
        then have "values_of ?rest vs" using rest'(3) by (simp only:)
        moreover have "n = i + 1 + length vs" using us(1) vs by simp
        ultimately show "\<exists>vs. n = i + 1 + length vs \<and> values_of ?rest vs" by blast
      next
        assume "\<exists>vs. n = i + 1 + length vs \<and> values_of ?rest vs"
        then obtain vs where vs: "n = i + 1 + length vs" "values_of ?rest vs" by blast
        have "values_of b ((k, ?content) # vs)"
          using Split_iff [OF len, of k ?content ?rest] sp vs(2) unfolding values_of_Cons by blast
        then show "\<exists>vs. n = i + length vs \<and> values_of b vs" using vs(1) by (intro exI [of _ "(k, ?content) # vs"]) simp
      qed
      then show ?thesis using r r' False by (simp add: CountValues_loop.simps [of b])
    qed
  qed
qed

text \<open>
  C29.  The loop of CountValues ends on every input, since every value that readKind accepts is at
  least one byte long; it returns a number, and no error, if and only if the input is a sequence of
  that many canonical encodings.
\<close>
theorem CountValues_terminates:
  assumes "length b < 2 ^ 64"
  shows "\<exists>r. CountValues b = Some r \<and> (\<forall>n. r = Inr n \<longleftrightarrow> (\<exists>vs. n = length vs \<and> values_of b vs))"
  using CountValues_loop_spec [OF assms, of 0] by (simp add: CountValues_def)

theorem CountValues_terminates_witness: "CountValues [0x82, 5, 6, 7, 0xC0] = Some (Inr 3)"
proof -
  let ?vs = "[(String, [5, 6]), (Byte, [7]), (List, [])] :: (Kind \<times> bytes) list"
  have "length ([0x82, 5, 6, 7, 0xC0] :: bytes) < 2 ^ 64" by simp
  then obtain r where r: "CountValues [0x82, 5, 6, 7, 0xC0] = Some r"
    "\<forall>n. r = Inr n \<longleftrightarrow> (\<exists>vs. n = length vs \<and> values_of [0x82, 5, 6, 7, 0xC0] vs)"
    using CountValues_terminates by blast
  have vs: "values_of [0x82, 5, 6, 7, 0xC0] ?vs" by (simp add: values_of_def puthead_def)
  have "r = Inr (length ?vs)"
    using r(2) vs by blast
  then show ?thesis using r(1) by simp
qed

subsection \<open>Integers\<close>

definition int_content :: "uint64 \<Rightarrow> bytes" where
  "int_content x = (if x = 0 then [] else putint x)"

lemma byte_up_down: "(ucast (ucast y :: uint64) :: uint8) = y"
  using byte_casts [of "unat y"] unat_byte [of y] by simp

lemma putint_single: "putint x = [y] \<longleftrightarrow> x = ucast y"
proof
  assume "putint x = [y]"
  then show "x = ucast y" using be_word_putint [of x] by (simp add: be_word_def)
next
  assume "x = ucast y"
  moreover have "(ucast y :: uint64) < 2 ^ 8"
    using unat_byte [of y] by (simp add: word_less_nat_alt unsigned_ucast_eq take_bit_nat_eq_self)
  ultimately show "putint x = [y]" by (simp add: putint_def byte_up_down)
qed

lemma putint_large: "2 \<le> length (putint x) \<Longrightarrow> 256 \<le> x"
  by (cases rule: word_ranges [of x]) (simp_all add: putint_def word_less_nat_alt word_le_nat_alt)

lemma putint_small: "i < 128 \<Longrightarrow> putint i = [ucast i] \<and> ucast i < (0x80 :: uint8)"
  by (simp add: putint_def word_less_nat_alt unsigned_ucast_eq take_bit_eq_mod)

lemma putint_not_small: "\<not> i < 128 \<Longrightarrow> \<not> (length (putint i) = 1 \<and> putint i ! 0 < 0x80)"
proof
  assume i: "\<not> i < 128" "length (putint i) = 1 \<and> putint i ! 0 < 0x80"
  then obtain y where y: "putint i = [y]" "y < 0x80" by (cases "putint i") auto
  then have "i = ucast y" by (simp add: putint_single)
  then show False
    using i(1) y(2) unat_byte [of y]
    by (simp add: word_less_nat_alt unsigned_ucast_eq take_bit_nat_eq_self)
qed

lemma AppendUint64_putint:
  "AppendUint64 b i = b @ (if i = 0 then [0x80] else if i < 128 then [ucast i]
    else (0x80 + word_of_nat (length (putint i))) # putint i)"
proof (cases "i < 128")
  case True
  then show ?thesis by (simp add: AppendUint64_def)
next
  case False
  then have i: "i \<noteq> 0" "128 \<le> unat i" by (auto simp: word_less_nat_alt not_less)
  then show ?thesis
    by (cases rule: word_ranges [of i])
      (simp_all add: AppendUint64_def putint_def word_less_nat_alt)
qed

lemma puthead_putint: "puthead 0x80 0xB7 (word_of_nat (length (putint i))) = [0x80 + word_of_nat (length (putint i))]"
proof -
  have n: "length (putint i) < 56" using length_putint(2) [of i] by simp
  then have "word_of_nat (length (putint i)) < (56 :: uint64)"
    by (simp add: word_less_nat_alt unat_of_nat take_bit_nat_eq_self)
  then show ?thesis using n byte_casts(2) [of "length (putint i)"] by (simp add: puthead_def)
qed

abbreviation int_kind :: "uint64 \<Rightarrow> Kind" where
  "int_kind i \<equiv> (if i \<noteq> 0 \<and> i < 128 then Byte else String)"

lemma AppendUint64_frame:
  "AppendUint64 b i = b @ frame (int_kind i) (int_content i)" "canonical (int_kind i) (int_content i)"
proof -
  consider "i = 0" | "i \<noteq> 0" "i < 128" | "i \<noteq> 0" "\<not> i < 128" by blast
  then show "AppendUint64 b i = b @ frame (int_kind i) (int_content i)"
  proof cases
    case 1
    then show ?thesis by (simp add: AppendUint64_putint int_content_def puthead_def)
  next
    case 2
    then show ?thesis using putint_small [of i] by (simp add: AppendUint64_putint int_content_def)
  next
    case 3
    then show ?thesis using puthead_putint [of i] by (simp add: AppendUint64_putint int_content_def)
  qed
  show "canonical (int_kind i) (int_content i)"
    using putint_small [of i] putint_not_small [of i] by (simp add: int_content_def)
qed

lemma SplitUint64_content:
  assumes "SplitString b = Inr (content, rest)"
  shows "SplitUint64 b = Inr (x, rest') \<longleftrightarrow> rest' = rest \<and> content = int_content x"
proof -
  consider "content = []" | y where "content = [y]" | "2 \<le> length content" "length content \<le> 8" | "8 < length content"
    by (cases content; cases "tl content") (auto simp: not_le [symmetric])
  then show ?thesis
  proof cases
    case 1
    then show ?thesis
      using assms length_putint(1) [of x] by (auto simp: SplitUint64_def int_content_def)
  next
    case (2 y)
    have "(ucast y = (0 :: uint64)) = (y = 0)" by (metis byte_up_down ucast_0)
    then show ?thesis
      using assms 2 putint_single [of x y] by (auto simp: SplitUint64_def int_content_def)
  next
    case 3
    have "readSize content (word_of_nat (length content)) = Inr x \<longleftrightarrow> content = putint x \<and> 56 \<le> x"
      using readSize_iff [of "length content" content x] 3 by auto
    moreover have "x \<noteq> 0 \<and> 56 \<le> x" if "content = putint x"
    proof -
      have "256 \<le> x" using putint_large [of x] 3(1) that by simp
      then show ?thesis by (auto intro: order_trans [rotated])
    qed
    ultimately show ?thesis
      using assms 3 by (auto simp: SplitUint64_def int_content_def split: sum.split)
  next
    case 4
    then show ?thesis
      using assms length_putint(2) [of x] by (auto simp: SplitUint64_def int_content_def)
  qed
qed

lemma SplitString_iff:
  assumes "length b < 2 ^ 64"
  shows "SplitString b = Inr (content, rest) \<longleftrightarrow>
    (\<exists>k. k \<noteq> List \<and> b = frame k content @ rest \<and> canonical k content)"
  using Split_iff [OF assms, of _ content rest, symmetric]
  by (auto simp: SplitString_def split: sum.split prod.split)

lemma int_content_kind:
  "\<lbrakk>canonical k (int_content x); k \<noteq> List\<rbrakk> \<Longrightarrow> k = int_kind x"
  using AppendUint64_frame(2) [of x] by (cases k) (auto split: if_splits)

lemma SplitUint64_iff:
  assumes "length b < 2 ^ 64"
  shows "SplitUint64 b = Inr (x, rest) \<longleftrightarrow> b = AppendUint64 [] x @ rest"
proof
  assume r: "SplitUint64 b = Inr (x, rest)"
  then obtain content rest' where sp: "SplitString b = Inr (content, rest')"
    by (auto simp: SplitUint64_def split: sum.splits)
  then have c: "rest' = rest" "content = int_content x" using r by (simp_all add: SplitUint64_content)
  then obtain k where "k \<noteq> List" "b = frame k (int_content x) @ rest" "canonical k (int_content x)"
    using sp SplitString_iff [OF assms] by blast
  then show "b = AppendUint64 [] x @ rest" using int_content_kind [of k x] by (simp add: AppendUint64_frame(1))
next
  assume b: "b = AppendUint64 [] x @ rest"
  have "int_kind x \<noteq> List" by simp
  then have "SplitString b = Inr (int_content x, rest)"
    using AppendUint64_frame(1) [of "[]" x] AppendUint64_frame(2) [of x] SplitString_iff [OF assms] b by fastforce
  then show "SplitUint64 b = Inr (x, rest)" by (simp add: SplitUint64_content)
qed

lemma intsize_loop_eq: "intsize_loop i n = Some (n + length (be_digits (unat i)) - 1)"
proof (induction "unat i" arbitrary: i n rule: less_induct)
  case less
  let ?j = "drop_bit 8 i"
  have j: "unat ?j = unat i div 256" by (simp add: unat_drop_bit_eq drop_bit_eq_div [of 8 "unat i"])
  show ?case
  proof (cases "unat i < 256")
    case True
    then have "?j = 0" using j by (simp add: word_unat_eq_iff)
    then show ?thesis using True by (simp add: intsize_loop.simps [of i] be_digits_base)
  next
    case False
    then have "?j \<noteq> 0" "unat ?j < unat i" using j by (auto simp: word_unat_eq_iff)
    then have "intsize_loop i n = Some (n + 1 + length (be_digits (unat i div 256)) - 1)"
      using less [of ?j "n + 1"] j by (simp add: intsize_loop.simps [of i])
    then show ?thesis using False by (simp add: be_digits_step)
  qed
qed

lemma intsize_eq: "intsize i = Some (length (putint i))"
  by (simp add: intsize_def intsize_loop_eq putint_digits)

lemma encodeUint_Append: "eb_str (encodeUint w i) = AppendUint64 (eb_str w) i"
  by (simp add: encodeUint_def AppendUint64_putint Let_def)

text \<open>
  C30.  Integers: SplitUint64 reads a number from the front of its input exactly when the input
  starts with what AppendUint64 writes for it, so that every number has one encoding; encodeUint
  writes the same bytes, and IntSize tells their number.
\<close>
theorem rlp_uint_roundtrip:
  assumes "length b < 2 ^ 64"
  shows "(SplitUint64 b = Inr (x, rest) \<longleftrightarrow> b = AppendUint64 [] x @ rest) \<and>
    eb_str (encodeUint w x) = eb_str w @ AppendUint64 [] x \<and> IntSize x = Some (length (AppendUint64 [] x))"
proof -
  have "IntSize x = Some (length (AppendUint64 [] x))"
    by (simp add: IntSize_def intsize_eq AppendUint64_putint word_less_nat_alt)
  moreover have "eb_str (encodeUint w x) = eb_str w @ AppendUint64 [] x"
    by (simp add: encodeUint_Append AppendUint64_putint)
  ultimately show ?thesis using SplitUint64_iff [OF assms] by blast
qed

theorem rlp_uint_roundtrip_witness:
  "SplitUint64 [0x82, 0x12, 0x34, 7] = Inr (0x1234, [7]) \<and> AppendUint64 [] 0x1234 = [0x82, 0x12, 0x34]"
  using rlp_uint_roundtrip [of "[0x82, 0x12, 0x34, 7]" "0x1234" "[7]" eb_reset]
  by (simp add: AppendUint64_def)

subsection \<open>The encoding buffer\<close>

text \<open>The recursive definition of the encoding.\<close>
fun rlp_enc :: "rlp_value \<Rightarrow> bytes" where
  "rlp_enc (RString b) = (if length b = 1 \<and> b ! 0 \<le> 0x7F then b else frame String b)"
| "rlp_enc (RList vs) = frame List (concat (map rlp_enc vs))"

lemma toBytes_advance:
  assumes "p \<le> q" "q \<le> length str" "\<forall>h \<in> set hs. q \<le> lh_offset h"
  shows "toBytes_loop str p hs = take (q - p) (drop p str) @ toBytes_loop str q hs"
proof (cases hs)
  case Nil
  then show ?thesis using assms(1) append_take_drop_id [of "q - p" "drop p str"] by simp
next
  case (Cons h hs')
  have off: "q \<le> lh_offset h" using assms(3) Cons by simp
  have "take (lh_offset h - p) (drop p str) = take (q - p) (drop p str) @ take (lh_offset h - q) (drop q str)"
    using take_add [of "q - p" "lh_offset h - q" "drop p str"] off assms(1) by simp
  moreover have "p + length (take (lh_offset h - p) (drop p str)) = q + length (take (lh_offset h - q) (drop q str))"
    using off assms(1,2) by auto
  ultimately show ?thesis using Cons by simp
qed

text \<open>
  String data and headers that are inserted at position p come out as the given bytes, whatever
  data and headers follow.
\<close>
definition woven :: "nat \<Rightarrow> bytes \<Rightarrow> listhead list \<Rightarrow> bytes \<Rightarrow> bool" where
  "woven p body hs out \<longleftrightarrow> (\<forall>h \<in> set hs. p \<le> lh_offset h) \<and> (\<forall>pre post hs'. length pre = p \<longrightarrow>
    (\<forall>h \<in> set hs'. p + length body \<le> lh_offset h) \<longrightarrow>
    toBytes_loop (pre @ body @ post) p (hs @ hs') = out @ toBytes_loop (pre @ body @ post) (p + length body) hs')"

lemma wovenD:
  "\<lbrakk>woven p body hs out; length pre = p; \<forall>h \<in> set hs'. p + length body \<le> lh_offset h\<rbrakk> \<Longrightarrow>
    toBytes_loop (pre @ body @ post) p (hs @ hs') = out @ toBytes_loop (pre @ body @ post) (p + length body) hs'"
  unfolding woven_def by blast

lemma woven_string: "woven p body [] body"
  unfolding woven_def
proof (intro conjI allI impI)
  fix pre post :: bytes and hs' :: "listhead list"
  assume "length pre = p" "\<forall>h \<in> set hs'. p + length body \<le> lh_offset h"
  then show "toBytes_loop (pre @ body @ post) p ([] @ hs') = body @ toBytes_loop (pre @ body @ post) (p + length body) hs'"
    using toBytes_advance [of p "p + length body" "pre @ body @ post" hs'] by simp
qed simp

lemma woven_append:
  assumes "woven p b1 hs1 out1" "woven (p + length b1) b2 hs2 out2"
  shows "woven p (b1 @ b2) (hs1 @ hs2) (out1 @ out2)"
  unfolding woven_def
proof (intro conjI allI impI)
  show "\<forall>h \<in> set (hs1 @ hs2). p \<le> lh_offset h" using assms unfolding woven_def by fastforce
  fix pre post :: bytes and hs' :: "listhead list"
  assume pre: "length pre = p" and hs': "\<forall>h \<in> set hs'. p + length (b1 @ b2) \<le> lh_offset h"
  have "\<forall>h \<in> set (hs2 @ hs'). p + length b1 \<le> lh_offset h"
    using assms(2) hs' unfolding woven_def by fastforce
  then have "toBytes_loop (pre @ b1 @ (b2 @ post)) p (hs1 @ (hs2 @ hs')) =
      out1 @ toBytes_loop (pre @ b1 @ (b2 @ post)) (p + length b1) (hs2 @ hs')"
    by (rule wovenD [OF assms(1) pre])
  moreover have "toBytes_loop ((pre @ b1) @ b2 @ post) (p + length b1) (hs2 @ hs') =
      out2 @ toBytes_loop ((pre @ b1) @ b2 @ post) (p + length b1 + length b2) hs'"
    using pre hs' by (intro wovenD [OF assms(2)]) (simp_all add: add.assoc)
  ultimately show "toBytes_loop (pre @ (b1 @ b2) @ post) p ((hs1 @ hs2) @ hs') =
      (out1 @ out2) @ toBytes_loop (pre @ (b1 @ b2) @ post) (p + length (b1 @ b2)) hs'"
    by (simp add: add.assoc)
qed

lemma woven_list:
  assumes "woven p body hs out" "lh_offset h = p"
  shows "woven p body (h # hs) (lh_encode h @ out)"
  using assms unfolding woven_def by auto

text \<open>What writing a value does to the buffer.\<close>
definition writes :: "encbuf \<Rightarrow> encbuf option \<Rightarrow> bytes \<Rightarrow> bool" where
  "writes w r out \<longleftrightarrow> (\<exists>body hs. r = Some (w\<lparr>eb_str := eb_str w @ body, eb_lheads := eb_lheads w @ hs,
      eb_lhsize := eb_lhsize w + (int (length out) - int (length body))\<rparr>) \<and>
    woven (length (eb_str w)) body hs out)"

lemma writes_Nil: "writes w (Some w) []"
  unfolding writes_def using woven_string [of "length (eb_str w)" "[]"] by (intro exI [of _ "[]"]) simp

lemma writes_trans:
  assumes "writes w r out1" "\<And>w'. r = Some w' \<Longrightarrow> writes w' (k w') out2"
  shows "writes w (Option.bind r k) (out1 @ out2)"
proof -
  obtain b1 hs1 where 1: "r = Some (w\<lparr>eb_str := eb_str w @ b1, eb_lheads := eb_lheads w @ hs1,
      eb_lhsize := eb_lhsize w + (int (length out1) - int (length b1))\<rparr>)" (is "r = Some ?w1")
    "woven (length (eb_str w)) b1 hs1 out1"
    using assms(1) unfolding writes_def by blast
  obtain b2 hs2 where 2: "k ?w1 = Some (?w1\<lparr>eb_str := eb_str ?w1 @ b2, eb_lheads := eb_lheads ?w1 @ hs2,
      eb_lhsize := eb_lhsize ?w1 + (int (length out2) - int (length b2))\<rparr>)"
    "woven (length (eb_str ?w1)) b2 hs2 out2"
    using assms(2) [OF 1(1)] unfolding writes_def by blast
  show ?thesis
    unfolding writes_def
    by (rule exI [of _ "b1 @ b2"], rule exI [of _ "hs1 @ hs2"])
      (use 1 2 woven_append [OF 1(2)] in \<open>simp add: algebra_simps\<close>)
qed

lemma encodeString_writes:
  assumes "length (rlp_enc (RString b)) < 2 ^ 64"
  shows "writes w (Some (encodeString w b)) (rlp_enc (RString b))"
proof -
  have n: "length b < 2 ^ 64" using assms by (simp split: if_splits)
  then have "unat (word_of_nat (length b) :: uint64) = length b" by (simp add: unat_of_nat take_bit_nat_eq_self)
  then have small: "((word_of_nat (length b) :: uint64) < 56) = (length b < 56)" by (simp add: word_less_nat_alt)
  have "encodeString w b = w\<lparr>eb_str := eb_str w @ rlp_enc (RString b)\<rparr>"
  proof (cases "length b = 1 \<and> b ! 0 \<le> 0x7F")
    case True
    then have "[b ! 0] = b" by (cases b) auto
    then show ?thesis using True by (simp add: encodeString_def)
  next
    case False
    have "eb_str (encodeStringHeader w (length b)) = eb_str w @ puthead 0x80 0xB7 (word_of_nat (length b))"
      using small byte_casts(2) [of "length b"] by (simp add: encodeStringHeader_def puthead_def Let_def)
    moreover have "encodeStringHeader w (length b) = w\<lparr>eb_str := eb_str (encodeStringHeader w (length b))\<rparr>"
      by (simp add: encodeStringHeader_def Let_def)
    ultimately have "encodeStringHeader w (length b) = w\<lparr>eb_str := eb_str w @ puthead 0x80 0xB7 (word_of_nat (length b))\<rparr>"
      by simp
    then show ?thesis
      unfolding encodeString_def rlp_enc.simps if_not_P [OF False] by (simp add: Let_def)
  qed
  then show ?thesis
    unfolding writes_def using woven_string by (intro exI [of _ "rlp_enc (RString b)"] exI [of _ "[]"]) simp
qed

lemma listEnd_writes:
  assumes "eb_list w = (i, w1)" "writes w1 r out" "length out < 2 ^ 64"
  shows "writes w (Option.bind r (\<lambda>w. listEnd w i)) (frame List out)"
proof -
  let ?h = "\<lparr>lh_offset = length (eb_str w), lh_size = eb_lhsize w\<rparr>"
  let ?h' = "\<lparr>lh_offset = length (eb_str w), lh_size = int (length out)\<rparr>"
  have w1: "w1 = w\<lparr>eb_lheads := eb_lheads w @ [?h]\<rparr>" "i = length (eb_lheads w)"
    using assms(1) by (auto simp: eb_list_def Let_def)
  obtain body hs where r: "r = Some (w1\<lparr>eb_str := eb_str w @ body, eb_lheads := (eb_lheads w @ [?h]) @ hs,
      eb_lhsize := eb_lhsize w + (int (length out) - int (length body))\<rparr>)" (is "r = Some ?w2")
    "woven (length (eb_str w)) body hs out"
    using assms(2) unfolding writes_def w1 by auto
  have head: "lh_encode ?h' = puthead 0xC0 0xF7 (word_of_nat (length out))" by (simp add: lh_encode_def)
  have "unat (word_of_nat (length out) :: uint64) = length out"
    using assms(3) by (simp add: unat_of_nat take_bit_nat_eq_self)
  then have small: "((word_of_nat (length out) :: uint64) < 56) = (length out < 56)" by (simp add: word_less_nat_alt)
  have "eb_lheads ?w2 ! i = ?h" "(eb_lheads ?w2)[i := ?h'] = eb_lheads w @ ?h' # hs" "i < length (eb_lheads ?w2)"
    using w1(2) by (simp_all add: nth_append list_update_append)
  moreover have "eb_size ?w2 - int (length (eb_str w)) - eb_lhsize w = int (length out)" by (simp add: eb_size_def)
  ultimately have "listEnd ?w2 i = Some (?w2\<lparr>eb_lheads := eb_lheads w @ ?h' # hs,
      eb_lhsize := eb_lhsize w + (int (length out) - int (length body)) + int (length (lh_encode ?h'))\<rparr>)"
    using small by (simp add: listEnd_def intsize_eq head length_puthead Let_def)
  moreover have "woven (length (eb_str w)) body (?h' # hs) (lh_encode ?h' @ out)"
    using r(2) by (rule woven_list) simp
  ultimately show ?thesis
    unfolding writes_def
    by (intro exI [of _ body] exI [of _ "?h' # hs"]) (simp add: r(1) w1(1) head algebra_simps)
qed

lemma write_writes:
  "length (rlp_enc v) < 2 ^ 64 \<Longrightarrow> writes w (write_value v w) (rlp_enc v)"
  "length (concat (map rlp_enc vs)) < 2 ^ 64 \<Longrightarrow> writes w (write_values vs w) (concat (map rlp_enc vs))"
proof (induction v w and vs w rule: write_value_write_values.induct)
  case (1 b w)
  then show ?case using encodeString_writes by simp
next
  case (2 vs w)
  obtain i w1 where l: "eb_list w = (i, w1)" by fastforce
  have "length (concat (map rlp_enc vs)) < 2 ^ 64" using 2(2) by simp
  then have "writes w1 (write_values vs w1) (concat (map rlp_enc vs))" using 2(1) l by simp
  from listEnd_writes [OF l this \<open>length (concat (map rlp_enc vs)) < 2 ^ 64\<close>] show ?case using l by simp
next
  case (3 w)
  then show ?case by (simp add: writes_Nil)
next
  case (4 v vs w)
  then show ?case using writes_trans [OF 4(1)] by simp
qed

text \<open>
  C27.  The encoding buffer is correct: writing a value of nested lists and byte strings with
  list(), listEnd() and encodeString, and weaving the list headers into the string data at the
  end, produces exactly the recursively defined encoding of the value, and the size of the
  buffer is its length.
\<close>
theorem encbuf_correct:
  assumes "length (rlp_enc v) < 2 ^ 64"
  shows "\<exists>w. write_value v eb_reset = Some w \<and> toBytes w = rlp_enc v \<and> eb_size w = int (length (rlp_enc v)) \<and>
    EncodeToBytes v = Some (rlp_enc v)"
proof -
  obtain body hs where w: "write_value v eb_reset = Some (eb_reset\<lparr>eb_str := body, eb_lheads := hs,
      eb_lhsize := int (length (rlp_enc v)) - int (length body)\<rparr>)" (is "_ = Some ?w")
    and "woven 0 body hs (rlp_enc v)"
    using write_writes(1) [OF assms, of eb_reset] by (auto simp: writes_def eb_reset_def)
  then have "toBytes_loop ([] @ body @ []) 0 (hs @ []) = rlp_enc v @ toBytes_loop ([] @ body @ []) (0 + length body) []"
    by (intro wovenD) simp_all
  then have "toBytes ?w = rlp_enc v" by (simp add: toBytes_def)
  then show ?thesis using w by (simp add: EncodeToBytes_def eb_size_def)
qed

theorem encbuf_correct_witness:
  "EncodeToBytes (RList [RString [1, 2], RList []]) = Some [0xC4, 0x82, 1, 2, 0xC0]"
  using encbuf_correct [of "RList [RString [1, 2], RList []]"] by (auto simp: puthead_def)

end
