(* ===== verification/Validator_Set.thy ===== *)
theory Validator_Set
  imports Address_Text "HOL-Library.List_Lexorder" "HOL-Library.Char_ord" "HOL-Library.Product_Lexorder"
begin

text \<open>
  The validator set of the Istanbul engine (consensus/istanbul/validator.go,
  validator/default.go, validator/validator.go): its order, the proposer of a round, and the
  number of faulty validators it is meant to tolerate.  sort.Sort sorts with the order of the
  policy; every order used compares the printed or raw address last, so the result is the only
  sorted arrangement and insertion sort gives it too.

  Parameters: \<open>keccak\<close> is the hash in the printed form of an address; \<open>db\<close> gives the credit scores of
  the state database, None when there is none.
\<close>

subsection \<open>Validators and their order\<close>

record defaultValidator =
  dv_address :: address
  dv_coefficient :: uint8

definition validator_New :: "address \<Rightarrow> uint8 \<Rightarrow> defaultValidator" where
  "validator_New addr coefficient = \<lparr>dv_address = addr, dv_coefficient = coefficient\<rparr>"

type_synonym ValidatorSortByFunc = "defaultValidator \<Rightarrow> defaultValidator \<Rightarrow> bool"

definition ValidatorSortByString :: "(bytes \<Rightarrow> bytes) \<Rightarrow> ValidatorSortByFunc" where
  "ValidatorSortByString keccak v1 v2 = (Hex keccak (dv_address v1) < Hex keccak (dv_address v2))"

definition ValidatorSortByByte :: ValidatorSortByFunc where
  "ValidatorSortByByte v1 v2 = (address_bytes (dv_address v1) < address_bytes (dv_address v2))"

definition ValidatorSortByCoefficient :: "(bytes \<Rightarrow> bytes) \<Rightarrow> ValidatorSortByFunc" where
  "ValidatorSortByCoefficient keccak v1 v2 =
    (if dv_coefficient v1 = dv_coefficient v2
     then Hex keccak (dv_address v1) < Hex keccak (dv_address v2)
     else dv_coefficient v1 > dv_coefficient v2)"

datatype ProposerPolicyId = RoundRobin | Sticky | Coefficient

record ProposerPolicy =
  pp_Id :: ProposerPolicyId
  pp_By :: ValidatorSortByFunc

subsection \<open>The set\<close>

record defaultSet =
  ds_validators :: "defaultValidator list"
  ds_policy :: ProposerPolicy
  ds_proposer :: "defaultValidator option"

definition ds_Size :: "defaultSet \<Rightarrow> nat" where
  "ds_Size valSet = length (ds_validators valSet)"

definition ds_ListAll :: "defaultSet \<Rightarrow> address list" where
  "ds_ListAll valSet = map dv_address (ds_validators valSet)"

definition ds_GetByIndex :: "defaultSet \<Rightarrow> uint64 \<Rightarrow> defaultValidator option" where
  "ds_GetByIndex valSet i =
    (if i < word_of_nat (ds_Size valSet) then Some (ds_validators valSet ! unat i) else None)"

text \<open>The index and the validator; (-1, nil) is None.\<close>
fun GetByAddress_loop :: "defaultValidator list \<Rightarrow> address \<Rightarrow> nat \<Rightarrow> (nat \<times> defaultValidator) option" where
  "GetByAddress_loop [] addr i = None"
| "GetByAddress_loop (val # vals) addr i =
    (if addr = dv_address val then Some (i, val) else GetByAddress_loop vals addr (Suc i))"

definition ds_GetByAddress :: "defaultSet \<Rightarrow> address \<Rightarrow> (nat \<times> defaultValidator) option" where
  "ds_GetByAddress valSet addr = GetByAddress_loop (ds_validators valSet) addr 0"

definition ds_IsProposer :: "defaultSet \<Rightarrow> address \<Rightarrow> bool" where
  "ds_IsProposer valSet address \<longleftrightarrow> ds_proposer valSet = map_option snd (ds_GetByAddress valSet address)"

definition calcSeed :: "defaultSet \<Rightarrow> address \<Rightarrow> uint64 \<Rightarrow> uint64" where
  "calcSeed valSet proposer round =
    (let offset = (case ds_GetByAddress valSet proposer of Some (idx, _) \<Rightarrow> idx | None \<Rightarrow> 0)
     in word_of_nat offset + round)"

definition roundRobinProposer :: "defaultSet \<Rightarrow> address \<Rightarrow> uint64 \<Rightarrow> defaultValidator option" where
  "roundRobinProposer valSet proposer round =
    (if ds_Size valSet = 0 then None
     else let seed = (if proposer = 0 then round else calcSeed valSet proposer round + 1);
              pick = seed mod word_of_nat (ds_Size valSet)
       in ds_GetByIndex valSet pick)"

definition stickyProposer :: "defaultSet \<Rightarrow> address \<Rightarrow> uint64 \<Rightarrow> defaultValidator option" where
  "stickyProposer valSet proposer round =
    (if ds_Size valSet = 0 then None
     else let seed = (if proposer = 0 then round else calcSeed valSet proposer round);
              pick = seed mod word_of_nat (ds_Size valSet)
       in ds_GetByIndex valSet pick)"

text \<open>The selector is chosen by the policy when the set is made.\<close>
definition ds_CalcProposer :: "defaultSet \<Rightarrow> address \<Rightarrow> uint64 \<Rightarrow> defaultSet" where
  "ds_CalcProposer valSet lastProposer round =
    valSet\<lparr>ds_proposer := (if pp_Id (ds_policy valSet) = Sticky then stickyProposer else roundRobinProposer)
      valSet lastProposer round\<rparr>"

definition ds_SortValidators :: "defaultSet \<Rightarrow> defaultSet" where
  "ds_SortValidators valSet =
    valSet\<lparr>ds_validators := sort_Sort (pp_By (ds_policy valSet)) (ds_validators valSet)\<rparr>"

definition newDefaultSet :: "address list \<Rightarrow> ProposerPolicy \<Rightarrow> (address \<Rightarrow> uint8) option \<Rightarrow> defaultSet" where
  "newDefaultSet addrs policy db =
    (let valSet = \<lparr>ds_validators = map (\<lambda>addr. validator_New addr
           (case db of None \<Rightarrow> 0 | Some coefficient \<Rightarrow> coefficient addr)) addrs,
           ds_policy = policy, ds_proposer = None\<rparr>;
         valSet = (if db \<noteq> None then ds_SortValidators valSet else valSet)
     in if ds_Size valSet > 0 then valSet\<lparr>ds_proposer := ds_GetByIndex valSet 0\<rparr> else valSet)"

definition ds_AddValidator :: "defaultSet \<Rightarrow> address \<Rightarrow> bool \<times> defaultSet" where
  "ds_AddValidator valSet address =
    (if list_ex (\<lambda>v. dv_address v = address) (ds_validators valSet) then (False, valSet)
     else (True, ds_SortValidators
       (valSet\<lparr>ds_validators := ds_validators valSet @ [validator_New address 0]\<rparr>)))"

definition ds_RemoveValidator :: "defaultSet \<Rightarrow> address \<Rightarrow> bool \<times> defaultSet" where
  "ds_RemoveValidator valSet address =
    (if list_ex (\<lambda>v. dv_address v = address) (ds_validators valSet)
     then (True, valSet\<lparr>ds_validators := del_first (\<lambda>v. dv_address v = address) (ds_validators valSet)\<rparr>)
     else (False, valSet))"

definition ds_Copy :: "defaultSet \<Rightarrow> (address \<Rightarrow> uint8) option \<Rightarrow> defaultSet" where
  "ds_Copy valSet stateDb =
    newDefaultSet (map dv_address (ds_validators valSet)) (ds_policy valSet) stateDb"

text \<open>\<^verbatim>\<open>int(math.Ceil(float64(valSet.Size())/3)) - 1\<close>, -1 for the empty set.\<close>
definition ds_F :: "defaultSet \<Rightarrow> int" where
  "ds_F valSet = int ((ds_Size valSet + 2) div 3) - 1"

subsection \<open>Address lists\<close>

text \<open>Whole blocks of 20 bytes; a rest is ignored.\<close>
definition ExtractValidators :: "bytes \<Rightarrow> address list" where
  "ExtractValidators extraData =
    map (\<lambda>i. BytesToAddress (take 20 (drop (i * 20) extraData))) [0..<length extraData div 20]"

definition ValidExtraData :: "bytes \<Rightarrow> bool" where
  "ValidExtraData extraData \<longleftrightarrow> length extraData mod 20 = 0"

text \<open>The inner loop of SortedAddresses: position \<open>i\<close> against all later positions \<open>j\<close>.\<close>
fun swap_loop :: "address list \<Rightarrow> nat \<Rightarrow> nat list \<Rightarrow> address list" where
  "swap_loop addrs i [] = addrs"
| "swap_loop addrs i (j # js) =
    swap_loop (if address_bytes (addrs ! i) > address_bytes (addrs ! j)
      then addrs[i := addrs ! j, j := addrs ! i] else addrs) i js"

definition SortedAddresses :: "defaultValidator list \<Rightarrow> address list" where
  "SortedAddresses validators =
    (let addrs = map dv_address validators in
     foldl (\<lambda>addrs i. swap_loop addrs i [i + 1..<length addrs]) addrs [0..<length addrs])"


subsection \<open>Sorting\<close>

text \<open>An order of a policy compares a key of a linear order.\<close>
locale sort_order =
  fixes lt :: "'a \<Rightarrow> 'a \<Rightarrow> bool" and key :: "'a \<Rightarrow> 'k :: linorder"
  assumes lt_key: "lt x y \<longleftrightarrow> key x < key y"
begin

lemma insert_by_key: "insert_by lt x ys = insort_key key x ys"
  by (induction ys) (auto simp: lt_key not_less)

lemma sort_Sort_key: "sort_Sort lt xs = sort_key key xs"
  by (induction xs) (simp_all add: insert_by_key)

lemma sorted_keys: "sorted (map key (sort_Sort lt xs))"
  by (simp add: sort_Sort_key)

lemma sort_unique: "\<lbrakk>mset xs = mset ys; inj_on key (set xs)\<rbrakk> \<Longrightarrow> sort_Sort lt xs = sort_Sort lt ys"
  by (simp add: sort_Sort_key sort_key_inj_key_eq)

end

interpretation by_string: sort_order "ValidatorSortByString keccak" "\<lambda>v. Hex keccak (dv_address v)"
  by unfold_locales (simp add: ValidatorSortByString_def)

interpretation by_byte: sort_order ValidatorSortByByte "\<lambda>v. address_bytes (dv_address v)"
  by unfold_locales (simp add: ValidatorSortByByte_def)

interpretation by_coefficient: sort_order "ValidatorSortByCoefficient keccak"
  "\<lambda>v. (- uint (dv_coefficient v), Hex keccak (dv_address v))"
proof
  fix x y :: defaultValidator
  have "dv_coefficient x = dv_coefficient y \<longleftrightarrow> uint (dv_coefficient x) = uint (dv_coefficient y)"
    by (rule word_uint_eq_iff)
  then show "ValidatorSortByCoefficient keccak x y \<longleftrightarrow>
      (- uint (dv_coefficient x), Hex keccak (dv_address x)) < (- uint (dv_coefficient y), Hex keccak (dv_address y))"
    by (auto simp: ValidatorSortByCoefficient_def word_less_def)
qed

text \<open>The policy of the default configuration.\<close>
definition CoefficientPolicy :: "(bytes \<Rightarrow> bytes) \<Rightarrow> ProposerPolicy" where
  "CoefficientPolicy keccak = \<lparr>pp_Id = Coefficient, pp_By = ValidatorSortByCoefficient keccak\<rparr>"

text \<open>
  C14.  All nodes agree on the order of a validator set: with the credit scores of the state,
  newDefaultSet gives the same set, with the same first proposer, for every arrangement of the
  same addresses.  It holds just these addresses and is sorted by decreasing score.
\<close>
theorem newDefaultSet_canonical:
  assumes "mset addrs = mset addrs'"
  shows "newDefaultSet addrs (CoefficientPolicy keccak) (Some coef) =
      newDefaultSet addrs' (CoefficientPolicy keccak) (Some coef) \<and>
    sorted_wrt (\<lambda>v w. dv_coefficient v \<ge> dv_coefficient w)
      (ds_validators (newDefaultSet addrs (CoefficientPolicy keccak) (Some coef))) \<and>
    mset (ds_ListAll (newDefaultSet addrs (CoefficientPolicy keccak) (Some coef))) = mset addrs"
proof -
  let ?vs = "\<lambda>addrs. map (\<lambda>a. validator_New a (coef a)) addrs"
  let ?sort = "sort_Sort (ValidatorSortByCoefficient keccak)"
  have set: "ds_validators (newDefaultSet as (CoefficientPolicy keccak) (Some coef)) = ?sort (?vs as)" for as
    by (simp add: newDefaultSet_def ds_SortValidators_def CoefficientPolicy_def Let_def)
  have "?sort (?vs addrs) = ?sort (?vs addrs')"
    using assms by (intro by_coefficient.sort_unique) (auto simp: inj_on_def validator_New_def)
  moreover have "sorted_wrt (\<lambda>v w. dv_coefficient v \<ge> dv_coefficient w) (?sort (?vs addrs))"
    using by_coefficient.sorted_keys [of keccak "?vs addrs"]
    by (auto simp: sorted_map less_eq_prod_def word_le_def elim!: sorted_wrt_mono_rel [rotated])
  moreover have "mset (map dv_address (?sort (?vs addrs))) = mset addrs"
    by (simp add: validator_New_def multiset.map_comp comp_def)
  ultimately show ?thesis
    by (simp add: set ds_ListAll_def) (simp add: newDefaultSet_def ds_SortValidators_def CoefficientPolicy_def Let_def
      ds_Size_def ds_GetByIndex_def)
qed

theorem newDefaultSet_canonical_witness:
  "newDefaultSet [3, 9, 4] (CoefficientPolicy (\<lambda>_. [])) (Some (\<lambda>a. if a = 9 then 70 else 20)) =
      newDefaultSet [9, 4, 3] (CoefficientPolicy (\<lambda>_. [])) (Some (\<lambda>a. if a = 9 then 70 else 20)) \<and>
    sorted_wrt (\<lambda>v w. dv_coefficient v \<ge> dv_coefficient w)
      (ds_validators (newDefaultSet [3, 9, 4] (CoefficientPolicy (\<lambda>_. [])) (Some (\<lambda>a. if a = 9 then 70 else 20)))) \<and>
    mset (ds_ListAll (newDefaultSet [3, 9, 4] (CoefficientPolicy (\<lambda>_. [])) (Some (\<lambda>a. if a = 9 then 70 else 20)))) =
      mset [3, 9, 4]"
  by (rule newDefaultSet_canonical) simp

subsection \<open>The proposer rotates\<close>

lemma GetByAddress_loop_Some:
  "GetByAddress_loop vals addr i = Some (j, v) \<Longrightarrow> i \<le> j \<and> j < i + length vals \<and> v = vals ! (j - i) \<and> dv_address v = addr"
proof (induction vals arbitrary: i)
  case (Cons val vals)
  show ?case
  proof (cases "addr = dv_address val")
    case False
    then show ?thesis using Cons.IH [of "Suc i"] Cons.prems by (auto simp: nth_Cons' Suc_diff_le)
  qed (use Cons.prems in auto)
qed simp

lemma ds_GetByAddress_Some:
  assumes "ds_GetByAddress valSet addr = Some (i, v)"
  shows "i < ds_Size valSet" "ds_validators valSet ! i = v" "dv_address v = addr"
  using GetByAddress_loop_Some [of "ds_validators valSet" addr 0 i v] assms
  by (auto simp: ds_GetByAddress_def ds_Size_def)

lemma GetByAddress_loop_None: "GetByAddress_loop vals addr i = None \<longleftrightarrow> addr \<notin> dv_address ` set vals"
  by (induction vals arbitrary: i) auto

lemma ds_GetByAddress_None: "ds_GetByAddress valSet addr = None \<longleftrightarrow> addr \<notin> set (ds_ListAll valSet)"
  by (simp add: ds_GetByAddress_def GetByAddress_loop_None ds_ListAll_def)

text \<open>The pick for a seed that does not overflow.\<close>
lemma ds_GetByIndex_mod:
  assumes "0 < ds_Size valSet" "c < 2 ^ 64" "ds_Size valSet < 2 ^ 64"
  shows "ds_GetByIndex valSet (word_of_nat c mod word_of_nat (ds_Size valSet)) =
    Some (ds_validators valSet ! (c mod ds_Size valSet))"
proof -
  let ?n = "ds_Size valSet"
  have "unat (word_of_nat c mod word_of_nat ?n :: uint64) = c mod ?n"
    using assms by (simp add: unat_mod unat_of_nat take_bit_nat_eq_self)
  moreover have "c mod ?n < ?n" using assms(1) by simp
  ultimately show ?thesis
    using assms(3) by (simp add: ds_GetByIndex_def word_less_nat_alt unat_of_nat take_bit_nat_eq_self)
qed

lemma mset_rotated: "mset (rotate c xs) = mset xs"
  by (simp add: rotate_drop_take) (metis append_take_drop_id mset_append add.commute)

text \<open>
  C15.  Under the round-robin policy no validator is skipped and none is favoured: in any run of
  as many consecutive rounds as there are validators, every validator is the proposer exactly
  once, wherever the rotation starts, as long as the seed does not overflow 64 bits.
\<close>
theorem roundRobinProposer_rotates:
  assumes "0 < ds_Size valSet" "unat round + 2 * ds_Size valSet < 2 ^ 64"
  shows "mset (map (\<lambda>k. roundRobinProposer valSet lastProposer (round + word_of_nat k)) [0..<ds_Size valSet]) =
    mset (map Some (ds_validators valSet))"
proof -
  let ?n = "ds_Size valSet" and ?vs = "ds_validators valSet"
  define c where "c = unat round + (if lastProposer = 0 then 0
    else Suc (case ds_GetByAddress valSet lastProposer of Some (i, _) \<Rightarrow> i | None \<Rightarrow> 0))"
  have "c \<le> unat round + ?n"
    using assms(1) ds_GetByAddress_Some(1) [of valSet lastProposer]
    by (auto simp: c_def Suc_leI split: option.splits)
  then have bound: "c + k < 2 ^ 64" if "k < ?n" for k using that assms(2) by simp
  have seed: "(if lastProposer = 0 then round + word_of_nat k
      else calcSeed valSet lastProposer (round + word_of_nat k) + 1) = word_of_nat (c + k)" for k
    by (auto simp: c_def calcSeed_def split: option.splits)
  have "roundRobinProposer valSet lastProposer (round + word_of_nat k) = Some (rotate c ?vs ! k)" if "k < ?n" for k
  proof -
    have "roundRobinProposer valSet lastProposer (round + word_of_nat k) =
        ds_GetByIndex valSet (word_of_nat (c + k) mod word_of_nat ?n)"
      using assms(1) unfolding roundRobinProposer_def Let_def seed by simp
    then show ?thesis
      using ds_GetByIndex_mod [OF assms(1) bound [OF that]] assms(2) that by (simp add: nth_rotate ds_Size_def)
  qed
  then have "map (\<lambda>k. roundRobinProposer valSet lastProposer (round + word_of_nat k)) [0..<?n] =
      map Some (rotate c ?vs)"
    by (intro nth_equalityI) (simp_all add: ds_Size_def)
  then show ?thesis by (simp only: mset_map mset_rotated)
qed

theorem roundRobinProposer_rotates_witness:
  "mset (map (\<lambda>k. roundRobinProposer (newDefaultSet [3, 9, 4] (CoefficientPolicy (\<lambda>_. [])) None) 9 (7 + word_of_nat k)) [0..<3]) =
    mset (map Some [validator_New 3 0, validator_New 9 0, validator_New 4 0])"
proof -
  let ?vs = "newDefaultSet [3, 9, 4] (CoefficientPolicy (\<lambda>_. [])) None"
  have "ds_Size ?vs = 3" "ds_validators ?vs = [validator_New 3 0, validator_New 9 0, validator_New 4 0]"
    by (simp_all add: newDefaultSet_def ds_Size_def)
  then show ?thesis using roundRobinProposer_rotates [of ?vs 7 9] by simp
qed

end
