(* ===== verification/Ibft_Messages.thy ===== *)
theory Ibft_Messages
  imports Validator_Set "HOL-Library.AList"
begin

text \<open>
  The data of the Istanbul BFT protocol (consensus/istanbul/types.go, ibft/types/message.go,
  ibft/types/state.go, ibft/core/message_set.go, ibft/core/roundstate.go and the round change set
  of ibft/core/roundchange.go).

  A proposal is known by its number and hash.  The RLP text of a message body is represented by
  the value it decodes to: a PRE-PREPARE with its block, a subject, or neither.  A PRE-PREPARE
  sent without a block is written with an empty list in place of the block, which does not decode.
  Go maps are association lists; their iteration order is not fixed by the language, and nothing
  below depends on it.
\<close>

subsection \<open>Views, proposals and messages\<close>

record View =
  vw_Round :: int
  vw_Sequence :: int

definition Cmp_int :: "int \<Rightarrow> int \<Rightarrow> int" where
  "Cmp_int x y = (if x < y then -1 else if x = y then 0 else 1)"

definition View_Cmp :: "View \<Rightarrow> View \<Rightarrow> int" where
  "View_Cmp v y =
    (if Cmp_int (vw_Sequence v) (vw_Sequence y) \<noteq> 0 then Cmp_int (vw_Sequence v) (vw_Sequence y)
     else if Cmp_int (vw_Round v) (vw_Round y) \<noteq> 0 then Cmp_int (vw_Round v) (vw_Round y)
     else 0)"

record Proposal =
  p_Number :: int
  p_Hash :: hash

record Preprepare =
  pre_View :: View
  pre_Proposal :: Proposal

record Subject =
  sub_View :: View
  sub_Digest :: hash

datatype encoded = EncPreprepare Preprepare | EncSubject Subject | EncOther

definition encodePreprepare :: "View \<Rightarrow> Proposal option \<Rightarrow> encoded" where
  "encodePreprepare view proposal =
    (case proposal of Some p \<Rightarrow> EncPreprepare \<lparr>pre_View = view, pre_Proposal = p\<rparr> | None \<Rightarrow> EncOther)"

fun decodePreprepare :: "encoded \<Rightarrow> Preprepare option" where
  "decodePreprepare (EncPreprepare p) = Some p"
| "decodePreprepare _ = None"

fun decodeSubject :: "encoded \<Rightarrow> Subject option" where
  "decodeSubject (EncSubject sub) = Some sub"
| "decodeSubject _ = None"

definition MsgPreprepare :: uint64 where "MsgPreprepare = 0"
definition MsgPrepare :: uint64 where "MsgPrepare = 1"
definition MsgCommit :: uint64 where "MsgCommit = 2"
definition MsgRoundChange :: uint64 where "MsgRoundChange = 3"

lemmas msg_code_defs = MsgPreprepare_def MsgPrepare_def MsgCommit_def MsgRoundChange_def

record Message =
  m_Code :: uint64
  m_Msg :: encoded
  m_Address :: address
  m_Signature :: bytes
  m_CommittedSeal :: bytes

text \<open>\<^verbatim>\<open>&Message{Code: code, Msg: msg}\<close>.\<close>
definition newMessage :: "uint64 \<Rightarrow> encoded \<Rightarrow> Message" where
  "newMessage code msg = \<lparr>m_Code = code, m_Msg = msg, m_Address = 0, m_Signature = [], m_CommittedSeal = []\<rparr>"

datatype State = StateAcceptRequest | StatePreprepared | StatePrepared | StateCommitted

fun State_uint64 :: "State \<Rightarrow> uint64" where
  "State_uint64 StateAcceptRequest = 0"
| "State_uint64 StatePreprepared = 1"
| "State_uint64 StatePrepared = 2"
| "State_uint64 StateCommitted = 3"

definition State_Cmp :: "State \<Rightarrow> State \<Rightarrow> int" where
  "State_Cmp s y =
    (if State_uint64 s < State_uint64 y then -1 else if State_uint64 s > State_uint64 y then 1 else 0)"

text \<open>\<^verbatim>\<open>big.Int.Uint64\<close> and \<^verbatim>\<open>big.Int.Int64\<close>: the low 64 bits.\<close>
definition Uint64 :: "int \<Rightarrow> uint64" where
  "Uint64 x = word_of_int \<bar>x\<bar>"

definition Int64 :: "int \<Rightarrow> int" where
  "Int64 x = sint (word_of_int x :: uint64)"

subsection \<open>Message sets\<close>

record messageSet =
  ms_view :: View
  ms_valSet :: defaultSet
  ms_messages :: "(address \<times> Message) list"

definition newMessageSet :: "defaultSet \<Rightarrow> messageSet" where
  "newMessageSet valSet = \<lparr>ms_view = \<lparr>vw_Round = 0, vw_Sequence = 0\<rparr>, ms_valSet = valSet, ms_messages = []\<rparr>"

definition ms_verify :: "messageSet \<Rightarrow> Message \<Rightarrow> unit result" where
  "ms_verify ms msg =
    (case ds_GetByAddress (ms_valSet ms) (m_Address msg) of
       None \<Rightarrow> Inl ''unauthorized address'' | Some _ \<Rightarrow> Inr ())"

definition addVerifiedMessage :: "messageSet \<Rightarrow> Message \<Rightarrow> messageSet" where
  "addVerifiedMessage ms msg = ms\<lparr>ms_messages := AList.update (m_Address msg) msg (ms_messages ms)\<rparr>"

definition ms_Add :: "messageSet \<Rightarrow> Message \<Rightarrow> unit result \<times> messageSet" where
  "ms_Add ms msg =
    (case ms_verify ms msg of Inl err \<Rightarrow> (Inl err, ms) | Inr _ \<Rightarrow> (Inr (), addVerifiedMessage ms msg))"

definition ms_Values :: "messageSet \<Rightarrow> Message list" where
  "ms_Values ms = map snd (ms_messages ms)"

definition ms_Size :: "messageSet \<Rightarrow> nat" where
  "ms_Size ms = length (ms_messages ms)"

definition ms_Get :: "messageSet \<Rightarrow> address \<Rightarrow> Message option" where
  "ms_Get ms addr = map_of (ms_messages ms) addr"

subsection \<open>The round state\<close>

record roundState =
  rs_round :: int
  rs_sequence :: int
  rs_Preprepare :: "Preprepare option"
  rs_Prepares :: messageSet
  rs_Commits :: messageSet
  rs_lockedHash :: hash
  rs_pendingRequest :: "Proposal option"

definition newRoundState ::
    "View \<Rightarrow> defaultSet \<Rightarrow> hash \<Rightarrow> Preprepare option \<Rightarrow> Proposal option \<Rightarrow> roundState" where
  "newRoundState view validatorSet lockedHash preprepare pendingRequest =
    \<lparr>rs_round = vw_Round view, rs_sequence = vw_Sequence view, rs_Preprepare = preprepare,
     rs_Prepares = newMessageSet validatorSet, rs_Commits = newMessageSet validatorSet,
     rs_lockedHash = lockedHash, rs_pendingRequest = pendingRequest\<rparr>"

text \<open>Both sets together; a validator that sent both messages counts once.\<close>
definition rs_GetPrepareOrCommitSize :: "roundState \<Rightarrow> int" where
  "rs_GetPrepareOrCommitSize s =
    foldl (\<lambda>result m. if ms_Get (rs_Commits s) (m_Address m) \<noteq> None then result - 1 else result)
      (int (ms_Size (rs_Prepares s) + ms_Size (rs_Commits s))) (ms_Values (rs_Prepares s))"

definition rs_Subject :: "roundState \<Rightarrow> Subject option" where
  "rs_Subject s =
    map_option (\<lambda>pre. \<lparr>sub_View = \<lparr>vw_Round = rs_round s, vw_Sequence = rs_sequence s\<rparr>,
      sub_Digest = p_Hash (pre_Proposal pre)\<rparr>) (rs_Preprepare s)"

definition rs_SetPreprepare :: "roundState \<Rightarrow> Preprepare \<Rightarrow> roundState" where
  "rs_SetPreprepare s preprepare = s\<lparr>rs_Preprepare := Some preprepare\<rparr>"

definition rs_Proposal :: "roundState \<Rightarrow> Proposal option" where
  "rs_Proposal s = map_option pre_Proposal (rs_Preprepare s)"

definition rs_LockHash :: "roundState \<Rightarrow> roundState" where
  "rs_LockHash s =
    (case rs_Preprepare s of Some pre \<Rightarrow> s\<lparr>rs_lockedHash := p_Hash (pre_Proposal pre)\<rparr> | None \<Rightarrow> s)"

definition rs_UnlockHash :: "roundState \<Rightarrow> roundState" where
  "rs_UnlockHash s = s\<lparr>rs_lockedHash := 0\<rparr>"

text \<open>Parameter: \<open>hasBadProposal\<close> says whether a block is known to be bad.\<close>
definition rs_IsHashLocked :: "(hash \<Rightarrow> bool) \<Rightarrow> roundState \<Rightarrow> bool" where
  "rs_IsHashLocked hasBadProposal s \<longleftrightarrow> rs_lockedHash s \<noteq> 0 \<and> \<not> hasBadProposal (rs_lockedHash s)"

subsection \<open>The round change set\<close>

record roundChangeSet =
  rcs_validatorSet :: defaultSet
  rcs_roundChanges :: "(uint64 \<times> messageSet) list"

definition newRoundChangeSet :: "defaultSet \<Rightarrow> roundChangeSet" where
  "newRoundChangeSet valSet = \<lparr>rcs_validatorSet = valSet, rcs_roundChanges = []\<rparr>"

text \<open>The number of messages for the round, or the error of the message set.\<close>
definition rcs_Add :: "roundChangeSet \<Rightarrow> int \<Rightarrow> Message \<Rightarrow> nat result \<times> roundChangeSet" where
  "rcs_Add rcs r msg =
    (let round = Uint64 r;
         ms = (case map_of (rcs_roundChanges rcs) round of
             None \<Rightarrow> newMessageSet (rcs_validatorSet rcs) | Some ms \<Rightarrow> ms);
         (err, ms) = ms_Add ms msg;
         rcs = rcs\<lparr>rcs_roundChanges := AList.update round ms (rcs_roundChanges rcs)\<rparr>
     in case err of Inl e \<Rightarrow> (Inl e, rcs) | Inr _ \<Rightarrow> (Inr (ms_Size ms), rcs))"

definition rcs_Clear :: "roundChangeSet \<Rightarrow> int \<Rightarrow> roundChangeSet" where
  "rcs_Clear rcs round =
    rcs\<lparr>rcs_roundChanges := filter (\<lambda>(k, rms). \<not> (length (ms_Values rms) = 0 \<or> k < Uint64 round))
      (rcs_roundChanges rcs)\<rparr>"

definition rcs_MaxRound :: "roundChangeSet \<Rightarrow> int \<Rightarrow> int option" where
  "rcs_MaxRound rcs num =
    foldl (\<lambda>maxRound (k, rms).
      if int (ms_Size rms) < num then maxRound
      else let r = sint k in
        case maxRound of None \<Rightarrow> Some r | Some m \<Rightarrow> if m < r then Some r else maxRound)
      None (rcs_roundChanges rcs)"

end
