(* ===== verification/Ibft_Core.thy ===== *)
theory Ibft_Core
  imports Ibft_Messages
begin

text \<open>
  The Istanbul BFT state machine of consensus/istanbul/ibft/core: the state of one node and its
  event handlers (core.go, backlog.go, request.go, preprepare.go, prepare.go, commit.go,
  roundchange.go, final_committed.go, handler.go), with the check of a message's signature
  (ibft/types/message.go, consensus/istanbul/utils.go).

  Calls into the backend are answered by a record of type \<open>backend\<close>, given anew for each event: the
  chain, the verification and insertion of blocks, the signing key, the recovery of a signer, the
  RLP text of a message.  What a node sends is appended to \<open>c_out\<close>.  A payload on the wire is
  represented by the message it decodes to, or by the error of the decoder.  An error is
  represented by its text.  Reading a field through a nil pointer panics, which is None; this
  includes the reads of the proposer's address for the records written by SaveData.  Those
  records, log lines, meters and the locks are left out, and timers are outputs.
\<close>

subsection \<open>The state of a node\<close>

definition ErrFutureMessage :: string where "ErrFutureMessage = ''future message''"
definition ErrOldMessage :: string where "ErrOldMessage = ''old message''"
definition ErrInvalidMessage :: string where "ErrInvalidMessage = ''invalid message''"
definition ErrFutureBlock :: string where "ErrFutureBlock = ''block in the future''"

lemma core_errors_differ [simp]:
  "ErrOldMessage \<noteq> ErrFutureMessage" "ErrFutureMessage \<noteq> ErrOldMessage"
  "ErrInvalidMessage \<noteq> ErrFutureMessage" "ErrFutureMessage \<noteq> ErrInvalidMessage"
  by (simp_all add: ErrFutureMessage_def ErrOldMessage_def ErrInvalidMessage_def)

record backend =
  be_LastProposal :: "Proposal option \<times> address"
  be_Validators :: "Proposal \<Rightarrow> defaultSet option"
  be_HasBadProposal :: "hash \<Rightarrow> bool"
  be_Verify :: "Proposal \<Rightarrow> unit result"
  be_Commit :: "Proposal \<Rightarrow> bytes list \<Rightarrow> unit result"
  be_Sign :: "bytes \<Rightarrow> bytes result"
  be_rlp :: "Message \<Rightarrow> bytes"
  be_GetSignatureAddress :: "bytes \<Rightarrow> bytes \<Rightarrow> address result"
  be_CurrentNumber :: uint64
  be_IsQBFTConsensusAt :: "int \<Rightarrow> bool"
  be_RequestTimeout :: uint64
  be_float_int64 :: "nat \<Rightarrow> uint64"
  be_Pop :: "int list \<Rightarrow> nat"

datatype effect =
    Broadcast Message
  | Gossip Message
  | CommitBlock View Proposal "bytes list"
  | PostRequest Proposal
  | PostBacklog defaultValidator Message
  | PostBacklogAfter defaultValidator Message
  | StartTimer uint64
  | GoStartNewRound

type_synonym 'a prque = "('a \<times> int) list"

record core =
  c_address :: address
  c_state :: State
  c_valSet :: "defaultSet option"
  c_waitingForRoundChange :: bool
  c_backlogs :: "(address \<times> Message prque) list"
  c_current :: "roundState option"
  c_roundChangeSet :: "roundChangeSet option"
  c_pendingRequests :: "Proposal prque"
  c_commitHeight :: uint64
  c_onlineValidator :: "(uint64 \<times> address list) list"
  c_out :: "effect list"

type_synonym 'r handled = "('r \<times> core) option"

definition NewCore :: "address \<Rightarrow> core" where
  "NewCore addr =
    \<lparr>c_address = addr, c_state = StateAcceptRequest, c_valSet = None, c_waitingForRoundChange = False,
     c_backlogs = [], c_current = None, c_roundChangeSet = None, c_pendingRequests = [],
     c_commitHeight = 0, c_onlineValidator = [], c_out = []\<rparr>"

definition emit :: "effect \<Rightarrow> core \<Rightarrow> core" where
  "emit e c = c\<lparr>c_out := c_out c @ [e]\<rparr>"

text \<open>\<^verbatim>\<open>c.valSet.GetProposer().Address()\<close>.\<close>
definition proposer_address :: "core \<Rightarrow> address option" where
  "proposer_address c = do { vs \<leftarrow> c_valSet c; p \<leftarrow> ds_proposer vs; Some (dv_address p) }"

text \<open>
  \<^verbatim>\<open>prque.Pop\<close>: the queue library picks the index of an entry with the highest priority;
  \<open>be_Pop\<close> is that pick, from the priorities of the entries.
\<close>
definition prque_Pop :: "backend \<Rightarrow> 'a prque \<Rightarrow> ('a \<times> int) \<times> 'a prque" where
  "prque_Pop be q = (let i = be_Pop be (map snd q) mod length q in (q ! i, take i q @ drop (Suc i) q))"

definition prque_Push :: "'a prque \<Rightarrow> 'a \<Rightarrow> int \<Rightarrow> 'a prque" where
  "prque_Push q x prio = q @ [(x, prio)]"

lemma prque_Pop_length: "q \<noteq> [] \<Longrightarrow> length (snd (prque_Pop be q)) < length q"
proof -
  assume "q \<noteq> []"
  then have "be_Pop be (map snd q) mod length q < length q" by simp
  then show ?thesis unfolding prque_Pop_def Let_def by (simp add: min_def)
qed

subsection \<open>Messages out\<close>

definition PrepareCommittedSeal :: "hash \<Rightarrow> bytes" where
  "PrepareCommittedSeal hash = hash_bytes hash @ [ucast MsgCommit]"

definition PayloadNoSig :: "backend \<Rightarrow> Message \<Rightarrow> bytes" where
  "PayloadNoSig be m = be_rlp be (m\<lparr>m_Signature := []\<rparr>)"

text \<open>The message with the sender, the seal of a COMMIT and the signature filled in.\<close>
definition finalizeMessage :: "backend \<Rightarrow> core \<Rightarrow> Message \<Rightarrow> Message result option" where
  "finalizeMessage be c msg =
    do {
      let msg = msg\<lparr>m_Address := c_address c\<rparr>;
      sealed \<leftarrow>
        (if m_Code msg = MsgCommit
         then do {
           current \<leftarrow> c_current c;
           Some (case rs_Proposal current of
             None \<Rightarrow> Inr msg
           | Some proposal \<Rightarrow> (case be_Sign be (PrepareCommittedSeal (p_Hash proposal)) of
               Inl err \<Rightarrow> Inl err
             | Inr sig \<Rightarrow> Inr (msg\<lparr>m_CommittedSeal := sig\<rparr>)))
         }
         else Some (Inr msg));
      Some (case sealed of
        Inl err \<Rightarrow> Inl err
      | Inr msg \<Rightarrow> (case be_Sign be (PayloadNoSig be msg) of
          Inl err \<Rightarrow> Inl err
        | Inr sig \<Rightarrow> Inr (msg\<lparr>m_Signature := sig\<rparr>)))
    }"

definition broadcast :: "backend \<Rightarrow> core \<Rightarrow> Message \<Rightarrow> core option" where
  "broadcast be c msg =
    do {
      payload \<leftarrow> finalizeMessage be c msg;
      case payload of
        Inl _ \<Rightarrow> Some c
      | Inr msg \<Rightarrow> do { _ \<leftarrow> c_valSet c; Some (emit (Broadcast msg) c) }
    }"

definition currentView :: "core \<Rightarrow> View option" where
  "currentView c = map_option (\<lambda>s. \<lparr>vw_Round = rs_round s, vw_Sequence = rs_sequence s\<rparr>) (c_current c)"

definition IsProposer :: "core \<Rightarrow> bool" where
  "IsProposer c = (case c_valSet c of None \<Rightarrow> False | Some v \<Rightarrow> ds_IsProposer v (c_address c))"

definition MsgIsFromProposer :: "core \<Rightarrow> address \<Rightarrow> bool" where
  "MsgIsFromProposer c address = (case c_valSet c of None \<Rightarrow> False | Some v \<Rightarrow> ds_IsProposer v address)"

definition IsCurrentProposal :: "core \<Rightarrow> hash \<Rightarrow> bool" where
  "IsCurrentProposal c blockHash =
    (case c_current c of None \<Rightarrow> False | Some s \<Rightarrow>
      (case rs_pendingRequest s of None \<Rightarrow> False | Some p \<Rightarrow> p_Hash p = blockHash))"

definition QuorumSize :: "defaultSet \<Rightarrow> int" where
  "QuorumSize valSet = 2 * ds_F valSet + 1"

subsection \<open>The validators seen online\<close>

fun Find :: "address list \<Rightarrow> address \<Rightarrow> nat option" where
  "Find [] target = None"
| "Find (v # addrs) target = (if v = target then Some 0 else map_option Suc (Find addrs target))"

definition GetAddrs :: "core \<Rightarrow> uint64 \<Rightarrow> address list" where
  "GetAddrs c height = (case map_of (c_onlineValidator c) height of None \<Rightarrow> [] | Some addrs \<Rightarrow> addrs)"

definition PutAddr :: "core \<Rightarrow> uint64 \<Rightarrow> address \<Rightarrow> core" where
  "PutAddr c height addr =
    (let addrs = GetAddrs c height in
     if Find addrs addr = None
     then c\<lparr>c_onlineValidator := AList.update height (addrs @ [addr]) (c_onlineValidator c)\<rparr>
     else c)"

definition delAddrs :: "core \<Rightarrow> int list \<Rightarrow> core" where
  "delAddrs c vals = foldl (\<lambda>c v. c\<lparr>c_onlineValidator := AList.delete (word_of_int v) (c_onlineValidator c)\<rparr>) c vals"

text \<open>Once more than ten heights are recorded, the least is dropped.\<close>
definition pruneAddrs :: "core \<Rightarrow> core" where
  "pruneAddrs c =
    (if length (c_onlineValidator c) > 10
     then delAddrs c (take 1 (sort_Sort (<) (map (\<lambda>(key, _). sint key) (c_onlineValidator c))))
     else c)"

subsection \<open>The backlog\<close>

definition checkMessage :: "core \<Rightarrow> uint64 \<Rightarrow> View \<Rightarrow> unit result option" where
  "checkMessage c msgCode view =
    do {
      cv \<leftarrow> currentView c;
      Some
        (if msgCode = MsgRoundChange then
           (if Cmp_int (vw_Sequence view) (vw_Sequence cv) > 0 then Inl ErrFutureMessage
            else if View_Cmp view cv < 0 then Inl ErrOldMessage
            else Inr ())
         else if View_Cmp view cv > 0 then Inl ErrFutureMessage
         else if View_Cmp view cv < 0 then Inl ErrOldMessage
         else if c_waitingForRoundChange c then Inl ErrFutureMessage
         else if c_state c = StateAcceptRequest then
           (if msgCode > MsgPreprepare then Inl ErrFutureMessage else Inr ())
         else Inr ())
    }"

text \<open>
  The conversion of an integer to float32: 24 significant bits, to nearest, ties to even.  The
  value is an integer, which is what is kept here.
\<close>
fun bit_len :: "nat \<Rightarrow> nat" where
  "bit_len n = (if n = 0 then 0 else Suc (bit_len (n div 2)))"

declare bit_len.simps [simp del]

definition float32_of_nat :: "nat \<Rightarrow> nat" where
  "float32_of_nat n =
    (if n < 2 ^ 24 then n
     else let e = bit_len n - 24; q = n div 2 ^ e; r = n mod 2 ^ e; half = 2 ^ (e - 1)
       in (if r > half \<or> (r = half \<and> odd q) then q + 1 else q) * 2 ^ e)"

definition float32_of_int :: "int \<Rightarrow> int" where
  "float32_of_int i = sgn i * int (float32_of_nat (nat \<bar>i\<bar>))"

definition msgPriority :: "uint64 \<Rightarrow> uint64" where
  "msgPriority msgCode =
    (if msgCode = MsgPreprepare then 1 else if msgCode = MsgCommit then 2
     else if msgCode = MsgPrepare then 3 else 0)"

definition toPriority :: "uint64 \<Rightarrow> View \<Rightarrow> int" where
  "toPriority msgCode view =
    (if msgCode = MsgRoundChange then - int (float32_of_nat (unat (Uint64 (vw_Sequence view) * 1000)))
     else - int (float32_of_nat (unat (Uint64 (vw_Sequence view) * 1000 + Uint64 (vw_Round view) * 10
       + msgPriority msgCode))))"

text \<open>The view of a message in a queue; None when it does not decode.\<close>
definition message_view :: "Message \<Rightarrow> View option" where
  "message_view msg =
    (if m_Code msg = MsgPreprepare then map_option pre_View (decodePreprepare (m_Msg msg))
     else map_option sub_View (decodeSubject (m_Msg msg)))"

definition storeBacklog :: "core \<Rightarrow> Message \<Rightarrow> defaultValidator \<Rightarrow> core" where
  "storeBacklog c msg src =
    (if dv_address src = c_address c then c
     else let backlog = (case map_of (c_backlogs c) (dv_address src) of None \<Rightarrow> [] | Some q \<Rightarrow> q);
              backlog = (case message_view msg of
                  Some view \<Rightarrow> prque_Push backlog msg (toPriority (m_Code msg) view)
                | None \<Rightarrow> backlog)
       in c\<lparr>c_backlogs := AList.update (dv_address src) backlog (c_backlogs c)\<rparr>)"

text \<open>
  One queue: messages are popped and posted as events until the queue is empty or its next
  message is still a future one, which is pushed back.
\<close>
function backlog_loop :: "backend \<Rightarrow> core \<Rightarrow> defaultValidator \<Rightarrow> Message prque \<Rightarrow> (Message prque \<times> core) option" where
  "backlog_loop be c src backlog =
    (if backlog = [] then Some ([], c)
     else let popped = prque_Pop be backlog; msg = fst (fst popped); prio = snd (fst popped) in
       case message_view msg of
         None \<Rightarrow> backlog_loop be c src (snd popped)
       | Some view \<Rightarrow>
           (case checkMessage c (m_Code msg) view of
              None \<Rightarrow> None
            | Some (Inl err) \<Rightarrow>
                if err = ErrFutureMessage then Some (prque_Push (snd popped) msg prio, c)
                else backlog_loop be c src (snd popped)
            | Some (Inr _) \<Rightarrow> backlog_loop be (emit (PostBacklog src msg) c) src (snd popped)))"
  by pat_completeness auto
termination
  by (relation "measure (\<lambda>(_, _, _, q). length q)") (auto simp: prque_Pop_length)

declare backlog_loop.simps [simp del]

fun backlogs_loop :: "backend \<Rightarrow> core \<Rightarrow> (address \<times> Message prque) list \<Rightarrow> core option" where
  "backlogs_loop be c [] = Some c"
| "backlogs_loop be c ((srcAddress, backlog) # rest) =
    (case c_valSet c of
       None \<Rightarrow> None
     | Some valSet \<Rightarrow>
         (case ds_GetByAddress valSet srcAddress of
            None \<Rightarrow> backlogs_loop be (c\<lparr>c_backlogs := AList.delete srcAddress (c_backlogs c)\<rparr>) rest
          | Some (_, src) \<Rightarrow>
              (case backlog_loop be c src backlog of
                 None \<Rightarrow> None
               | Some (backlog', c) \<Rightarrow>
                   backlogs_loop be (c\<lparr>c_backlogs := AList.update srcAddress backlog' (c_backlogs c)\<rparr>) rest)))"

definition processBacklog :: "backend \<Rightarrow> core \<Rightarrow> core option" where
  "processBacklog be c = backlogs_loop be c (c_backlogs c)"

subsection \<open>Requests\<close>

definition checkRequestMsg :: "core \<Rightarrow> Proposal option \<Rightarrow> unit result option" where
  "checkRequestMsg c request =
    (case request of
       None \<Rightarrow> Some (Inl ErrInvalidMessage)
     | Some p \<Rightarrow> do {
         s \<leftarrow> c_current c;
         Some (let d = Cmp_int (rs_sequence s) (p_Number p) in
           if d > 0 then Inl ErrOldMessage else if d < 0 then Inl ErrFutureMessage else Inr ())
       })"

definition storeRequestMsg :: "core \<Rightarrow> Proposal \<Rightarrow> core" where
  "storeRequestMsg c p =
    c\<lparr>c_pendingRequests := prque_Push (c_pendingRequests c) p
      (float32_of_int (sint (- word_of_int (p_Number p) :: uint64)))\<rparr>"

function requests_loop :: "backend \<Rightarrow> core \<Rightarrow> Proposal prque \<Rightarrow> core option" where
  "requests_loop be c q =
    (if q = [] then Some (c\<lparr>c_pendingRequests := []\<rparr>)
     else let popped = prque_Pop be q; r = fst (fst popped); prio = snd (fst popped) in
       case checkRequestMsg c (Some r) of
         None \<Rightarrow> None
       | Some (Inl err) \<Rightarrow>
           if err = ErrFutureMessage then Some (c\<lparr>c_pendingRequests := prque_Push (snd popped) r prio\<rparr>)
           else requests_loop be c (snd popped)
       | Some (Inr _) \<Rightarrow> requests_loop be (emit (PostRequest r) c) (snd popped))"
  by pat_completeness auto
termination
  by (relation "measure (\<lambda>(_, _, q). length q)") (auto simp: prque_Pop_length)

declare requests_loop.simps [simp del]

definition processPendingRequests :: "backend \<Rightarrow> core \<Rightarrow> core option" where
  "processPendingRequests be c = requests_loop be c (c_pendingRequests c)"

definition setState :: "backend \<Rightarrow> core \<Rightarrow> State \<Rightarrow> core option" where
  "setState be c state =
    do {
      let c = (if c_state c \<noteq> state then c\<lparr>c_state := state\<rparr> else c);
      c \<leftarrow> (if state = StateAcceptRequest then processPendingRequests be c else Some c);
      processBacklog be c
    }"

definition sendPreprepare :: "backend \<Rightarrow> core \<Rightarrow> Proposal \<Rightarrow> core option" where
  "sendPreprepare be c request =
    do {
      s \<leftarrow> c_current c;
      if Cmp_int (rs_sequence s) (p_Number request) = 0
      then do {
        curView \<leftarrow> currentView c;
        let proposal = (if IsProposer c then Some request else None);
        _ \<leftarrow> proposer_address c;
        broadcast be c (newMessage MsgPreprepare (encodePreprepare curView proposal))
      }
      else Some c
    }"

definition handleRequest :: "backend \<Rightarrow> core \<Rightarrow> Proposal option \<Rightarrow> unit result handled" where
  "handleRequest be c request =
    do {
      s \<leftarrow> c_current c;
      err \<leftarrow> checkRequestMsg c request;
      case (err, request) of
        (Inl e, _) \<Rightarrow> Some (Inl e, c)
      | (Inr _, None) \<Rightarrow> None
      | (Inr _, Some p) \<Rightarrow> do {
          let c = c\<lparr>c_current := Some (s\<lparr>rs_pendingRequest := Some p\<rparr>)\<rparr>;
          c \<leftarrow> (if c_state c = StateAcceptRequest then sendPreprepare be c p else Some c);
          Some (Inr (), c)
        }
    }"

subsection \<open>Rounds\<close>

text \<open>
  The duration of the round change timer in nanoseconds: the configured milliseconds and, after
  round 0, 2 to the round in seconds, all in 64 bits.  \<open>be_float_int64\<close> is what the machine makes
  of a power of two that does not fit an int64.
\<close>
definition roundChangeTimeout :: "backend \<Rightarrow> int \<Rightarrow> uint64" where
  "roundChangeTimeout be r =
    (let timeout = be_RequestTimeout be * 1000000; round = Uint64 r in
     if round > 0
     then timeout + (if round < 63 then 2 ^ unat round else be_float_int64 be (unat round)) * 1000000000
     else timeout)"

definition newRoundChangeTimer :: "backend \<Rightarrow> core \<Rightarrow> core option" where
  "newRoundChangeTimer be c =
    do { s \<leftarrow> c_current c; Some (emit (StartTimer (roundChangeTimeout be (rs_round s))) c) }"

definition updateRoundState :: "backend \<Rightarrow> core \<Rightarrow> View \<Rightarrow> defaultSet \<Rightarrow> bool \<Rightarrow> core" where
  "updateRoundState be c view validatorSet roundChange =
    (case (roundChange, c_current c) of
       (True, Some s) \<Rightarrow>
         if rs_IsHashLocked (be_HasBadProposal be) s
         then c\<lparr>c_current := Some (newRoundState view validatorSet (rs_lockedHash s) (rs_Preprepare s) (rs_pendingRequest s))\<rparr>
         else c\<lparr>c_current := Some (newRoundState view validatorSet 0 None (rs_pendingRequest s))\<rparr>
     | _ \<Rightarrow> c\<lparr>c_current := Some (newRoundState view validatorSet 0 None None)\<rparr>)"

definition catchUpRound :: "backend \<Rightarrow> core \<Rightarrow> View \<Rightarrow> core option" where
  "catchUpRound be c view =
    do {
      _ \<leftarrow> c_current c;
      valSet \<leftarrow> c_valSet c;
      let c = c\<lparr>c_waitingForRoundChange := True\<rparr>;
      let c = updateRoundState be c view valSet True;
      rcs \<leftarrow> c_roundChangeSet c;
      let c = c\<lparr>c_roundChangeSet := Some (rcs_Clear rcs (vw_Round view))\<rparr>;
      newRoundChangeTimer be c
    }"

definition sendRoundChange :: "backend \<Rightarrow> core \<Rightarrow> int \<Rightarrow> core option" where
  "sendRoundChange be c round =
    do {
      cv \<leftarrow> currentView c;
      if Cmp_int (vw_Round cv) round \<ge> 0 then Some c
      else do {
        c \<leftarrow> catchUpRound be c \<lparr>vw_Round = round, vw_Sequence = vw_Sequence cv\<rparr>;
        cv \<leftarrow> currentView c;
        broadcast be c (newMessage MsgRoundChange (EncSubject \<lparr>sub_View = cv, sub_Digest = 0\<rparr>))
      }
    }"

definition sendNextRoundChange :: "backend \<Rightarrow> core \<Rightarrow> core option" where
  "sendNextRoundChange be c = do { cv \<leftarrow> currentView c; sendRoundChange be c (vw_Round cv + 1) }"

text \<open>
  The four cases at the head of startNewRound: None returns at once; otherwise whether this is a
  round change at the same height.
\<close>
definition startNewRound_case :: "core \<Rightarrow> int \<Rightarrow> Proposal \<Rightarrow> bool option" where
  "startNewRound_case c round lastProposal =
    (case c_current c of
       None \<Rightarrow> Some False
     | Some s \<Rightarrow>
         if Cmp_int (p_Number lastProposal) (rs_sequence s) \<ge> 0 then Some False
         else if p_Number lastProposal = sint (word_of_int (Int64 (rs_sequence s) - 1) :: uint64) then
           (if round = 0 then None else if Cmp_int round (rs_round s) < 0 then None else Some True)
         else None)"

text \<open>The part after the validator set is known: a fresh round state and its proposer.\<close>
definition enterRound :: "backend \<Rightarrow> core \<Rightarrow> defaultSet \<Rightarrow> View \<Rightarrow> bool \<Rightarrow> address \<Rightarrow> core option" where
  "enterRound be c valSet newView roundChange lastProposer =
    do {
      let c = c\<lparr>c_roundChangeSet := Some (newRoundChangeSet valSet)\<rparr>;
      let c = updateRoundState be c newView valSet roundChange;
      let c = c\<lparr>c_valSet := Some (ds_CalcProposer valSet lastProposer (Uint64 (vw_Round newView)))\<rparr>;
      _ \<leftarrow> proposer_address c;
      let c = c\<lparr>c_waitingForRoundChange := False\<rparr>;
      c \<leftarrow> setState be c StateAcceptRequest;
      s \<leftarrow> c_current c;
      c \<leftarrow>
        (if roundChange \<and> IsProposer c then
           if rs_IsHashLocked (be_HasBadProposal be) s
           then do { p \<leftarrow> rs_Proposal s; sendPreprepare be c p }
           else (case rs_pendingRequest s of Some p \<Rightarrow> sendPreprepare be c p | None \<Rightarrow> Some c)
         else Some c);
      newRoundChangeTimer be c
    }"

definition startNewRound :: "backend \<Rightarrow> core \<Rightarrow> int \<Rightarrow> core option" where
  "startNewRound be c round =
    do {
      lastProposal \<leftarrow> fst (be_LastProposal be);
      let lastProposer = snd (be_LastProposal be);
      case startNewRound_case c round lastProposal of
        None \<Rightarrow> Some c
      | Some True \<Rightarrow> do {
          s \<leftarrow> c_current c;
          valSet \<leftarrow> c_valSet c;
          enterRound be c valSet \<lparr>vw_Round = round, vw_Sequence = rs_sequence s\<rparr> True lastProposer
        }
      | Some False \<Rightarrow>
          (case be_Validators be lastProposal of
             None \<Rightarrow> Some (c\<lparr>c_valSet := None\<rparr>)
           | Some valSet \<Rightarrow>
               enterRound be (pruneAddrs (c\<lparr>c_valSet := Some valSet\<rparr>)) valSet
                 \<lparr>vw_Round = 0, vw_Sequence = p_Number lastProposal + 1\<rparr> False lastProposer)
    }"

subsection \<open>PRE-PREPARE\<close>

definition simpleCheckPreprepare :: "backend \<Rightarrow> core \<Rightarrow> Message \<Rightarrow> unit result \<times> core" where
  "simpleCheckPreprepare be c msg =
    (case decodePreprepare (m_Msg msg) of
       None \<Rightarrow> (Inl ''rlp'', c)
     | Some preprepare \<Rightarrow>
         if Uint64 (p_Number (pre_Proposal preprepare)) < be_CurrentNumber be then (Inl ErrOldMessage, c)
         else (Inr (), PutAddr c (Uint64 (vw_Sequence (pre_View preprepare))) (m_Address msg)))"

definition simpleCheckSubject :: "backend \<Rightarrow> core \<Rightarrow> Message \<Rightarrow> unit result \<times> core" where
  "simpleCheckSubject be c msg =
    (case decodeSubject (m_Msg msg) of
       None \<Rightarrow> (Inl ''rlp'', c)
     | Some rc \<Rightarrow>
         if Uint64 (vw_Sequence (sub_View rc)) < be_CurrentNumber be then (Inl ErrOldMessage, c)
         else (Inr (), PutAddr c (Uint64 (vw_Sequence (sub_View rc))) (m_Address msg)))"

definition acceptPreprepare :: "core \<Rightarrow> Preprepare \<Rightarrow> core option" where
  "acceptPreprepare c preprepare =
    do { s \<leftarrow> c_current c; Some (c\<lparr>c_current := Some (rs_SetPreprepare s preprepare)\<rparr>) }"

definition sendPrepare :: "backend \<Rightarrow> core \<Rightarrow> core option" where
  "sendPrepare be c =
    do {
      s \<leftarrow> c_current c;
      sub \<leftarrow> rs_Subject s;
      _ \<leftarrow> proposer_address c;
      broadcast be c (newMessage MsgPrepare (EncSubject sub))
    }"

definition broadcastCommit :: "backend \<Rightarrow> core \<Rightarrow> Subject \<Rightarrow> core option" where
  "broadcastCommit be c sub = broadcast be c (newMessage MsgCommit (EncSubject sub))"

definition sendCommit :: "backend \<Rightarrow> core \<Rightarrow> core option" where
  "sendCommit be c =
    do {
      s \<leftarrow> c_current c;
      sub \<leftarrow> rs_Subject s;
      if c_commitHeight c \<ge> Uint64 (vw_Sequence (sub_View sub)) then Some c
      else do {
        let c = c\<lparr>c_commitHeight := Uint64 (vw_Sequence (sub_View sub))\<rparr>;
        _ \<leftarrow> proposer_address c;
        broadcastCommit be c sub
      }
    }"

definition handlePreprepare :: "backend \<Rightarrow> core \<Rightarrow> Message \<Rightarrow> defaultValidator \<Rightarrow> unit result handled" where
  "handlePreprepare be c msg src =
    (case decodePreprepare (m_Msg msg) of
       None \<Rightarrow> Some (Inl ''failed to decode PRE-PREPARE message'', c)
     | Some preprepare \<Rightarrow> do {
         let c = PutAddr c (Uint64 (vw_Sequence (pre_View preprepare))) (m_Address msg);
         _ \<leftarrow> proposer_address c;
         err \<leftarrow> checkMessage c MsgPreprepare (pre_View preprepare);
         valSet \<leftarrow> c_valSet c;
         case err of
           Inl e \<Rightarrow> Some (Inl e, c)
         | Inr _ \<Rightarrow>
             if \<not> ds_IsProposer valSet (dv_address src)
             then Some (Inl ''message does not come from proposer'', c)
             else (case be_Verify be (pre_Proposal preprepare) of
               Inl e \<Rightarrow>
                 if e = ErrFutureBlock then Some (Inl e, emit (PostBacklogAfter src msg) c)
                 else do { c \<leftarrow> sendNextRoundChange be c; Some (Inl e, c) }
             | Inr _ \<Rightarrow> do {
                 s \<leftarrow> c_current c;
                 c \<leftarrow>
                   (if c_state c = StateAcceptRequest then
                      if rs_IsHashLocked (be_HasBadProposal be) s then
                        if p_Hash (pre_Proposal preprepare) = rs_lockedHash s
                        then do {
                          c \<leftarrow> acceptPreprepare c preprepare;
                          c \<leftarrow> setState be c StatePrepared;
                          sendCommit be c
                        }
                        else sendNextRoundChange be c
                      else do {
                        c \<leftarrow> acceptPreprepare c preprepare;
                        c \<leftarrow> setState be c StatePreprepared;
                        sendPrepare be c
                      }
                    else Some c);
                 Some (Inr (), c)
               })
       })"

subsection \<open>PREPARE\<close>

definition verifyPrepare :: "roundState \<Rightarrow> Subject \<Rightarrow> unit result" where
  "verifyPrepare s prepare = (if Some prepare \<noteq> rs_Subject s then Inl ''inconsistent subjects'' else Inr ())"

text \<open>The error of \<^verbatim>\<open>Prepares.Add\<close> is returned, and dropped by the caller.\<close>
definition acceptPrepare :: "roundState \<Rightarrow> Message \<Rightarrow> unit result \<times> roundState" where
  "acceptPrepare s msg = (let (err, ms) = ms_Add (rs_Prepares s) msg in (err, s\<lparr>rs_Prepares := ms\<rparr>))"

definition handlePrepare :: "backend \<Rightarrow> core \<Rightarrow> Message \<Rightarrow> defaultValidator \<Rightarrow> unit result handled" where
  "handlePrepare be c msg src =
    (case decodeSubject (m_Msg msg) of
       None \<Rightarrow> Some (Inl ''failed to decode PREPARE message'', c)
     | Some prepare \<Rightarrow> do {
         let c = PutAddr c (Uint64 (vw_Sequence (sub_View prepare))) (m_Address msg);
         _ \<leftarrow> proposer_address c;
         err \<leftarrow> checkMessage c MsgPrepare (sub_View prepare);
         s \<leftarrow> c_current c;
         valSet \<leftarrow> c_valSet c;
         case err of
           Inl e \<Rightarrow> Some (Inl e, c)
         | Inr _ \<Rightarrow>
             (case verifyPrepare s prepare of
                Inl e \<Rightarrow> Some (Inl e, c)
              | Inr _ \<Rightarrow> do {
                  let s = snd (acceptPrepare s msg);
                  let c = c\<lparr>c_current := Some s\<rparr>;
                  c \<leftarrow>
                    (if ((rs_IsHashLocked (be_HasBadProposal be) s \<and> sub_Digest prepare = rs_lockedHash s)
                          \<or> rs_GetPrepareOrCommitSize s \<ge> QuorumSize valSet)
                        \<and> State_Cmp (c_state c) StatePrepared < 0
                     then do {
                       let c = c\<lparr>c_current := Some (rs_LockHash s)\<rparr>;
                       c \<leftarrow> setState be c StatePrepared;
                       sendCommit be c
                     }
                     else Some c);
                  Some (Inr (), c)
                })
       })"

subsection \<open>COMMIT\<close>

definition verifyCommit :: "roundState \<Rightarrow> Subject \<Rightarrow> unit result" where
  "verifyCommit s commit = (if Some commit \<noteq> rs_Subject s then Inl ''inconsistent subjects'' else Inr ())"

definition acceptCommit :: "roundState \<Rightarrow> Message \<Rightarrow> unit result \<times> roundState" where
  "acceptCommit s msg = (let (err, ms) = ms_Add (rs_Commits s) msg in (err, s\<lparr>rs_Commits := ms\<rparr>))"

text \<open>A seal of 65 bytes: the message's, cut off or filled with zeroes.\<close>
definition committedSeal :: "Message \<Rightarrow> bytes" where
  "committedSeal v = take 65 (m_CommittedSeal v @ replicate 65 0)"

definition commit :: "backend \<Rightarrow> core \<Rightarrow> core option" where
  "commit be c =
    do {
      c \<leftarrow> setState be c StateCommitted;
      s \<leftarrow> c_current c;
      case rs_Proposal s of
        None \<Rightarrow> Some c
      | Some proposal \<Rightarrow> do {
          let committedSeals = map committedSeal (ms_Values (rs_Commits s));
          view \<leftarrow> currentView c;
          let c = emit (CommitBlock view proposal committedSeals) c;
          _ \<leftarrow> proposer_address c;
          case be_Commit be proposal committedSeals of
            Inr _ \<Rightarrow> Some c
          | Inl _ \<Rightarrow> sendNextRoundChange be (c\<lparr>c_current := Some (rs_UnlockHash s)\<rparr>)
        }
    }"

definition handleCommit :: "backend \<Rightarrow> core \<Rightarrow> Message \<Rightarrow> defaultValidator \<Rightarrow> unit result handled" where
  "handleCommit be c msg src =
    (case decodeSubject (m_Msg msg) of
       None \<Rightarrow> do { _ \<leftarrow> currentView c; Some (Inl ''failed to decode COMMIT message'', c) }
     | Some subject \<Rightarrow> do {
         let c = PutAddr c (Uint64 (vw_Sequence (sub_View subject))) (m_Address msg);
         _ \<leftarrow> proposer_address c;
         err \<leftarrow> checkMessage c MsgCommit (sub_View subject);
         s \<leftarrow> c_current c;
         valSet \<leftarrow> c_valSet c;
         case err of
           Inl e \<Rightarrow> Some (Inl e, c)
         | Inr _ \<Rightarrow>
             (case verifyCommit s subject of
                Inl e \<Rightarrow> Some (Inl e, c)
              | Inr _ \<Rightarrow> do {
                  let s = snd (acceptCommit s msg);
                  let c = c\<lparr>c_current := Some s\<rparr>;
                  c \<leftarrow>
                    (if int (ms_Size (rs_Commits s)) \<ge> QuorumSize valSet \<and> State_Cmp (c_state c) StateCommitted < 0
                     then commit be (c\<lparr>c_current := Some (rs_LockHash s)\<rparr>)
                     else Some c);
                  Some (Inr (), c)
                })
       })"

subsection \<open>ROUND CHANGE\<close>

definition handleRoundChange :: "backend \<Rightarrow> core \<Rightarrow> Message \<Rightarrow> defaultValidator \<Rightarrow> unit result handled" where
  "handleRoundChange be c msg src =
    (case decodeSubject (m_Msg msg) of
       None \<Rightarrow> Some (Inl ErrInvalidMessage, c)
     | Some rc \<Rightarrow> do {
         let c = PutAddr c (Uint64 (vw_Sequence (sub_View rc))) (m_Address msg);
         err \<leftarrow> checkMessage c MsgRoundChange (sub_View rc);
         case err of
           Inl e \<Rightarrow> Some (Inl e, c)
         | Inr _ \<Rightarrow> do {
             cv \<leftarrow> currentView c;
             rcs \<leftarrow> c_roundChangeSet c;
             let round = vw_Round (sub_View rc);
             let (added, rcs) = rcs_Add rcs round msg;
             let c = c\<lparr>c_roundChangeSet := Some rcs\<rparr>;
             case added of
               Inl e \<Rightarrow> Some (Inl e, c)
             | Inr num \<Rightarrow> do {
                 valSet \<leftarrow> c_valSet c;
                 if c_waitingForRoundChange c \<and> int num = ds_F valSet + 1 then do {
                   c \<leftarrow> (if Cmp_int (vw_Round cv) round < 0 then sendRoundChange be c round else Some c);
                   Some (Inr (), c)
                 }
                 else if int num = QuorumSize valSet \<and>
                     (c_waitingForRoundChange c \<or> Cmp_int (vw_Round cv) round < 0) then do {
                   c \<leftarrow> startNewRound be c round;
                   Some (Inr (), c)
                 }
                 else if Cmp_int (vw_Round cv) round < 0 then Some (Inl ''message is ignored'', c)
                 else Some (Inr (), c)
               }
           }
       })"

subsection \<open>Events\<close>

definition CheckValidatorSignature :: "backend \<Rightarrow> defaultSet \<Rightarrow> bytes \<Rightarrow> bytes \<Rightarrow> address result" where
  "CheckValidatorSignature be valSet data sig =
    (case be_GetSignatureAddress be data sig of
       Inl err \<Rightarrow> Inl err
     | Inr signer \<Rightarrow> (case ds_GetByAddress valSet signer of
         Some (_, val) \<Rightarrow> Inr (dv_address val)
       | None \<Rightarrow> Inl ''unauthorized address''))"

definition FromPayload :: "backend \<Rightarrow> defaultSet \<Rightarrow> Message result \<Rightarrow> Message result" where
  "FromPayload be valSet b =
    (case b of
       Inl err \<Rightarrow> Inl err
     | Inr m \<Rightarrow> (case CheckValidatorSignature be valSet (PayloadNoSig be m) (m_Signature m) of
         Inl err \<Rightarrow> Inl err
       | Inr signerAdd \<Rightarrow>
           if address_bytes signerAdd \<noteq> address_bytes (m_Address m) then Inl ''message not signed by the sender''
           else Inr m))"

text \<open>What a node that is no validator checks before it passes a message on.\<close>
definition checkMsgSeq :: "backend \<Rightarrow> core \<Rightarrow> defaultSet \<Rightarrow> Message result \<Rightarrow> unit result \<times> core" where
  "checkMsgSeq be c valSet payload =
    (case FromPayload be valSet payload of
       Inl err \<Rightarrow> (Inl err, c)
     | Inr msg \<Rightarrow>
         if m_Code msg = MsgPreprepare then simpleCheckPreprepare be c msg
         else if m_Code msg = MsgPrepare \<or> m_Code msg = MsgCommit \<or> m_Code msg = MsgRoundChange
         then simpleCheckSubject be c msg
         else (Inl ErrInvalidMessage, c))"

definition testBacklog :: "Message \<Rightarrow> defaultValidator \<Rightarrow> unit result \<times> core \<Rightarrow> unit result \<times> core" where
  "testBacklog msg src r =
    (if fst r = Inl ErrFutureMessage then (fst r, storeBacklog (snd r) msg src) else r)"

definition handleCheckedMsg :: "backend \<Rightarrow> core \<Rightarrow> Message \<Rightarrow> defaultValidator \<Rightarrow> unit result handled" where
  "handleCheckedMsg be c msg src =
    (if m_Code msg = MsgPreprepare then map_option (testBacklog msg src) (handlePreprepare be c msg src)
     else if m_Code msg = MsgPrepare then map_option (testBacklog msg src) (handlePrepare be c msg src)
     else if m_Code msg = MsgCommit then map_option (testBacklog msg src) (handleCommit be c msg src)
     else if m_Code msg = MsgRoundChange then map_option (testBacklog msg src) (handleRoundChange be c msg src)
     else Some (Inl ErrInvalidMessage, c))"

definition handleMsg :: "backend \<Rightarrow> core \<Rightarrow> defaultSet \<Rightarrow> Message result \<Rightarrow> unit result handled" where
  "handleMsg be c valSet payload =
    (case FromPayload be valSet payload of
       Inl err \<Rightarrow> Some (Inl err, c)
     | Inr msg \<Rightarrow> (case ds_GetByAddress valSet (m_Address msg) of
         None \<Rightarrow> Some (Inl ''unauthorized address'', c)
       | Some (_, src) \<Rightarrow> handleCheckedMsg be c msg src))"

definition handleTimeoutMsg :: "backend \<Rightarrow> core \<Rightarrow> core option" where
  "handleTimeoutMsg be c =
    do {
      maxRound \<leftarrow>
        (if c_waitingForRoundChange c then Some None
         else do {
           rcs \<leftarrow> c_roundChangeSet c;
           valSet \<leftarrow> c_valSet c;
           case rcs_MaxRound rcs (ds_F valSet + 1) of
             None \<Rightarrow> Some None
           | Some maxRound \<Rightarrow> do {
               s \<leftarrow> c_current c;
               Some (if Cmp_int maxRound (rs_round s) > 0 then Some maxRound else None)
             }
         });
      case maxRound of
        Some maxRound \<Rightarrow> sendRoundChange be c maxRound
      | None \<Rightarrow> do {
          s \<leftarrow> c_current c;
          case fst (be_LastProposal be) of
            None \<Rightarrow> sendNextRoundChange be c
          | Some lastProposal \<Rightarrow>
              if Cmp_int (p_Number lastProposal) (rs_sequence s) \<ge> 0 then startNewRound be c 0
              else sendNextRoundChange be c
        }
    }"

definition handleFinalCommitted :: "backend \<Rightarrow> core \<Rightarrow> core option" where
  "handleFinalCommitted be c =
    do {
      cv \<leftarrow> currentView c;
      if be_IsQBFTConsensusAt be (vw_Sequence cv + 1) then Some (emit GoStartNewRound c)
      else startNewRound be c 0
    }"

text \<open>
  The events of a node: Start (and the goroutine started by handleFinalCommitted), and the
  events of the loop of handleEvents.
\<close>
datatype event =
    StartEvent
  | RequestEvent "Proposal option"
  | MessageEvent "Message result"
  | BacklogEvent defaultValidator Message
  | TimeoutEvent
  | FinalCommittedEvent

text \<open>\<^verbatim>\<open>c.backend.Gossip(c.valSet, ...)\<close> after a message was handled without an error.\<close>
definition gossip :: "Message result \<Rightarrow> unit result \<times> core \<Rightarrow> core option" where
  "gossip payload r =
    (case (r, payload) of
       ((Inr _, c), Inr msg) \<Rightarrow> do { _ \<leftarrow> c_valSet c; Some (emit (Gossip msg) c) }
     | ((_, c), _) \<Rightarrow> Some c)"

text \<open>The body of the loop of handleEvents.\<close>
fun handleEvent :: "backend \<Rightarrow> core \<Rightarrow> event \<Rightarrow> core option" where
  "handleEvent be c StartEvent = startNewRound be c 0"
| "handleEvent be c (RequestEvent proposal) =
    (case c_valSet c of
       None \<Rightarrow> Some c
     | Some _ \<Rightarrow> do {
         (err, c) \<leftarrow> handleRequest be c proposal;
         case proposal of
           Some r \<Rightarrow> Some (if err = Inl ErrFutureMessage then storeRequestMsg c r else c)
         | None \<Rightarrow> Some c
       })"
| "handleEvent be c (MessageEvent payload) =
    (case c_valSet c of
       None \<Rightarrow> Some c
     | Some valSet \<Rightarrow>
         (case ds_GetByAddress valSet (c_address c) of
            None \<Rightarrow> gossip payload (checkMsgSeq be c valSet payload)
          | Some _ \<Rightarrow> handleMsg be c valSet payload \<bind> gossip payload))"
| "handleEvent be c (BacklogEvent src msg) =
    (case c_valSet c of
       None \<Rightarrow> Some c
     | Some _ \<Rightarrow> handleCheckedMsg be c msg src \<bind> gossip (Inr msg))"
| "handleEvent be c TimeoutEvent = handleTimeoutMsg be c"
| "handleEvent be c FinalCommittedEvent = handleFinalCommitted be c"

end
