(* ===== verification/Ibft_Safety.thy ===== *)
theory Ibft_Safety
  imports Ibft_Core "HOL-Library.Sublist"
begin

text \<open>
  The invariant of one node of the Istanbul BFT core.  A node sends at most one COMMIT for each
  height, whatever messages it gets; the COMMITs it has collected are all for its own view and
  proposal and come from different validators; and every block it hands to the chain is backed by
  a quorum of them.  \<open>good\<close> is what is known of every message that passed the signature check, and
  \<open>addrs\<close> gives the validators of each height; \<open>past\<close> is the node's address and what it had sent before.
\<close>

subsection \<open>Reasoning about handlers\<close>

text \<open>The postcondition of a computation that may panic.\<close>
definition holds :: "('a \<Rightarrow> bool) \<Rightarrow> 'a option \<Rightarrow> bool" where
  "holds Q m \<longleftrightarrow> (case m of None \<Rightarrow> True | Some x \<Rightarrow> Q x)"

lemma holds_simps [simp]:
  "holds Q None" "holds Q (Some x) \<longleftrightarrow> Q x"
  "holds Q (m \<bind> f) \<longleftrightarrow> holds (\<lambda>x. holds Q (f x)) m"
  "holds Q (map_option g m) \<longleftrightarrow> holds (\<lambda>x. Q (g x)) m"
  by (auto simp: holds_def split: option.splits bind_splits)

lemma holds_True [simp]: "holds (\<lambda>_. True) m"
  by (simp add: holds_def split: option.splits)

lemma holds_mono: "\<lbrakk>holds P m; \<And>x. P x \<Longrightarrow> Q x\<rbrakk> \<Longrightarrow> holds Q m"
  by (auto simp: holds_def split: option.splits)

lemma holds_bind_read: "(\<And>x. m = Some x \<Longrightarrow> holds Q (f x)) \<Longrightarrow> holds Q (m \<bind> f)"
  by (cases m) simp_all

lemma holds_then: "\<lbrakk>holds P m; \<And>x. P x \<Longrightarrow> holds Q (f x)\<rbrakk> \<Longrightarrow> holds Q (m \<bind> f)"
  by (cases m) simp_all

lemma holdsD: "\<lbrakk>holds Q m; m = Some x\<rbrakk> \<Longrightarrow> Q x"
  by (simp add: holds_def)

text \<open>For a value that is only read.\<close>
lemma holds_read: "(\<And>x. m = Some x \<Longrightarrow> Q x) \<Longrightarrow> holds Q m"
  by (auto simp: holds_def split: option.splits)

subsection \<open>The invariant\<close>

definition quorum :: "nat \<Rightarrow> int" where
  "quorum n = 2 * (int ((n + 2) div 3) - 1) + 1"

definition is_commit :: "Message \<Rightarrow> Subject \<Rightarrow> bool" where
  "is_commit m sub \<longleftrightarrow> m_Code m = MsgCommit \<and> decodeSubject (m_Msg m) = Some sub"

text \<open>A quorum of different validators sent a COMMIT for the subject.\<close>
definition certified :: "(Message \<Rightarrow> bool) \<Rightarrow> (int \<Rightarrow> address list) \<Rightarrow> Subject \<Rightarrow> bool" where
  "certified good addrs sub \<longleftrightarrow>
    (let vals = addrs (vw_Sequence (sub_View sub)) in
     \<exists>S. S \<subseteq> set vals \<and> int (card S) \<ge> quorum (length vals) \<and>
       (\<forall>a\<in>S. \<exists>m. good m \<and> m_Address m = a \<and> is_commit m sub))"

fun effect_ok :: "(Message \<Rightarrow> bool) \<Rightarrow> (int \<Rightarrow> address list) \<Rightarrow> address \<Rightarrow> effect \<Rightarrow> bool" where
  "effect_ok good addrs self (Broadcast m) = (m_Address m = self)"
| "effect_ok good addrs self (CommitBlock v p seals) = certified good addrs \<lparr>sub_View = v, sub_Digest = p_Hash p\<rparr>"
| "effect_ok good addrs self (PostBacklog src m) = good m"
| "effect_ok good addrs self (PostBacklogAfter src m) = good m"
| "effect_ok good addrs self _ = True"

text \<open>The subjects of the COMMITs among the outputs.\<close>
fun commit_subject :: "effect \<Rightarrow> Subject option" where
  "commit_subject (Broadcast m) = (if m_Code m = MsgCommit then decodeSubject (m_Msg m) else None)"
| "commit_subject _ = None"

definition sent_commits :: "effect list \<Rightarrow> Subject list" where
  "sent_commits es = List.map_filter commit_subject es"

definition height :: "Subject \<Rightarrow> uint64" where
  "height sub = Uint64 (vw_Sequence (sub_View sub))"

text \<open>
  Where a node was before: its address, what it had sent, and its view.  From there, blocks are
  only handed to the chain for this view or a later one.
\<close>
type_synonym past = "address \<times> effect list \<times> View option"

definition after :: "View option \<Rightarrow> View \<Rightarrow> bool" where
  "after pv v \<longleftrightarrow> pred_option (\<lambda>w. vw_Sequence w < vw_Sequence v \<or>
    (vw_Sequence w = vw_Sequence v \<and> vw_Round w \<le> vw_Round v)) pv"

fun effect_after :: "View option \<Rightarrow> effect \<Rightarrow> bool" where
  "effect_after pv (CommitBlock v p seals) = after pv v"
| "effect_after pv _ = True"

definition out_inv :: "(Message \<Rightarrow> bool) \<Rightarrow> (int \<Rightarrow> address list) \<Rightarrow> past \<Rightarrow> core \<Rightarrow> bool" where
  "out_inv good addrs past c \<longleftrightarrow>
    c_address c = fst past \<and> (\<exists>es. c_out c = fst (snd past) @ es \<and> list_all (effect_after (snd (snd past))) es) \<and>
    list_all (effect_ok good addrs (fst past)) (c_out c) \<and>
    sorted_wrt (<) (map height (sent_commits (c_out c))) \<and>
    (\<forall>sub\<in>set (sent_commits (c_out c)). height sub \<le> c_commitHeight c)"

definition commits_inv :: "(Message \<Rightarrow> bool) \<Rightarrow> roundState \<Rightarrow> bool" where
  "commits_inv good s \<longleftrightarrow>
    (let ms = rs_Commits s in
     distinct (map fst (ms_messages ms)) \<and>
     (\<forall>(a, m)\<in>set (ms_messages ms). good m \<and> m_Address m = a \<and> a \<in> set (ds_ListAll (ms_valSet ms)) \<and>
       m_Code m = MsgCommit \<and> decodeSubject (m_Msg m) = rs_Subject s \<and> rs_Subject s \<noteq> None))"

definition rs_view :: "roundState \<Rightarrow> View" where
  "rs_view s = \<lparr>vw_Round = rs_round s, vw_Sequence = rs_sequence s\<rparr>"

fun round_ok :: "(Message \<Rightarrow> bool) \<Rightarrow> (int \<Rightarrow> address list) \<Rightarrow> View option \<Rightarrow> State \<Rightarrow>
    defaultSet option \<Rightarrow> roundState option \<Rightarrow> bool" where
  "round_ok good addrs pv st valSet None = (valSet = None \<and> pv = None)"
| "round_ok good addrs pv st valSet (Some s) =
    (commits_inv good s \<and>
     (st = StateAcceptRequest \<longrightarrow> ms_messages (rs_Commits s) = []) \<and>
     ds_ListAll (ms_valSet (rs_Commits s)) = addrs (rs_sequence s) \<and>
     pred_option (\<lambda>vs. ds_ListAll vs = addrs (rs_sequence s)) valSet \<and>
     after pv (rs_view s))"

definition round_inv :: "(Message \<Rightarrow> bool) \<Rightarrow> (int \<Rightarrow> address list) \<Rightarrow> past \<Rightarrow> core \<Rightarrow> bool" where
  "round_inv good addrs past c \<longleftrightarrow> round_ok good addrs (snd (snd past)) (c_state c) (c_valSet c) (c_current c)"

definition good_queue :: "(Message \<Rightarrow> bool) \<Rightarrow> Message prque \<Rightarrow> bool" where
  "good_queue good q \<longleftrightarrow> (\<forall>x\<in>set q. good (fst x))"

definition backlog_inv :: "(Message \<Rightarrow> bool) \<Rightarrow> core \<Rightarrow> bool" where
  "backlog_inv good c \<longleftrightarrow> (\<forall>(a, q)\<in>set (c_backlogs c). good_queue good q)"

definition node_inv :: "(Message \<Rightarrow> bool) \<Rightarrow> (int \<Rightarrow> address list) \<Rightarrow> past \<Rightarrow> core \<Rightarrow> bool" where
  "node_inv good addrs past c \<longleftrightarrow> out_inv good addrs past c \<and> round_inv good addrs past c \<and> backlog_inv good c"

text \<open>What the invariant does not read.\<close>
lemma node_inv_frame [simp]:
  "node_inv good addrs past (c\<lparr>c_waitingForRoundChange := b\<rparr>) = node_inv good addrs past c"
  "node_inv good addrs past (c\<lparr>c_roundChangeSet := r\<rparr>) = node_inv good addrs past c"
  "node_inv good addrs past (c\<lparr>c_pendingRequests := q\<rparr>) = node_inv good addrs past c"
  "node_inv good addrs past (c\<lparr>c_onlineValidator := ov\<rparr>) = node_inv good addrs past c"
  by (simp_all add: node_inv_def out_inv_def round_inv_def backlog_inv_def)

lemma NewCore_inv: "node_inv good addrs (a, [], None) (NewCore a)"
  by (simp add: node_inv_def out_inv_def round_inv_def backlog_inv_def NewCore_def sent_commits_def)

lemma sent_commits_append [simp]: "sent_commits (es @ fs) = sent_commits es @ sent_commits fs"
  by (simp add: sent_commits_def List.map_filter_def)

lemma sent_commits_single [simp]:
  "sent_commits [e] = (case commit_subject e of None \<Rightarrow> [] | Some sub \<Rightarrow> [sub])"
  by (simp add: sent_commits_def List.map_filter_def split: option.splits)

lemma emit_inv:
  "\<lbrakk>node_inv good addrs past c; effect_ok good addrs (c_address c) e; commit_subject e = None;
    effect_after (snd (snd past)) e\<rbrakk>
    \<Longrightarrow> node_inv good addrs past (emit e c)"
  by (auto simp: node_inv_def out_inv_def round_inv_def backlog_inv_def emit_def)

lemma emit_frame [simp]:
  "c_current (emit e c) = c_current c" "c_valSet (emit e c) = c_valSet c" "c_state (emit e c) = c_state c"
  "c_address (emit e c) = c_address c" "c_commitHeight (emit e c) = c_commitHeight c"
  "c_waitingForRoundChange (emit e c) = c_waitingForRoundChange c" "c_backlogs (emit e c) = c_backlogs c"
  by (simp_all add: emit_def)

lemma PutAddr_frame [simp]:
  "node_inv good addrs past (PutAddr c h a) = node_inv good addrs past c"
  "c_current (PutAddr c h a) = c_current c" "c_valSet (PutAddr c h a) = c_valSet c"
  "c_state (PutAddr c h a) = c_state c" "c_waitingForRoundChange (PutAddr c h a) = c_waitingForRoundChange c"
  by (simp_all add: PutAddr_def Let_def)

lemma pruneAddrs_eq: "\<exists>ov. pruneAddrs c = c\<lparr>c_onlineValidator := ov\<rparr>"
proof -
  have "\<exists>ov. delAddrs c vs = c\<lparr>c_onlineValidator := ov\<rparr>" for vs
  proof (induction vs arbitrary: c)
    case Nil
    have "delAddrs c [] = c\<lparr>c_onlineValidator := c_onlineValidator c\<rparr>" by (simp add: delAddrs_def)
    then show ?case ..
  next
    case (Cons v vs)
    show ?case
      using Cons [of "c\<lparr>c_onlineValidator := AList.delete (word_of_int v) (c_onlineValidator c)\<rparr>"]
      by (auto simp: delAddrs_def)
  qed
  moreover have "\<exists>ov. c = c\<lparr>c_onlineValidator := ov\<rparr>"
    by (rule exI [of _ "c_onlineValidator c"]) simp
  ultimately show ?thesis by (simp add: pruneAddrs_def)
qed

subsection \<open>The backlog\<close>

definition still :: "core \<Rightarrow> core \<Rightarrow> bool" where
  "still c c' \<longleftrightarrow> c_current c' = c_current c \<and> c_valSet c' = c_valSet c \<and> c_state c' = c_state c \<and>
    c_address c' = c_address c \<and> c_commitHeight c' = c_commitHeight c"

lemma good_queue_Pop:
  assumes "good_queue good q" "q \<noteq> []"
  shows "good (fst (fst (prque_Pop be q)))" "good_queue good (snd (prque_Pop be q))"
proof -
  have "be_Pop be (map snd q) mod length q < length q" using assms(2) by simp
  then have "q ! (be_Pop be (map snd q) mod length q) \<in> set q" by (rule nth_mem)
  then show "good (fst (fst (prque_Pop be q)))"
    using assms(1) by (auto simp: prque_Pop_def Let_def good_queue_def split: prod.splits)
  show "good_queue good (snd (prque_Pop be q))"
    using assms(1) by (auto simp: prque_Pop_def Let_def good_queue_def dest: in_set_takeD in_set_dropD)
qed

lemma backlog_loop_inv:
  "\<lbrakk>node_inv good addrs past c; good_queue good q\<rbrakk> \<Longrightarrow>
    holds (\<lambda>(q', c'). node_inv good addrs past c' \<and> good_queue good q' \<and> still c c') (backlog_loop be c src q)"
proof (induction be c src q rule: backlog_loop.induct)
  case (1 be c src q)
  show ?case
  proof (cases "q = []")
    case True
    then show ?thesis using "1.prems" by (simp add: backlog_loop.simps still_def)
  next
    case False
    let ?p = "prque_Pop be q"
    note pop = good_queue_Pop [OF "1.prems"(2) False, of be]
    have push: "good_queue good (prque_Push (snd ?p) (fst (fst ?p)) (snd (fst ?p)))"
      using pop by (simp add: prque_Push_def good_queue_def)
    have post: "node_inv good addrs past (emit (PostBacklog src (fst (fst ?p))) c)"
      using "1.prems"(1) pop(1) by (intro emit_inv) simp_all
    note skip = "1.IH"(1) [OF False refl refl refl _ "1.prems"(1) pop(2)]
    note old = "1.IH"(2) [OF False refl refl refl _ _ _ _ "1.prems"(1) pop(2)]
    note new = "1.IH"(3) [OF False refl refl refl _ _ _ post pop(2)]
    show ?thesis
    proof (cases "message_view (fst (fst ?p))")
      case None
      then show ?thesis using skip False by (subst backlog_loop.simps) (simp add: Let_def)
    next
      case (Some view)
      then show ?thesis
        using old new False push "1.prems"(1)
        by (subst backlog_loop.simps) (auto simp: Let_def still_def split: option.splits sum.splits)
    qed
  qed
qed

lemma set_backlogs_inv:
  "\<lbrakk>node_inv good addrs past c; \<forall>(a, q)\<in>set qs. good_queue good q\<rbrakk> \<Longrightarrow> node_inv good addrs past (c\<lparr>c_backlogs := qs\<rparr>)"
  by (simp add: node_inv_def out_inv_def round_inv_def backlog_inv_def)

lemma node_inv_backlogs: "node_inv good addrs past c \<Longrightarrow> (a, q) \<in> set (c_backlogs c) \<Longrightarrow> good_queue good q"
  by (auto simp: node_inv_def backlog_inv_def)

lemma update_in: "(a, q) \<in> set (AList.update b r qs) \<Longrightarrow> (a, q) = (b, r) \<or> (a, q) \<in> set qs"
  by (induction qs) (auto split: if_splits)

lemma delete_in: "(a, q) \<in> set (AList.delete b qs) \<Longrightarrow> (a, q) \<in> set qs"
  by (auto simp: AList.delete_eq)

lemma backlogs_loop_inv:
  "\<lbrakk>node_inv good addrs past c; \<forall>(a, q)\<in>set qs. good_queue good q\<rbrakk> \<Longrightarrow>
    holds (\<lambda>c'. node_inv good addrs past c' \<and> still c c') (backlogs_loop be c qs)"
proof (induction qs arbitrary: c)
  case (Cons x rest)
  obtain a q where x: "x = (a, q)" by force
  have q: "good_queue good q" and rest: "\<forall>(a, q)\<in>set rest. good_queue good q" using Cons.prems x by auto
  show ?case
  proof (cases "c_valSet c")
    case (Some vs)
    show ?thesis
    proof (cases "ds_GetByAddress vs a")
      case None
      have "node_inv good addrs past (c\<lparr>c_backlogs := AList.delete a (c_backlogs c)\<rparr>)"
        using node_inv_backlogs [OF Cons.prems(1)]
        by (intro set_backlogs_inv Cons.prems) (auto dest: delete_in)
      from Cons.IH [OF this rest] show ?thesis
        using Some None x by (simp add: still_def)
    next
      case (Some y)
      obtain j src where y: "y = (j, src)" by force
      show ?thesis
      proof (cases "backlog_loop be c src q")
        case (Some r)
        obtain q' c' where r: "r = (q', c')" by force
        have *: "node_inv good addrs past c'" "good_queue good q'" "still c c'"
          using holdsD [OF backlog_loop_inv [OF Cons.prems(1) q] Some] r by auto
        have "node_inv good addrs past (c'\<lparr>c_backlogs := AList.update a q' (c_backlogs c')\<rparr>)"
          using node_inv_backlogs [OF *(1)] *(2)
          by (intro set_backlogs_inv *) (auto dest!: update_in)
        from Cons.IH [OF this rest] show ?thesis
          using \<open>c_valSet c = Some vs\<close> \<open>ds_GetByAddress vs a = Some y\<close> Some x y r *(3) by (simp add: still_def)
      qed (use \<open>c_valSet c = Some vs\<close> \<open>ds_GetByAddress vs a = Some y\<close> x y in simp)
    qed
  qed (simp add: x)
qed (simp add: still_def)

lemma processBacklog_inv:
  "node_inv good addrs past c \<Longrightarrow> holds (\<lambda>c'. node_inv good addrs past c' \<and> still c c') (processBacklog be c)"
  unfolding processBacklog_def by (rule backlogs_loop_inv) (auto dest: node_inv_backlogs)

lemma requests_loop_inv:
  "node_inv good addrs past c \<Longrightarrow> holds (\<lambda>c'. node_inv good addrs past c' \<and> still c c') (requests_loop be c q)"
proof (induction be c q rule: requests_loop.induct)
  case (1 be c q)
  let ?p = "prque_Pop be q"
  have post: "node_inv good addrs past (emit (PostRequest (fst (fst ?p))) c)"
    using "1.prems" by (intro emit_inv) simp_all
  note old = "1.IH"(1) [OF _ refl refl refl _ _ _ "1.prems"]
  note new = "1.IH"(2) [OF _ refl refl refl _ _ post]
  show ?case
    using old new "1.prems"
    by (subst requests_loop.simps) (auto simp: Let_def still_def split: option.splits sum.splits)
qed

lemma storeBacklog_inv:
  assumes "node_inv good addrs past c" "good msg"
  shows "node_inv good addrs past (storeBacklog c msg src)"
proof -
  define q where "q = (case map_of (c_backlogs c) (dv_address src) of None \<Rightarrow> [] | Some q \<Rightarrow> q)"
  have q: "good_queue good q"
    using node_inv_backlogs [OF assms(1) map_of_SomeD]
    by (cases "map_of (c_backlogs c) (dv_address src)") (auto simp: q_def good_queue_def)
  have "node_inv good addrs past (c\<lparr>c_backlogs := AList.update (dv_address src) q' (c_backlogs c)\<rparr>)" if "good_queue good q'" for q'
    using node_inv_backlogs [OF assms(1)] assms(1) that by (intro set_backlogs_inv) (auto dest!: update_in)
  moreover have "good_queue good (prque_Push q msg prio)" for prio
    using q assms(2) by (simp add: prque_Push_def good_queue_def)
  ultimately show ?thesis
    using q assms(1) by (simp add: storeBacklog_def q_def [symmetric] split: option.split)
qed

subsection \<open>Operations\<close>

lemma set_state_inv:
  "\<lbrakk>node_inv good addrs past c; st \<noteq> StateAcceptRequest\<rbrakk> \<Longrightarrow> node_inv good addrs past (c\<lparr>c_state := st\<rparr>)"
  by (cases "c_current c") (auto simp: node_inv_def out_inv_def round_inv_def backlog_inv_def)

text \<open>A fresh state is allowed when no COMMIT has been collected.\<close>
definition no_commits :: "core \<Rightarrow> bool" where
  "no_commits c \<longleftrightarrow> pred_option (\<lambda>s. ms_messages (rs_Commits s) = []) (c_current c)"

lemma set_state_accept_inv:
  "\<lbrakk>node_inv good addrs past c; no_commits c\<rbrakk> \<Longrightarrow> node_inv good addrs past (c\<lparr>c_state := st\<rparr>)"
  by (cases "c_current c") (auto simp: node_inv_def out_inv_def round_inv_def backlog_inv_def no_commits_def)

lemma setState_inv:
  assumes "node_inv good addrs past c" "st \<noteq> StateAcceptRequest \<or> no_commits c"
  shows "holds (\<lambda>c'. node_inv good addrs past c' \<and> still (c\<lparr>c_state := st\<rparr>) c') (setState be c st)"
proof -
  let ?c = "c\<lparr>c_state := st\<rparr>"
  let ?pending = "if st = StateAcceptRequest then processPendingRequests be ?c else Some ?c"
  have "(if c_state c \<noteq> st then ?c else c) = ?c" by simp
  then have eq: "setState be c st = ?pending \<bind> processBacklog be"
    by (simp only: setState_def Let_def)
  have "node_inv good addrs past ?c"
    using assms set_state_inv set_state_accept_inv by blast
  then have "holds (\<lambda>c'. node_inv good addrs past c' \<and> still ?c c') ?pending"
    using requests_loop_inv [of good addrs past ?c be "c_pendingRequests ?c"]
    by (cases "st = StateAcceptRequest") (simp_all add: processPendingRequests_def still_def)
  then have "holds (\<lambda>x. holds (\<lambda>c'. node_inv good addrs past c' \<and> still ?c c') (processBacklog be x)) ?pending"
  proof (rule holds_mono, elim conjE)
    fix x assume "node_inv good addrs past x" "still ?c x"
    then show "holds (\<lambda>c'. node_inv good addrs past c' \<and> still ?c c') (processBacklog be x)"
      by (intro holds_mono [OF processBacklog_inv]) (simp_all add: still_def)
  qed
  then show ?thesis by (simp only: eq holds_simps)
qed

lemma newMessage_sel [simp]: "m_Code (newMessage code e) = code" "m_Msg (newMessage code e) = e"
  by (simp_all add: newMessage_def)

lemma other_codes [simp]: "MsgPreprepare \<noteq> MsgCommit" "MsgPrepare \<noteq> MsgCommit" "MsgRoundChange \<noteq> MsgCommit"
  by (simp_all add: msg_code_defs)

lemma finalizeMessage_holds:
  "holds (\<lambda>r. \<forall>m. r = Inr m \<longrightarrow> m_Code m = m_Code msg \<and> m_Msg m = m_Msg msg \<and> m_Address m = c_address c)
    (finalizeMessage be c msg)"
  unfolding finalizeMessage_def Let_def
  by (auto intro!: holds_read split: sum.splits option.splits if_splits)

lemma finalizeMessage_eq:
  "finalizeMessage be c msg = Some (Inr m) \<Longrightarrow> m_Code m = m_Code msg \<and> m_Msg m = m_Msg msg \<and> m_Address m = c_address c"
  using holdsD [OF finalizeMessage_holds] by blast

lemma broadcast_inv:
  assumes "node_inv good addrs past c" "m_Code msg \<noteq> MsgCommit"
  shows "holds (node_inv good addrs past) (broadcast be c msg)"
  unfolding broadcast_def
proof (simp, rule holds_read)
  fix payload assume *: "finalizeMessage be c msg = Some payload"
  have "node_inv good addrs past (emit (Broadcast m) c)" if "payload = Inr m" for m
    using assms finalizeMessage_eq [of be c msg m] * that by (intro emit_inv) simp_all
  then show "holds (node_inv good addrs past)
      (case payload of Inl _ \<Rightarrow> Some c | Inr msg \<Rightarrow> c_valSet c \<bind> (\<lambda>_. Some (emit (Broadcast msg) c)))"
    using assms(1) by (auto split: sum.split intro: holds_read)
qed

text \<open>The one place that sends a COMMIT: the height grows.\<close>
lemma sendCommit_inv:
  assumes inv: "node_inv good addrs past c"
  shows "holds (node_inv good addrs past) (sendCommit be c)"
proof -
  have "node_inv good addrs past (emit (Broadcast m) (c\<lparr>c_commitHeight := height sub\<rparr>))"
    if lt: "c_commitHeight c < height sub" and m: "is_commit m sub" "m_Address m = c_address c" for m sub
  proof -
    have "\<forall>x\<in>set (sent_commits (c_out c)). height x < height sub"
      using inv lt unfolding node_inv_def out_inv_def by (meson le_less_trans)
    then show ?thesis
      using inv m unfolding node_inv_def out_inv_def round_inv_def backlog_inv_def is_commit_def
      by (auto simp: emit_def sorted_wrt_append less_imp_le)
  qed
  moreover have "node_inv good addrs past (c\<lparr>c_commitHeight := height sub\<rparr>)" if "c_commitHeight c < height sub" for sub
    using inv that unfolding node_inv_def out_inv_def round_inv_def backlog_inv_def by (auto intro: order_trans)
  ultimately show ?thesis
    using inv unfolding sendCommit_def broadcastCommit_def broadcast_def
    by (auto simp: Let_def not_le height_def [symmetric] newMessage_def is_commit_def
      split: sum.split intro!: holds_read dest!: finalizeMessage_eq)
qed

lemma sendPreprepare_inv: "node_inv good addrs past c \<Longrightarrow> holds (node_inv good addrs past) (sendPreprepare be c p)"
  by (simp add: sendPreprepare_def Let_def broadcast_inv)

lemma sendPrepare_inv: "node_inv good addrs past c \<Longrightarrow> holds (node_inv good addrs past) (sendPrepare be c)"
  by (simp add: sendPrepare_def broadcast_inv)

lemma newRoundChangeTimer_inv: "node_inv good addrs past c \<Longrightarrow> holds (node_inv good addrs past) (newRoundChangeTimer be c)"
  by (auto simp: newRoundChangeTimer_def intro!: holds_read emit_inv)

lemma after_trans:
  "\<lbrakk>after pv v; vw_Sequence v < vw_Sequence w \<or> (vw_Sequence v = vw_Sequence w \<and> vw_Round v \<le> vw_Round w)\<rbrakk> \<Longrightarrow> after pv w"
  by (cases pv) (auto simp: after_def)

text \<open>A round state made anew has no COMMITs.\<close>
lemma new_round_inv:
  assumes "out_inv good addrs past c" "backlog_inv good c" "ds_ListAll valSet = addrs (vw_Sequence view)"
    "pred_option (\<lambda>vs. ds_ListAll vs = addrs (vw_Sequence view)) (c_valSet c)" "after (snd (snd past)) view"
  shows "node_inv good addrs past (updateRoundState be c view valSet rc)" "no_commits (updateRoundState be c view valSet rc)"
  using assms
  by (auto simp: updateRoundState_def newRoundState_def newMessageSet_def node_inv_def out_inv_def round_inv_def
    backlog_inv_def commits_inv_def no_commits_def rs_view_def after_def split: option.splits bool.splits)

lemma catchUpRound_inv:
  assumes inv: "node_inv good addrs past c" 
    and seq: "pred_option (\<lambda>s. vw_Sequence view = rs_sequence s \<and> rs_round s \<le> vw_Round view) (c_current c)"
  shows "holds (node_inv good addrs past) (catchUpRound be c view)"
proof -
  let ?c = "c\<lparr>c_waitingForRoundChange := True\<rparr>"
  have "node_inv good addrs past (updateRoundState be ?c view valSet True)"
    if "c_current c = Some s" "c_valSet c = Some valSet" for s valSet
  proof (rule new_round_inv(1))
    show "ds_ListAll valSet = addrs (vw_Sequence view)"
      "pred_option (\<lambda>vs. ds_ListAll vs = addrs (vw_Sequence view)) (c_valSet ?c)"
      "after (snd (snd past)) view"
      using inv seq that after_trans [of "snd (snd past)" "rs_view s" view]
      by (simp_all add: node_inv_def round_inv_def rs_view_def)
  qed (use inv in \<open>simp_all add: node_inv_def out_inv_def backlog_inv_def\<close>)
  then show ?thesis
    unfolding catchUpRound_def by (simp add: Let_def) (rule newRoundChangeTimer_inv holds_read | simp)+
qed

lemma sendRoundChange_inv:
  assumes inv: "node_inv good addrs past c"
  shows "holds (node_inv good addrs past) (sendRoundChange be c r)"
  unfolding sendRoundChange_def
proof (rule holds_bind_read)
  fix cv assume cv: "currentView c = Some cv"
  have up: "holds (node_inv good addrs past) (catchUpRound be c \<lparr>vw_Round = r, vw_Sequence = vw_Sequence cv\<rparr>)"
    if "\<not> Cmp_int (vw_Round cv) r \<ge> 0"
    using cv that by (intro catchUpRound_inv inv) (auto simp: currentView_def Cmp_int_def split: if_splits)
  have "holds (node_inv good addrs past) (catchUpRound be c \<lparr>vw_Round = r, vw_Sequence = vw_Sequence cv\<rparr> \<bind>
      (\<lambda>c. currentView c \<bind> (\<lambda>cv. broadcast be c (newMessage MsgRoundChange (EncSubject \<lparr>sub_View = cv, sub_Digest = 0\<rparr>)))))"
    if "\<not> Cmp_int (vw_Round cv) r \<ge> 0"
    by (rule holds_then [OF up [OF that]]) (auto intro!: holds_bind_read broadcast_inv simp del: holds_simps)
  then show "holds (node_inv good addrs past)
      (if Cmp_int (vw_Round cv) r \<ge> 0 then Some c
       else catchUpRound be c \<lparr>vw_Round = r, vw_Sequence = vw_Sequence cv\<rparr> \<bind>
        (\<lambda>c. currentView c \<bind> (\<lambda>cv. broadcast be c (newMessage MsgRoundChange (EncSubject \<lparr>sub_View = cv, sub_Digest = 0\<rparr>)))))"
    using inv by simp
qed

lemma sendNextRoundChange_inv: "node_inv good addrs past c \<Longrightarrow> holds (node_inv good addrs past) (sendNextRoundChange be c)"
  by (simp add: sendNextRoundChange_def sendRoundChange_inv)

lemma ds_CalcProposer_ListAll [simp]: "ds_ListAll (ds_CalcProposer vs p r) = ds_ListAll vs"
  by (simp add: ds_CalcProposer_def ds_ListAll_def)

lemma enterRound_inv:
  assumes "out_inv good addrs past c" "backlog_inv good c" "ds_ListAll valSet = addrs (vw_Sequence view)"
    "c_valSet c = Some valSet" "after (snd (snd past)) view"
  shows "holds (node_inv good addrs past) (enterRound be c valSet view rc lastProposer)"
proof -
  define c1 where "c1 = updateRoundState be (c\<lparr>c_roundChangeSet := Some (newRoundChangeSet valSet)\<rparr>) view valSet rc"
  define c2 where "c2 = c1\<lparr>c_valSet := Some (ds_CalcProposer valSet lastProposer (Uint64 (vw_Round view)))\<rparr>"
  have "node_inv good addrs past c1" "no_commits c1"
    unfolding c1_def using assms by (auto intro!: new_round_inv simp: out_inv_def backlog_inv_def)
  moreover have "c_valSet c1 = Some valSet"
    using assms(4) by (auto simp: c1_def updateRoundState_def split: option.splits bool.splits)
  ultimately have c2: "node_inv good addrs past c2" "no_commits c2"
    by (cases "c_current c1"; simp add: c2_def node_inv_def out_inv_def round_inv_def backlog_inv_def no_commits_def)+
  let ?c = "c2\<lparr>c_waitingForRoundChange := False\<rparr>"
  have set: "holds (node_inv good addrs past) (setState be ?c StateAcceptRequest)"
    using c2 by (intro holds_mono [OF setState_inv [of good addrs past]]) (auto simp: no_commits_def)
  have propose: "holds (node_inv good addrs past)
      (if rc \<and> IsProposer c then
         if rs_IsHashLocked (be_HasBadProposal be) s then rs_Proposal s \<bind> sendPreprepare be c
         else (case rs_pendingRequest s of Some p \<Rightarrow> sendPreprepare be c p | None \<Rightarrow> Some c)
       else Some c)" if "node_inv good addrs past c" for c s
    using that by (simp add: sendPreprepare_inv split: option.split)
  show ?thesis
    unfolding enterRound_def Let_def c1_def [symmetric] c2_def [symmetric]
    by (rule holds_bind_read, rule holds_then [OF set], rule holds_bind_read, rule holds_then [OF propose],
      assumption, erule newRoundChangeTimer_inv)
qed

text \<open>The backend gives the validators of the height after the last block.\<close>
definition validators_ok :: "(int \<Rightarrow> address list) \<Rightarrow> backend \<Rightarrow> bool" where
  "validators_ok addrs be \<longleftrightarrow>
    (case fst (be_LastProposal be) of
       None \<Rightarrow> True
     | Some p \<Rightarrow> pred_option (\<lambda>vs. ds_ListAll vs = addrs (p_Number p + 1)) (be_Validators be p))"

declare option.pred_inject [code]

lemma startNewRound_inv:
  assumes inv: "node_inv good addrs past c" and vals: "validators_ok addrs be"
  shows "holds (node_inv good addrs past) (startNewRound be c r)"
  unfolding startNewRound_def
proof (rule holds_bind_read)
  fix p assume p: "fst (be_LastProposal be) = Some p"
  have same: "holds (node_inv good addrs past)
      (c_current c \<bind> (\<lambda>s. c_valSet c \<bind> (\<lambda>valSet.
        enterRound be c valSet \<lparr>vw_Round = r, vw_Sequence = rs_sequence s\<rparr> True (snd (be_LastProposal be)))))"
    if "startNewRound_case c r p = Some True"
  proof (intro holds_bind_read enterRound_inv)
    fix s valSet assume s: "c_current c = Some s" "c_valSet c = Some valSet"
    then have "rs_round s \<le> r"
      using that by (auto simp: startNewRound_case_def Cmp_int_def split: if_splits)
    then show "after (snd (snd past)) \<lparr>vw_Round = r, vw_Sequence = rs_sequence s\<rparr>"
      using inv s after_trans [of "snd (snd past)" "rs_view s"] by (auto simp: node_inv_def round_inv_def rs_view_def)
  qed (use inv in \<open>auto simp: node_inv_def round_inv_def\<close>)
  have none: "node_inv good addrs past (c\<lparr>c_valSet := None\<rparr>)"
    using inv by (cases "c_current c") (auto simp: node_inv_def out_inv_def round_inv_def backlog_inv_def)
  have fresh: "holds (node_inv good addrs past) (enterRound be (pruneAddrs (c\<lparr>c_valSet := Some valSet\<rparr>)) valSet
      \<lparr>vw_Round = 0, vw_Sequence = p_Number p + 1\<rparr> False (snd (be_LastProposal be)))"
    if "be_Validators be p = Some valSet" "startNewRound_case c r p = Some False" for valSet
  proof -
    have "after (snd (snd past)) \<lparr>vw_Round = 0, vw_Sequence = p_Number p + 1\<rparr>"
    proof (cases "c_current c")
      case None
      then show ?thesis using inv by (simp add: node_inv_def round_inv_def after_def)
    next
      case (Some s)
      then have "rs_sequence s < p_Number p + 1"
        using that(2) by (auto simp: startNewRound_case_def Cmp_int_def split: if_splits)
      then show ?thesis
        using Some inv after_trans [of "snd (snd past)" "rs_view s"] by (auto simp: node_inv_def round_inv_def rs_view_def)
    qed
    moreover
    obtain ov where ov: "pruneAddrs (c\<lparr>c_valSet := Some valSet\<rparr>) = c\<lparr>c_valSet := Some valSet, c_onlineValidator := ov\<rparr>"
      using pruneAddrs_eq by blast
    ultimately show ?thesis
      unfolding ov using inv vals that p
      by (intro enterRound_inv) (simp_all add: node_inv_def out_inv_def backlog_inv_def validators_ok_def)
  qed
  show "holds (node_inv good addrs past) (let lastProposer = snd (be_LastProposal be) in
      case startNewRound_case c r p of
        None \<Rightarrow> Some c
      | Some True \<Rightarrow> c_current c \<bind> (\<lambda>s. c_valSet c \<bind> (\<lambda>valSet.
          enterRound be c valSet \<lparr>vw_Round = r, vw_Sequence = rs_sequence s\<rparr> True lastProposer))
      | Some False \<Rightarrow> (case be_Validators be p of None \<Rightarrow> Some (c\<lparr>c_valSet := None\<rparr>)
          | Some valSet \<Rightarrow> enterRound be (pruneAddrs (c\<lparr>c_valSet := Some valSet\<rparr>)) valSet
              \<lparr>vw_Round = 0, vw_Sequence = p_Number p + 1\<rparr> False lastProposer))"
    using same none fresh inv by (auto simp: Let_def simp del: holds_simps(3) split: option.split bool.split)
qed

subsection \<open>Handlers\<close>

text \<open>What the round part of the invariant reads of the round state.\<close>
lemma set_current_inv:
  assumes "node_inv good addrs past c" "c_current c = Some s" "rs_Commits s' = rs_Commits s"
    "rs_view s' = rs_view s" "rs_Subject s' = rs_Subject s \<or> c_state c = StateAcceptRequest"
  shows "node_inv good addrs past (c\<lparr>c_current := Some s'\<rparr>)"
  using assms by (auto simp: node_inv_def out_inv_def round_inv_def backlog_inv_def commits_inv_def rs_view_def)

lemma handleRequest_inv:
  assumes inv: "node_inv good addrs past c"
  shows "holds (\<lambda>(_, c). node_inv good addrs past c) (handleRequest be c request)"
proof -
  have "node_inv good addrs past (c\<lparr>c_current := Some (s\<lparr>rs_pendingRequest := p\<rparr>)\<rparr>)" if "c_current c = Some s" for s p
    by (rule set_current_inv [OF inv that]) (simp_all add: rs_Subject_def rs_view_def)
  then show ?thesis
    unfolding handleRequest_def Let_def
    by (intro holds_bind_read) (auto simp: inv sendPreprepare_inv split: sum.split option.split)
qed

abbreviation kept :: "(Message \<Rightarrow> bool) \<Rightarrow> (int \<Rightarrow> address list) \<Rightarrow> past \<Rightarrow> unit result \<times> core \<Rightarrow> bool" where
  "kept good addrs past r \<equiv> node_inv good addrs past (snd r)"

lemma holds_result: "holds (node_inv good addrs past) m \<Longrightarrow> holds (kept good addrs past) (m \<bind> (\<lambda>c. Some (r, c)))"
  by (erule holds_then) simp

text \<open>A PRE-PREPARE is accepted while no COMMIT has been collected; then the state moves on.\<close>
lemma acceptPreprepare_inv:
  assumes inv: "node_inv good addrs past c" and st: "c_state c = StateAcceptRequest" "st \<noteq> StateAcceptRequest"
    and f: "\<And>c. node_inv good addrs past c \<Longrightarrow> holds (node_inv good addrs past) (f c)"
  shows "holds (node_inv good addrs past) (acceptPreprepare c pre \<bind> (\<lambda>c. setState be c st \<bind> f))"
proof -
  have "holds (node_inv good addrs past) (acceptPreprepare c pre)"
    unfolding acceptPreprepare_def
    by (rule holds_bind_read) (simp add: set_current_inv [OF inv] rs_SetPreprepare_def rs_view_def st)
  then show ?thesis
    using st(2) by (elim holds_then) (intro holds_then [OF setState_inv], auto intro: f)
qed

lemma handlePreprepare_inv:
  assumes inv: "node_inv good addrs past c" and good: "good msg"
  shows "holds (kept good addrs past) (handlePreprepare be c msg src)"
proof (cases "decodePreprepare (m_Msg msg)")
  case (Some pre)
  define c1 where "c1 = PutAddr c (Uint64 (vw_Sequence (pre_View pre))) (m_Address msg)"
  have inv1: "node_inv good addrs past c1" using inv by (simp add: c1_def)
  have later: "node_inv good addrs past (emit (PostBacklogAfter src msg) c1)" using inv1 good by (intro emit_inv) simp_all
  have locked: "holds (node_inv good addrs past) (acceptPreprepare c1 pre \<bind> (\<lambda>c. setState be c StatePrepared \<bind> sendCommit be))"
    if "c_state c1 = StateAcceptRequest"
    by (rule acceptPreprepare_inv [OF inv1 that]) (simp_all add: sendCommit_inv)
  have fresh: "holds (node_inv good addrs past) (acceptPreprepare c1 pre \<bind> (\<lambda>c. setState be c StatePreprepared \<bind> sendPrepare be))"
    if "c_state c1 = StateAcceptRequest"
    by (rule acceptPreprepare_inv [OF inv1 that]) (simp_all add: sendPrepare_inv)
  show ?thesis
    unfolding handlePreprepare_def Some option.case Let_def c1_def [symmetric]
    using inv1 later locked fresh sendNextRoundChange_inv [OF inv1, of be]
    by (intro holds_bind_read) (auto simp del: holds_simps(3) intro!: holds_bind_read holds_result split: sum.split)
qed (simp add: handlePreprepare_def inv)

lemma rs_LockHash_frame [simp]:
  "rs_Commits (rs_LockHash s) = rs_Commits s" "rs_sequence (rs_LockHash s) = rs_sequence s"
  "rs_round (rs_LockHash s) = rs_round s" "rs_Preprepare (rs_LockHash s) = rs_Preprepare s"
  by (simp_all add: rs_LockHash_def split: option.split)

lemma acceptPrepare_frame [simp]:
  "rs_Commits (snd (acceptPrepare s msg)) = rs_Commits s" "rs_sequence (snd (acceptPrepare s msg)) = rs_sequence s"
  "rs_round (snd (acceptPrepare s msg)) = rs_round s" "rs_Preprepare (snd (acceptPrepare s msg)) = rs_Preprepare s"
  by (simp_all add: acceptPrepare_def split: prod.split)

lemma handlePrepare_inv:
  assumes inv: "node_inv good addrs past c"
  shows "holds (kept good addrs past) (handlePrepare be c msg src)"
proof (cases "decodeSubject (m_Msg msg)")
  case (Some sub)
  define c1 where "c1 = PutAddr c (Uint64 (vw_Sequence (sub_View sub))) (m_Address msg)"
  have inv1: "node_inv good addrs past c1" using inv by (simp add: c1_def)
  have accept: "node_inv good addrs past (c1\<lparr>c_current := Some (snd (acceptPrepare s msg))\<rparr>)"
      "node_inv good addrs past (c1\<lparr>c_current := Some (rs_LockHash (snd (acceptPrepare s msg)))\<rparr>)"
    if "c_current c1 = Some s" for s
    by (rule set_current_inv [OF inv1 that]; simp add: rs_Subject_def rs_view_def)+
  have prepared: "holds (node_inv good addrs past)
      (setState be (c1\<lparr>c_current := Some (rs_LockHash (snd (acceptPrepare s msg)))\<rparr>) StatePrepared \<bind> sendCommit be)"
    if "c_current c1 = Some s" for s
    by (rule holds_then [OF setState_inv [OF accept(2) [OF that]]]) (simp_all add: sendCommit_inv)
  show ?thesis
    unfolding handlePrepare_def Some option.case Let_def c1_def [symmetric]
    using inv1 accept prepared
    by (intro holds_bind_read) (auto simp del: holds_simps(3) intro!: holds_bind_read holds_result split: sum.split)
qed (simp add: handlePrepare_def inv)

subsection \<open>Collecting COMMITs\<close>

lemma AList_update_distinct: "distinct (map fst xs) \<Longrightarrow> distinct (map fst (AList.update k v xs))"
  by (rule distinct_update)

lemma acceptCommit_frame [simp]:
  "rs_sequence (snd (acceptCommit s msg)) = rs_sequence s" "rs_round (snd (acceptCommit s msg)) = rs_round s"
  "rs_Preprepare (snd (acceptCommit s msg)) = rs_Preprepare s" "rs_Subject (snd (acceptCommit s msg)) = rs_Subject s"
  "ms_valSet (rs_Commits (snd (acceptCommit s msg))) = ms_valSet (rs_Commits s)"
  by (simp_all add: acceptCommit_def ms_Add_def addVerifiedMessage_def rs_Subject_def split: prod.split sum.split)

lemma acceptCommit_inv:
  assumes "commits_inv good s" "good msg" "m_Code msg = MsgCommit" "decodeSubject (m_Msg msg) = Some sub"
    "rs_Subject s = Some sub"
  shows "commits_inv good (snd (acceptCommit s msg))"
proof (cases "ms_verify (rs_Commits s) msg")
  case (Inr u)
  then have "m_Address msg \<in> set (ds_ListAll (ms_valSet (rs_Commits s)))"
    using ds_GetByAddress_None [of "ms_valSet (rs_Commits s)" "m_Address msg"]
    by (auto simp: ms_verify_def split: option.splits)
  then show ?thesis
    using assms Inr
    by (auto simp: acceptCommit_def ms_Add_def addVerifiedMessage_def commits_inv_def Let_def AList_update_distinct rs_Subject_def
      dest!: update_in)
qed (use assms in \<open>simp add: acceptCommit_def ms_Add_def commits_inv_def rs_Subject_def\<close>)

text \<open>The COMMITs of a quorum certify the subject.\<close>
lemma commits_certify:
  assumes inv: "commits_inv good s" and vals: "ds_ListAll (ms_valSet (rs_Commits s)) = addrs (rs_sequence s)"
    and sub: "rs_Subject s = Some sub" and size: "int (ms_Size (rs_Commits s)) \<ge> quorum (length (addrs (rs_sequence s)))"
  shows "certified good addrs sub"
proof -
  let ?S = "set (map fst (ms_messages (rs_Commits s)))"
  have "card ?S = ms_Size (rs_Commits s)"
    using inv unfolding commits_inv_def Let_def ms_Size_def by (subst distinct_card) simp_all
  moreover have "?S \<subseteq> set (addrs (rs_sequence s))" using inv vals by (auto simp: commits_inv_def Let_def)
  moreover have "\<forall>a\<in>?S. \<exists>m. good m \<and> m_Address m = a \<and> is_commit m sub"
    using inv sub by (fastforce simp: commits_inv_def Let_def is_commit_def)
  moreover have "vw_Sequence (sub_View sub) = rs_sequence s" using sub by (auto simp: rs_Subject_def)
  ultimately show ?thesis unfolding certified_def Let_def using size by metis
qed

lemma QuorumSize_quorum: "QuorumSize vs = quorum (length (ds_ListAll vs))"
  by (simp add: QuorumSize_def quorum_def ds_F_def ds_ListAll_def ds_Size_def)

lemma commit_inv:
  assumes inv: "node_inv good addrs past c" and s: "c_current c = Some s"
    and size: "int (ms_Size (rs_Commits s)) \<ge> quorum (length (addrs (rs_sequence s)))"
  shows "holds (node_inv good addrs past) (commit be c)"
  unfolding commit_def
proof (rule holds_then [OF setState_inv [OF inv]])
  fix c' assume c': "node_inv good addrs past c' \<and> still (c\<lparr>c_state := StateCommitted\<rparr>) c'"
  then have s': "c_current c' = Some s" using s by (simp add: still_def)
  have "certified good addrs \<lparr>sub_View = view, sub_Digest = p_Hash p\<rparr>"
    if "rs_Proposal s = Some p" "currentView c' = Some view" for p view
    using that c' s' size
    by (intro commits_certify [of good s]) (auto simp: node_inv_def round_inv_def rs_Subject_def rs_Proposal_def currentView_def)
  moreover have "after (snd (snd past)) view" if "currentView c' = Some view" for view
    using that c' s' by (auto simp: node_inv_def round_inv_def currentView_def rs_view_def)
  ultimately have ok: "node_inv good addrs past (emit (CommitBlock view p seals) c')"
    if "rs_Proposal s = Some p" "currentView c' = Some view" for p view seals
    using that c' by (intro emit_inv) simp_all
  have "node_inv good addrs past ((emit (CommitBlock view p seals) c')\<lparr>c_current := Some (rs_UnlockHash s)\<rparr>)"
    if "rs_Proposal s = Some p" "currentView c' = Some view" for p view seals
    by (rule set_current_inv [where s = s, OF ok [OF that]]) (simp_all add: s' rs_UnlockHash_def rs_Subject_def rs_view_def)
  then show "holds (node_inv good addrs past)
      (c_current c' \<bind> (\<lambda>s. case rs_Proposal s of None \<Rightarrow> Some c' | Some proposal \<Rightarrow>
        (let committedSeals = map committedSeal (ms_Values (rs_Commits s)) in
         currentView c' \<bind> (\<lambda>view. let c = emit (CommitBlock view proposal committedSeals) c' in
           proposer_address c \<bind> (\<lambda>_. case be_Commit be proposal committedSeals of
             Inr _ \<Rightarrow> Some c | Inl _ \<Rightarrow> sendNextRoundChange be (c\<lparr>c_current := Some (rs_UnlockHash s)\<rparr>))))))"
    using ok c' s'
    by (auto simp: Let_def simp del: holds_simps(3) intro!: holds_bind_read sendNextRoundChange_inv split: option.split sum.split)
qed simp

lemma handleCommit_inv:
  assumes inv: "node_inv good addrs past c" and msg: "good msg" "m_Code msg = MsgCommit"
  shows "holds (kept good addrs past) (handleCommit be c msg src)"
proof (cases "decodeSubject (m_Msg msg)")
  case (Some sub)
  define c1 where "c1 = PutAddr c (Uint64 (vw_Sequence (sub_View sub))) (m_Address msg)"
  have inv1: "node_inv good addrs past c1" using inv by (simp add: c1_def)
  let ?s = "\<lambda>s. snd (acceptCommit s msg)"
  have accept: "node_inv good addrs past (c1\<lparr>c_current := Some (?s s)\<rparr>)"
      "node_inv good addrs past (c1\<lparr>c_current := Some (rs_LockHash (?s s))\<rparr>)"
    if "c_current c1 = Some s" "checkMessage c1 MsgCommit v = Some (Inr ())" "rs_Subject s = Some sub" for s v
  proof -
    have "c_state c1 \<noteq> StateAcceptRequest"
      using that(2) by (auto simp: checkMessage_def msg_code_defs bind_eq_Some_conv split: if_splits)
    then show "node_inv good addrs past (c1\<lparr>c_current := Some (?s s)\<rparr>)"
      using inv1 that acceptCommit_inv [of good s msg sub] msg Some
      by (simp add: node_inv_def out_inv_def round_inv_def backlog_inv_def rs_view_def)
    from set_current_inv [OF this, of "?s s" "rs_LockHash (?s s)"]
    show "node_inv good addrs past (c1\<lparr>c_current := Some (rs_LockHash (?s s))\<rparr>)" by (simp add: rs_Subject_def rs_view_def)
  qed
  have enough: "holds (node_inv good addrs past) (commit be (c1\<lparr>c_current := Some (rs_LockHash (?s s))\<rparr>))"
    if "c_current c1 = Some s" "checkMessage c1 MsgCommit v = Some (Inr ())" "rs_Subject s = Some sub"
      "c_valSet c1 = Some vs" "QuorumSize vs \<le> int (ms_Size (rs_Commits (?s s)))" for s v vs
    using that inv1 accept(2) [OF that(1-3)]
    by (intro commit_inv [of good addrs past _ "rs_LockHash (?s s)"]) (auto simp: QuorumSize_quorum node_inv_def round_inv_def)
  show ?thesis
    unfolding handleCommit_def Some option.case Let_def c1_def [symmetric]
    using inv1 accept enough
    by (intro holds_bind_read)
      (auto simp: verifyCommit_def simp del: holds_simps(3) intro!: holds_bind_read holds_result split: sum.split if_splits)
qed (use inv in \<open>auto simp: handleCommit_def simp del: holds_simps(3) intro!: holds_bind_read\<close>)

lemma handleRoundChange_inv:
  assumes inv: "node_inv good addrs past c" and vals: "validators_ok addrs be"
  shows "holds (kept good addrs past) (handleRoundChange be c msg src)"
  unfolding handleRoundChange_def Let_def using inv vals
  by (auto simp: sendRoundChange_inv startNewRound_inv simp del: holds_simps(3)
    intro!: holds_bind_read holds_result split: option.split sum.split prod.split)

lemma testBacklog_inv: "\<lbrakk>kept good addrs past r; good msg\<rbrakk> \<Longrightarrow> kept good addrs past (testBacklog msg src r)"
  by (simp add: testBacklog_def storeBacklog_inv)

lemma handleCheckedMsg_inv:
  assumes "node_inv good addrs past c" "validators_ok addrs be" "good msg"
  shows "holds (kept good addrs past) (handleCheckedMsg be c msg src)"
  unfolding handleCheckedMsg_def using assms
  by (auto intro: holds_mono [OF handlePreprepare_inv] holds_mono [OF handlePrepare_inv] holds_mono [OF handleCommit_inv]
    holds_mono [OF handleRoundChange_inv] testBacklog_inv)

lemma simpleCheck_inv:
  "node_inv good addrs past c \<Longrightarrow> kept good addrs past (simpleCheckPreprepare be c msg)"
  "node_inv good addrs past c \<Longrightarrow> kept good addrs past (simpleCheckSubject be c msg)"
  by (simp_all add: simpleCheckPreprepare_def simpleCheckSubject_def split: option.split)

lemma gossip_inv: "kept good addrs past r \<Longrightarrow> holds (node_inv good addrs past) (gossip payload r)"
  unfolding gossip_def by (auto simp: emit_inv simp del: holds_simps(3) intro!: holds_bind_read split: prod.split sum.split)

lemma handleTimeoutMsg_inv:
  "\<lbrakk>node_inv good addrs past c; validators_ok addrs be\<rbrakk> \<Longrightarrow> holds (node_inv good addrs past) (handleTimeoutMsg be c)"
  unfolding handleTimeoutMsg_def
  by (rule holds_bind_read) (auto simp: sendRoundChange_inv sendNextRoundChange_inv startNewRound_inv simp del: holds_simps(3)
    intro!: holds_bind_read split: option.split)

lemma handleFinalCommitted_inv:
  "\<lbrakk>node_inv good addrs past c; validators_ok addrs be\<rbrakk> \<Longrightarrow> holds (node_inv good addrs past) (handleFinalCommitted be c)"
  unfolding handleFinalCommitted_def
  by (rule holds_bind_read) (simp add: emit_inv startNewRound_inv)

text \<open>What is known of the message of an event: it was signed, or posted by the node itself.\<close>
fun event_ok :: "(Message \<Rightarrow> bool) \<Rightarrow> backend \<Rightarrow> core \<Rightarrow> event \<Rightarrow> bool" where
  "event_ok good be c (MessageEvent payload) =
    (\<forall>vs m. c_valSet c = Some vs \<longrightarrow> FromPayload be vs payload = Inr m \<longrightarrow> good m)"
| "event_ok good be c (BacklogEvent src msg) =
    (PostBacklog src msg \<in> set (c_out c) \<or> PostBacklogAfter src msg \<in> set (c_out c))"
| "event_ok good be c _ = True"

lemma posted_good:
  "\<lbrakk>node_inv good addrs past c; PostBacklog src msg \<in> set (c_out c) \<or> PostBacklogAfter src msg \<in> set (c_out c)\<rbrakk> \<Longrightarrow> good msg"
  by (auto simp: node_inv_def out_inv_def list_all_iff)

lemma handleEvent_inv:
  assumes inv: "node_inv good addrs past c" and vals: "validators_ok addrs be" and ok: "event_ok good be c ev"
  shows "holds (node_inv good addrs past) (handleEvent be c ev)"
proof (cases ev)
  case (RequestEvent p)
  then show ?thesis
    using inv by (auto simp: storeRequestMsg_def split: option.split intro!: holds_mono [OF handleRequest_inv])
next
  case (MessageEvent payload)
  have "holds (kept good addrs past) (handleMsg be c vs payload)" "kept good addrs past (checkMsgSeq be c vs payload)"
    if "c_valSet c = Some vs" for vs
    using inv vals ok that MessageEvent simpleCheck_inv [OF inv]
    by (auto simp: handleMsg_def checkMsgSeq_def handleCheckedMsg_inv split: sum.split option.split)
  then show ?thesis
    unfolding MessageEvent using inv
    by (auto simp del: holds_simps(3) intro: gossip_inv holds_then split: option.split)
next
  case (BacklogEvent src msg)
  then have "good msg" using ok posted_good [OF inv] by simp
  with BacklogEvent show ?thesis
    using inv handleCheckedMsg_inv [OF inv vals]
    by (auto simp del: holds_simps(3) intro: gossip_inv holds_then split: option.split)
qed (use assms in \<open>simp_all add: startNewRound_inv handleTimeoutMsg_inv handleFinalCommitted_inv\<close>)

subsection \<open>More good messages\<close>

lemma node_inv_mono:
  assumes "node_inv good addrs past c" and mono: "\<And>m. good m \<Longrightarrow> good' m"
  shows "node_inv good' addrs past c"
proof -
  have cert: "certified good' addrs sub" if "certified good addrs sub" for sub
    using that mono unfolding certified_def Let_def by meson
  have "effect_ok good' addrs self e" if "effect_ok good addrs self e" for self e
    using that by (cases e) (simp_all add: cert mono)
  then have out: "out_inv good' addrs past c" if "out_inv good addrs past c"
    using that unfolding out_inv_def list_all_iff by blast
  have commits: "commits_inv good' s" if "commits_inv good s" for s
    using that unfolding commits_inv_def Let_def by (auto intro: mono)
  then have "round_ok good' addrs pv st vs s" if "round_ok good addrs pv st vs s" for pv st vs s
    using that by (cases s) simp_all
  moreover have "good_queue good' q" if "good_queue good q" for q
    using that mono by (simp add: good_queue_def)
  then have "backlog_inv good' c" if "backlog_inv good c"
    using that unfolding backlog_inv_def by blast
  ultimately show ?thesis
    using assms(1) out by (simp add: node_inv_def round_inv_def)
qed

end
