(* ===== verification/Ibft_Network.thy ===== *)
theory Ibft_Network
  imports Ibft_Safety
begin

text \<open>
  A network of Istanbul BFT nodes.  The honest nodes run the handlers of \<open>Ibft_Core\<close> on events in
  any order, with any answers of their backends; the other validators, the clocks and the network
  are free.  A message with the valid signature of an honest node was sent by it, and all nodes
  take the validators of a height from the same list.  An honest node keeps its memory: one that
  restarts, and forgets the height of its last COMMIT, counts as faulty.
\<close>

subsection \<open>Runs\<close>

type_synonym network = "address \<Rightarrow> core"

text \<open>A message of an honest node repeats the code and the body of one it sent.\<close>
definition sent_by_honest :: "address set \<Rightarrow> network \<Rightarrow> Message \<Rightarrow> bool" where
  "sent_by_honest honest N m \<longleftrightarrow>
    (m_Address m \<in> honest \<longrightarrow>
     (\<exists>m'. Broadcast m' \<in> set (c_out (N (m_Address m))) \<and> m_Code m' = m_Code m \<and> m_Msg m' = m_Msg m))"

inductive net_step :: "(int \<Rightarrow> address list) \<Rightarrow> address set \<Rightarrow> network \<Rightarrow> network \<Rightarrow> bool" for addrs honest where
  handle: "\<lbrakk>a \<in> honest; validators_ok addrs be; event_ok (sent_by_honest honest N) be (N a) ev;
    handleEvent be (N a) ev = Some c\<rbrakk> \<Longrightarrow> net_step addrs honest N (N(a := c))"

definition reachable :: "(int \<Rightarrow> address list) \<Rightarrow> address set \<Rightarrow> network \<Rightarrow> bool" where
  "reachable addrs honest N \<longleftrightarrow> (net_step addrs honest)\<^sup>*\<^sup>* NewCore N"

inductive_cases net_stepE: "net_step addrs honest N N'"

definition net_inv :: "(int \<Rightarrow> address list) \<Rightarrow> address set \<Rightarrow> (address \<Rightarrow> past) \<Rightarrow> network \<Rightarrow> bool" where
  "net_inv addrs honest past N \<longleftrightarrow>
    (\<forall>a\<in>honest. fst (past a) = a \<and> node_inv (sent_by_honest honest N) addrs (past a) (N a))"

text \<open>The present may be taken as the past.\<close>
definition present :: "network \<Rightarrow> address \<Rightarrow> past" where
  "present N a = (a, c_out (N a), currentView (N a))"

lemma node_inv_present:
  "\<lbrakk>node_inv good addrs past c; fst past = a\<rbrakk> \<Longrightarrow> node_inv good addrs (a, c_out c, currentView c) c"
  by (cases "c_current c")
    (auto simp: node_inv_def out_inv_def round_inv_def backlog_inv_def currentView_def after_def rs_view_def)

lemma net_inv_present: "net_inv addrs honest past N \<Longrightarrow> net_inv addrs honest (present N) N"
  unfolding net_inv_def present_def by (auto intro: node_inv_present)

lemma net_step_inv:
  assumes step: "net_step addrs honest N N'" and inv: "net_inv addrs honest past N"
  shows "net_inv addrs honest past N'"
proof -
  let ?good = "sent_by_honest honest N"
  obtain a be ev c where a: "a \<in> honest" "validators_ok addrs be" "event_ok ?good be (N a) ev"
      "handleEvent be (N a) ev = Some c" and N': "N' = N(a := c)"
    using step by (rule net_stepE)
  have next_inv: "node_inv ?good addrs p c" if "node_inv ?good addrs p (N a)" for p
    using holdsD [OF handleEvent_inv [OF that a(2,3)] a(4)] .
  have "node_inv ?good addrs (present N a) (N a)"
    using net_inv_present [OF inv] a(1) by (simp add: net_inv_def)
  from next_inv [OF this] obtain es where "c_out c = c_out (N a) @ es"
    by (auto simp: node_inv_def out_inv_def present_def)
  then have "sent_by_honest honest N' m" if "?good m" for m
    using that by (auto simp: sent_by_honest_def N')
  moreover have "fst (past b) = b \<and> node_inv ?good addrs (past b) (N' b)" if "b \<in> honest" for b
    using inv that next_inv [of "past b"] by (cases "b = a") (auto simp: net_inv_def N')
  ultimately show ?thesis
    unfolding net_inv_def by (metis node_inv_mono)
qed

lemma net_steps_inv:
  "\<lbrakk>(net_step addrs honest)\<^sup>*\<^sup>* N N'; net_inv addrs honest past N\<rbrakk> \<Longrightarrow> net_inv addrs honest past N'"
  by (induction rule: rtranclp_induct) (auto intro: net_step_inv)

lemma reachable_inv: "reachable addrs honest N \<Longrightarrow> net_inv addrs honest (\<lambda>a. (a, [], None)) N"
  unfolding reachable_def by (erule net_steps_inv) (simp add: net_inv_def NewCore_inv)

subsection \<open>One COMMIT per height\<close>

text \<open>An honest member of a certificate sent its COMMIT, and no other at that height.\<close>
lemma honest_commit:
  assumes inv: "net_inv addrs honest past N" and h: "h \<in> honest"
    and m: "sent_by_honest honest N m" "m_Address m = h" "is_commit m sub"
  shows "sub \<in> set (sent_commits (c_out (N h)))"
proof -
  obtain m' where m': "Broadcast m' \<in> set (c_out (N h))" "is_commit m' sub"
    using m h by (auto simp: sent_by_honest_def is_commit_def)
  then have "commit_subject (Broadcast m') = Some sub" by (simp add: is_commit_def)
  with m'(1) show ?thesis unfolding sent_commits_def List.map_filter_def by (force simp del: commit_subject.simps)
qed

lemma one_commit:
  assumes inv: "net_inv addrs honest past N" and h: "h \<in> honest"
    and sub: "sub \<in> set (sent_commits (c_out (N h)))" "sub' \<in> set (sent_commits (c_out (N h)))"
    and same: "vw_Sequence (sub_View sub) = vw_Sequence (sub_View sub')"
  shows "sub = sub'"
proof -
  have "sorted_wrt (<) (map height (sent_commits (c_out (N h))))"
    using inv h by (simp add: net_inv_def node_inv_def out_inv_def)
  then have "distinct (map height (sent_commits (c_out (N h))))"
    by (simp add: strict_sorted_iff)
  then have "inj_on height (set (sent_commits (c_out (N h))))" by (simp add: distinct_map)
  then show ?thesis using sub same by (auto simp: inj_on_def height_def)
qed

lemma CommitBlock_certified:
  "\<lbrakk>net_inv addrs honest past N; a \<in> honest; CommitBlock v p seals \<in> set (c_out (N a))\<rbrakk>
    \<Longrightarrow> certified (sent_by_honest honest N) addrs \<lparr>sub_View = v, sub_Digest = p_Hash p\<rparr>"
proof -
  assume "net_inv addrs honest past N" "a \<in> honest" "CommitBlock v p seals \<in> set (c_out (N a))"
  then have "effect_ok (sent_by_honest honest N) addrs (fst (past a)) (CommitBlock v p seals)"
    unfolding net_inv_def node_inv_def out_inv_def list_all_iff by blast
  then show ?thesis by simp
qed

text \<open>Two sets of validators of a quorum each share more than the rest of the sizes.\<close>
lemma overlap:
  assumes "S \<subseteq> V" "T \<subseteq> V" "finite V"
  shows "card S + card T \<le> card V + card (S \<inter> T)"
  using assms card_Un_Int [of S T] card_mono [of V "S \<union> T"] by (simp add: finite_subset)

lemma certified_agree:
  assumes inv: "net_inv addrs honest past N"
    and cert: "certified (sent_by_honest honest N) addrs sub" "certified (sent_by_honest honest N) addrs sub'"
    and same: "vw_Sequence (sub_View sub) = s" "vw_Sequence (sub_View sub') = s"
    and few: "int (card (set (addrs s) - honest)) < 2 * quorum (length (addrs s)) - int (length (addrs s))"
  shows "sub = sub'"
proof -
  let ?good = "sent_by_honest honest N" and ?V = "set (addrs s)" and ?Q = "quorum (length (addrs s))"
  obtain S where S: "S \<subseteq> ?V" "?Q \<le> int (card S)" "\<forall>a\<in>S. \<exists>m. ?good m \<and> m_Address m = a \<and> is_commit m sub"
    using cert(1) same by (auto simp: certified_def Let_def)
  obtain T where T: "T \<subseteq> ?V" "?Q \<le> int (card T)" "\<forall>a\<in>T. \<exists>m. ?good m \<and> m_Address m = a \<and> is_commit m sub'"
    using cert(2) same by (auto simp: certified_def Let_def)
  have "card S + card T \<le> card ?V + card (S \<inter> T)" using S(1) T(1) by (intro overlap) simp_all
  moreover have "card ?V \<le> length (addrs s)" by (rule card_length)
  ultimately have "card (?V - honest) < card (S \<inter> T)" using S(2) T(2) few by linarith
  then have "\<not> S \<inter> T \<subseteq> ?V - honest" by (metis List.finite_set card_mono finite_Diff not_le)
  then obtain h where h: "h \<in> S" "h \<in> T" "h \<in> honest" using S(1) by auto
  then have "sub \<in> set (sent_commits (c_out (N h)))" "sub' \<in> set (sent_commits (c_out (N h)))"
    using S(3) T(3) honest_commit [OF inv h(3)] by blast+
  then show ?thesis using one_commit [OF inv h(3)] same by simp
qed


subsection \<open>An execution\<close>

fun repeats :: "Message \<Rightarrow> effect \<Rightarrow> bool" where
  "repeats m (Broadcast m') \<longleftrightarrow> m_Code m' = m_Code m \<and> m_Msg m' = m_Msg m"
| "repeats m _ \<longleftrightarrow> False"

lemma repeatsD: "repeats m e \<Longrightarrow> \<exists>m'. e = Broadcast m' \<and> m_Code m' = m_Code m \<and> m_Msg m' = m_Msg m"
  by (cases e) auto

text \<open>A run given by a list of events, with the conditions of a step checked.\<close>
definition message_okb :: "address list \<Rightarrow> network \<Rightarrow> Message \<Rightarrow> bool" where
  "message_okb honest N m \<longleftrightarrow>
    (m_Address m \<in> set honest \<longrightarrow> list_ex (repeats m) (c_out (N (m_Address m))))"

fun event_okb :: "address list \<Rightarrow> network \<Rightarrow> address \<Rightarrow> event \<Rightarrow> bool" where
  "event_okb honest N a (MessageEvent (Inr m)) = message_okb honest N m"
| "event_okb honest N a (BacklogEvent src msg) = False"
| "event_okb honest N a _ = True"

text \<open>The nodes that have acted, by address.\<close>
definition network_of :: "(address \<times> core) list \<Rightarrow> network" where
  "network_of cs a = (case map_of cs a of None \<Rightarrow> NewCore a | Some c \<Rightarrow> c)"

fun run_events :: "backend \<Rightarrow> core \<Rightarrow> event list \<Rightarrow> core option" where
  "run_events be c [] = Some c"
| "run_events be c (ev # evs) = handleEvent be c ev \<bind> (\<lambda>c. run_events be c evs)"

text \<open>One node handles some events in a row.\<close>
definition net_exec :: "(int \<Rightarrow> address list) \<Rightarrow> address list \<Rightarrow> (address \<times> core) list \<Rightarrow>
    address \<times> backend \<times> event list \<Rightarrow> (address \<times> core) list option" where
  "net_exec addrs honest cs x =
    (case x of (a, be, evs) \<Rightarrow>
      if a \<in> set honest \<and> validators_ok addrs be \<and> list_all (event_okb honest (network_of cs) a) evs
      then map_option (\<lambda>c. AList.update a c cs) (run_events be (network_of cs a) evs) else None)"

fun net_run :: "(int \<Rightarrow> address list) \<Rightarrow> address list \<Rightarrow> (address \<times> core) list \<Rightarrow>
    (address \<times> backend \<times> event list) list \<Rightarrow> (address \<times> core) list option" where
  "net_run addrs honest cs [] = Some cs"
| "net_run addrs honest cs (x # xs) = net_exec addrs honest cs x \<bind> (\<lambda>cs. net_run addrs honest cs xs)"

lemma event_okb: "event_okb honest N a ev \<Longrightarrow> event_ok (sent_by_honest (set honest) N) be (N a) ev"
proof (induction honest N a ev rule: event_okb.induct)
  case (1 honest N a m)
  then have "sent_by_honest (set honest) N m"
    by (auto simp: message_okb_def sent_by_honest_def list_ex_iff dest!: repeatsD)
  then show ?case
    by (auto simp: FromPayload_def split: sum.splits if_splits)
qed (auto simp: FromPayload_def)

lemma network_of_update: "network_of (AList.update a c cs) = (network_of cs)(a := c)"
  by (auto simp: network_of_def update_conv' fun_eq_iff)

lemma reachable_step: "\<lbrakk>reachable addrs honest N; net_step addrs honest N N'\<rbrakk> \<Longrightarrow> reachable addrs honest N'"
  unfolding reachable_def by (rule rtranclp.rtrancl_into_rtrancl)

lemma event_okb_mono:
  assumes "event_okb honest N a ev" and "\<And>b. set (c_out (N b)) \<subseteq> set (c_out (N' b))"
  shows "event_okb honest N' a ev"
  using assms by (induction honest N a ev rule: event_okb.induct) (auto simp: message_okb_def list_ex_iff)

lemma run_events_reachable:
  "\<lbrakk>reachable addrs (set honest) N; a \<in> set honest; validators_ok addrs be; list_all (event_okb honest N a) evs;
    run_events be (N a) evs = Some c\<rbrakk> \<Longrightarrow> reachable addrs (set honest) (N(a := c))"
proof (induction evs arbitrary: N)
  case (Cons ev evs)
  obtain c1 where c1: "handleEvent be (N a) ev = Some c1" "run_events be c1 evs = Some c"
    using Cons.prems(5) by (auto simp: bind_eq_Some_conv)
  have step: "net_step addrs (set honest) N (N(a := c1))"
    using Cons.prems c1(1) by (intro net_step.handle event_okb) simp_all
  note inv = net_step_inv [OF step net_inv_present [OF reachable_inv [OF Cons.prems(1)]]]
  then have "node_inv (sent_by_honest (set honest) (N(a := c1))) addrs (present N a) ((N(a := c1)) a)"
    using Cons.prems(2) unfolding net_inv_def by blast
  then obtain es where "c_out c1 = c_out (N a) @ es"
    by (auto simp: node_inv_def out_inv_def present_def)
  then have grows: "set (c_out (N b)) \<subseteq> set (c_out ((N(a := c1)) b))" for b by auto
  have ok: "list_all (event_okb honest (N(a := c1)) a) evs"
    using Cons.prems(4) event_okb_mono [of honest N a _ "N(a := c1)", OF _ grows] unfolding list_all_iff by simp
  from c1(2) have "run_events be ((N(a := c1)) a) evs = Some c" by simp
  from Cons.IH [OF reachable_step [OF Cons.prems(1) step] Cons.prems(2,3) ok this]
  show ?case by (simp only: fun_upd_upd)
qed (auto simp: fun_upd_idem)

lemma net_exec_reachable:
  assumes "net_exec addrs honest cs x = Some cs'" "reachable addrs (set honest) (network_of cs)"
  shows "reachable addrs (set honest) (network_of cs')"
proof -
  obtain a be evs c where *: "a \<in> set honest" "validators_ok addrs be" "list_all (event_okb honest (network_of cs) a) evs"
      "run_events be (network_of cs a) evs = Some c" "cs' = AList.update a c cs"
    using assms(1) by (auto simp: net_exec_def split: prod.splits if_splits)
  show ?thesis
    unfolding *(5) network_of_update by (rule run_events_reachable [OF assms(2) *(1-4)])
qed

lemma net_run_reachable:
  assumes "net_run addrs honest [] xs = Some cs"
  shows "reachable addrs (set honest) (network_of cs)"
proof -
  have "net_run addrs honest cs0 xs = Some cs \<Longrightarrow> reachable addrs (set honest) (network_of cs0) \<Longrightarrow>
      reachable addrs (set honest) (network_of cs)" for cs0
    by (induction xs arbitrary: cs0) (auto simp: bind_eq_Some_conv dest: net_exec_reachable)
  moreover have "network_of [] = NewCore" by (simp add: network_of_def fun_eq_iff)
  ultimately show ?thesis using assms by (auto simp: reachable_def)
qed

definition sample_set :: defaultSet where
  "sample_set = \<lparr>ds_validators = map (\<lambda>a. validator_New a 70) [1, 2, 3, 4], ds_policy = \<lparr>pp_Id = RoundRobin, pp_By = (\<lambda>_ _. True)\<rparr>,
    ds_proposer = None\<rparr>"

definition sample_backend :: "address \<Rightarrow> backend" where
  "sample_backend a =
    \<lparr>be_LastProposal = (Some \<lparr>p_Number = 6, p_Hash = 60\<rparr>, 0), be_Validators = (\<lambda>_. Some sample_set),
     be_HasBadProposal = (\<lambda>_. False), be_Verify = (\<lambda>_. Inr ()), be_Commit = (\<lambda>_ _. Inr ()),
     be_Sign = (\<lambda>_. Inr [ucast a]), be_rlp = (\<lambda>_. []), be_GetSignatureAddress = (\<lambda>_ sig. Inr (ucast (hd sig))),
     be_CurrentNumber = 6, be_IsQBFTConsensusAt = (\<lambda>_. False), be_RequestTimeout = 10000,
     be_float_int64 = (\<lambda>_. 0), be_Pop = (\<lambda>_. 0)\<rparr>"

definition sample_message :: "uint64 \<Rightarrow> encoded \<Rightarrow> address \<Rightarrow> event" where
  "sample_message code e a =
    MessageEvent (Inr \<lparr>m_Code = code, m_Msg = e, m_Address = a, m_Signature = [ucast a],
      m_CommittedSeal = (if code = MsgCommit then [ucast a] else [])\<rparr>)"

text \<open>
  Four validators, the last of them faulty.  The first proposes the block 70 at height 7; the first
  two prepare it and send their COMMITs.
\<close>
definition sample_view :: View where "sample_view = \<lparr>vw_Round = 0, vw_Sequence = 7\<rparr>"
definition sample_proposal :: Proposal where "sample_proposal = \<lparr>p_Number = 7, p_Hash = 70\<rparr>"
definition sample_subject :: Subject where "sample_subject = \<lparr>sub_View = sample_view, sub_Digest = 70\<rparr>"

definition prepares :: "Subject \<Rightarrow> address list \<Rightarrow> event list" where
  "prepares sub = map (sample_message MsgPrepare (EncSubject sub))"

definition commits :: "Subject \<Rightarrow> address list \<Rightarrow> event list" where
  "commits sub = map (sample_message MsgCommit (EncSubject sub))"

definition preprepare_from :: "address \<Rightarrow> Proposal \<Rightarrow> event" where
  "preprepare_from a p = sample_message MsgPreprepare (EncPreprepare \<lparr>pre_View = sample_view, pre_Proposal = p\<rparr>) a"

definition at :: "address \<Rightarrow> event list \<Rightarrow> address \<times> backend \<times> event list" where
  "at a evs = (a, sample_backend a, evs)"

definition sample_prepared :: "(address \<times> backend \<times> event list) list" where
  "sample_prepared =
    [at 1 [StartEvent, RequestEvent (Some sample_proposal)],
     at 1 [preprepare_from 1 sample_proposal],
     at 2 [StartEvent, preprepare_from 1 sample_proposal],
     at 1 (prepares sample_subject [1, 2, 4]),
     at 2 (prepares sample_subject [1, 2, 4])]"

definition sample_decided :: "(address \<times> backend \<times> event list) list" where
  "sample_decided = sample_prepared @
    [at 1 (commits sample_subject [1, 2, 4]), at 2 (commits sample_subject [1, 2, 4])]"

definition sample_timeout :: "(address \<times> backend \<times> event list) list" where
  "sample_timeout = sample_prepared @ [at 1 [TimeoutEvent], at 2 [TimeoutEvent], at 3 [StartEvent, TimeoutEvent]]"

fun decisions :: "effect list \<Rightarrow> (View \<times> Proposal) list" where
  "decisions [] = []"
| "decisions (CommitBlock v p seals # es) = (v, p) # decisions es"
| "decisions (_ # es) = decisions es"

lemma decisions_in: "(v, p) \<in> set (decisions es) \<Longrightarrow> \<exists>seals. CommitBlock v p seals \<in> set es"
  by (induction es rule: decisions.induct) auto

abbreviation sample_run :: "(address \<times> backend \<times> event list) list \<Rightarrow> network option" where
  "sample_run xs \<equiv> map_option network_of (net_run (\<lambda>_. [1, 2, 3, 4]) [1, 2, 3] [] xs)"

lemma sample_reachable: "sample_run xs = Some N \<Longrightarrow> reachable (\<lambda>_. [1, 2, 3, 4]) {1, 2, 3} N"
  using net_run_reachable [of _ "[1, 2, 3]" xs] by auto

lemma sample_decided_out:
  "map_option (\<lambda>cs. (decisions (c_out (network_of cs 1)), decisions (c_out (network_of cs 2))))
      (net_run (\<lambda>_. [1, 2, 3, 4]) [1, 2, 3] [] sample_decided) =
    Some ([(sample_view, sample_proposal)], [(sample_view, sample_proposal)])"
  by code_simp

lemma sample_timeout_out:
  "map_option (\<lambda>cs. (map (\<lambda>a. sent_commits (c_out (network_of cs a))) [1, 2],
        map (\<lambda>a. currentView (network_of cs a)) [1, 2, 3]))
      (net_run (\<lambda>_. [1, 2, 3, 4]) [1, 2, 3] [] sample_timeout) =
    Some ([[sample_subject], [sample_subject]], replicate 3 (Some \<lparr>vw_Round = 1, vw_Sequence = 7\<rparr>))"
  by code_simp

subsection \<open>Properties\<close>

text \<open>
  C16.  Agreement: whatever the faulty validators, the network and the clocks do, no two honest
  nodes hand different blocks to the chain at the same height, provided the faulty validators of
  that height are fewer than what any two quorums have in common.  They even decide in the same
  round.
\<close>
theorem ibft_agreement:
  assumes "reachable addrs honest N" "a \<in> honest" "b \<in> honest"
    and "CommitBlock v p seals \<in> set (c_out (N a))" "CommitBlock v' p' seals' \<in> set (c_out (N b))"
    and "vw_Sequence v = s" "vw_Sequence v' = s"
    and "int (card (set (addrs s) - honest)) < 2 * quorum (length (addrs s)) - int (length (addrs s))"
  shows "p_Hash p = p_Hash p' \<and> v = v'"
  using certified_agree [OF reachable_inv CommitBlock_certified CommitBlock_certified, OF assms(1)
    reachable_inv [OF assms(1)] assms(2,4) reachable_inv [OF assms(1)] assms(3,5)] assms(6-8) by simp

theorem ibft_agreement_witness:
  "\<exists>N seals seals'. reachable (\<lambda>_. [1, 2, 3, 4]) {1, 2, 3} N \<and>
    CommitBlock sample_view sample_proposal seals \<in> set (c_out (N 1)) \<and>
    CommitBlock sample_view sample_proposal seals' \<in> set (c_out (N 2)) \<and>
    p_Hash sample_proposal = p_Hash sample_proposal \<and> sample_view = sample_view"
proof -
  obtain N where N: "sample_run sample_decided = Some N"
      "(sample_view, sample_proposal) \<in> set (decisions (c_out (N 1)))"
      "(sample_view, sample_proposal) \<in> set (decisions (c_out (N 2)))"
    using sample_decided_out by auto
  obtain seals seals' where out: "CommitBlock sample_view sample_proposal seals \<in> set (c_out (N 1))"
      "CommitBlock sample_view sample_proposal seals' \<in> set (c_out (N 2))"
    using decisions_in [OF N(2)] decisions_in [OF N(3)] by blast
  have "{1, 2, 3, 4} - {1, 2, 3} = {4 :: address}" by auto
  then have "p_Hash sample_proposal = p_Hash sample_proposal \<and> sample_view = sample_view"
    using ibft_agreement [OF sample_reachable [OF N(1)] _ _ out, of 7]
    by (simp add: sample_view_def quorum_def)
  then show ?thesis using sample_reachable [OF N(1)] out by blast
qed

text \<open>
  C17.  The COMMIT of a height is sent once: if so many honest validators sent theirs in a round up
  to r that the others are less than a quorum, and every honest node has moved on to a later round
  of the same height, then no honest node ever decides a block at this height.
\<close>
theorem ibft_height_abandoned:
  assumes "reachable addrs honest N" "L \<subseteq> honest" "L \<subseteq> set (addrs s)"
    and "\<forall>h\<in>L. \<exists>sub\<in>set (sent_commits (c_out (N h))). vw_Sequence (sub_View sub) = s \<and> vw_Round (sub_View sub) \<le> r"
    and "int (length (addrs s)) - int (card L) < quorum (length (addrs s))"
    and "\<forall>h\<in>honest. \<exists>v. currentView (N h) = Some v \<and> vw_Sequence v = s \<and> r < vw_Round v"
    and "(net_step addrs honest)\<^sup>*\<^sup>* N N'" "a \<in> honest"
  shows "\<exists>es. c_out (N' a) = c_out (N a) @ es \<and> (\<forall>v p seals. CommitBlock v p seals \<in> set es \<longrightarrow> vw_Sequence v \<noteq> s)"
proof -
  note inv0 = net_inv_present [OF reachable_inv [OF assms(1)]]
  note inv = net_steps_inv [OF assms(7) inv0]
  obtain es where es: "c_out (N' a) = c_out (N a) @ es" "list_all (effect_after (currentView (N a))) es"
    using inv assms(8) by (auto simp: net_inv_def node_inv_def out_inv_def present_def)
  have "vw_Sequence v \<noteq> s" if "CommitBlock v p seals \<in> set es" for v p seals
  proof
    assume s: "vw_Sequence v = s"
    let ?sub = "\<lparr>sub_View = v, sub_Digest = p_Hash p\<rparr>" and ?good = "sent_by_honest honest N'"
    have "effect_after (currentView (N a)) (CommitBlock v p seals)" using es(2) that unfolding list_all_iff by blast
    then have late: "r < vw_Round v" using assms(6,8) s by (auto simp: after_def)
    have "certified ?good addrs ?sub" using CommitBlock_certified [OF inv assms(8)] es(1) that by auto
    then obtain S where S: "S \<subseteq> set (addrs s)" "quorum (length (addrs s)) \<le> int (card S)"
        "\<forall>a\<in>S. \<exists>m. ?good m \<and> m_Address m = a \<and> is_commit m ?sub"
      using s by (auto simp: certified_def Let_def)
    have "card S + card L \<le> card (set (addrs s)) + card (S \<inter> L)" using S(1) assms(3) by (intro overlap) simp_all
    moreover have "card (set (addrs s)) \<le> length (addrs s)" by (rule card_length)
    ultimately have "card (S \<inter> L) > 0" using S(2) assms(5) by linarith
    then obtain h where h: "h \<in> S" "h \<in> L" "h \<in> honest" using assms(2) by (auto simp: card_gt_0_iff)
    then have "?sub \<in> set (sent_commits (c_out (N' h)))" using S(3) honest_commit [OF inv h(3)] by blast
    moreover obtain sub where sub: "sub \<in> set (sent_commits (c_out (N h)))" "vw_Sequence (sub_View sub) = s"
        "vw_Round (sub_View sub) \<le> r" using assms(4) h(2) by blast
    have "\<exists>es. c_out (N' h) = c_out (N h) @ es"
      using inv h(3) by (auto simp: net_inv_def node_inv_def out_inv_def present_def)
    then have "sub \<in> set (sent_commits (c_out (N' h)))" using sub(1) by auto
    ultimately have "?sub = sub" using one_commit [OF inv h(3)] sub(2) s by simp
    then show False using late sub(3) by auto
  qed
  then show ?thesis using es(1) by blast
qed

theorem ibft_height_abandoned_witness:
  "\<exists>N. reachable (\<lambda>_. [1, 2, 3, 4]) {1, 2, 3} N \<and> sent_commits (c_out (N 1)) = [sample_subject] \<and>
    (\<forall>N'. (net_step (\<lambda>_. [1, 2, 3, 4]) {1, 2, 3})\<^sup>*\<^sup>* N N' \<longrightarrow>
      (\<exists>es. c_out (N' 1) = c_out (N 1) @ es \<and> (\<forall>v p seals. CommitBlock v p seals \<in> set es \<longrightarrow> vw_Sequence v \<noteq> 7)))"
proof -
  obtain N where N: "sample_run sample_timeout = Some N"
      "sent_commits (c_out (N 1)) = [sample_subject]" "sent_commits (c_out (N 2)) = [sample_subject]"
      "\<forall>a\<in>{1, 2, 3}. currentView (N a) = Some \<lparr>vw_Round = 1, vw_Sequence = 7\<rparr>"
    using sample_timeout_out by (auto simp: numeral_3_eq_3)
  show ?thesis
    using sample_reachable [OF N(1)] N(2-)
      ibft_height_abandoned [OF sample_reachable [OF N(1)], of "{1, 2}" 7 0 _ 1]
    by (auto simp: sample_subject_def sample_view_def quorum_def)
qed

text \<open>
  C18.  A quorum of \<open>2F + 1\<close> out of \<open>n\<close> validators, with F the ceiling of \<open>n / 3\<close> minus one, is enough
  for agreement in the presence of F faulty validators only if n leaves the remainder 1 by 3.
\<close>
theorem quorum_intersection:
  assumes "0 < ds_Size valSet"
  shows "ds_F valSet < 2 * QuorumSize valSet - int (ds_Size valSet) \<longleftrightarrow> ds_Size valSet mod 3 = 1"
proof -
  have "\<exists>k. ds_Size valSet = 3 * k + 1 \<or> ds_Size valSet = 3 * k + 2 \<or> ds_Size valSet = 3 * k + 3"
    using assms by presburger
  then obtain k where "ds_Size valSet = 3 * k + 1 \<or> ds_Size valSet = 3 * k + 2 \<or> ds_Size valSet = 3 * k + 3" ..
  then show ?thesis by (elim disjE; simp add: QuorumSize_def ds_F_def; presburger)
qed

theorem quorum_intersection_witness:
  "QuorumSize (newDefaultSet [1, 2, 3, 4, 5, 6, 7, 8, 9, 10, 11] (CoefficientPolicy (\<lambda>_. [])) None) = 7 \<and>
    \<not> ds_F (newDefaultSet [1, 2, 3, 4, 5, 6, 7, 8, 9, 10, 11] (CoefficientPolicy (\<lambda>_. [])) None) < 2 * 7 - 11"
  using quorum_intersection [of "newDefaultSet [1, 2, 3, 4, 5, 6, 7, 8, 9, 10, 11] (CoefficientPolicy (\<lambda>_. [])) None"]
  by (simp add: newDefaultSet_def QuorumSize_def ds_F_def ds_Size_def)

end
