(* ===== verification/Ibft_Fork.thy ===== *)
theory Ibft_Fork
  imports Ibft_Network
begin

text \<open>
  The quorum of the eleven validators of a height against the three faulty ones it is said to
  tolerate: an execution in which two honest nodes decide different blocks.
\<close>

definition eleven :: "address list" where
  "eleven = [1, 2, 3, 4, 5, 6, 7, 8, 9, 10, 11]"

definition fork_set :: defaultSet where
  "fork_set = \<lparr>ds_validators = map (\<lambda>a. validator_New a 70) eleven,
    ds_policy = \<lparr>pp_Id = Coefficient, pp_By = (\<lambda>_ _. True)\<rparr>, ds_proposer = None\<rparr>"

definition fork_backend :: "address \<Rightarrow> backend" where
  "fork_backend a = (sample_backend a)\<lparr>be_Validators := (\<lambda>_. Some fork_set)\<rparr>"

text \<open>The proposer and two more are faulty; the other eight are told different things.\<close>
definition left_half :: "address list" where "left_half = [4, 5, 6, 7]"
definition right_half :: "address list" where "right_half = [8, 9, 10, 11]"

definition fork_proposal :: "hash \<Rightarrow> Proposal" where
  "fork_proposal h = \<lparr>p_Number = 7, p_Hash = h\<rparr>"

definition fork_subject :: "hash \<Rightarrow> Subject" where
  "fork_subject h = \<lparr>sub_View = sample_view, sub_Digest = h\<rparr>"

text \<open>
  One half starts, gets the PRE-PREPARE of the block h and prepares it with the faulty three; its
  first member then gets the COMMITs of the half and of the faulty three.
\<close>
definition decide_half :: "hash \<Rightarrow> address list \<Rightarrow> (address \<times> backend \<times> event list) list" where
  "decide_half h half =
    map (\<lambda>a. (a, fork_backend a, [StartEvent, preprepare_from 1 (fork_proposal h)])) half @
    map (\<lambda>a. (a, fork_backend a, prepares (fork_subject h) ([1, 2, 3] @ half))) half @
    [(hd half, fork_backend (hd half), commits (fork_subject h) ([1, 2, 3] @ half))]"

definition fork_events :: "(address \<times> backend \<times> event list) list" where
  "fork_events = decide_half 70 left_half @ decide_half 71 right_half"

lemma fork_out:
  "map_option (\<lambda>cs. (decisions (c_out (network_of cs 4)), decisions (c_out (network_of cs 8))))
      (net_run (\<lambda>_. eleven) (left_half @ right_half) [] fork_events) =
    Some ([(sample_view, fork_proposal 70)], [(sample_view, fork_proposal 71)])"
  by code_simp

text \<open>
  C19.  Of the eleven validators of a height, \<open>F = 3\<close> may be faulty and a quorum is \<open>2F + 1 = 7\<close>; yet
  with three faulty validators there is an execution in which two honest nodes hand different
  blocks of the same height and round to the chain.
\<close>
theorem ibft_fork:
  "ds_F fork_set = 3 \<and> QuorumSize fork_set = 7 \<and> card (set eleven - set (left_half @ right_half)) = 3 \<and>
    (\<exists>N p p' seals seals'. reachable (\<lambda>_. eleven) (set (left_half @ right_half)) N \<and>
      CommitBlock sample_view p seals \<in> set (c_out (N 4)) \<and> CommitBlock sample_view p' seals' \<in> set (c_out (N 8)) \<and>
      p_Hash p \<noteq> p_Hash p')"
proof -
  have "set eleven - set (left_half @ right_half) = {1, 2, 3}"
    by (auto simp: eleven_def left_half_def right_half_def)
  then have sizes: "ds_F fork_set = 3" "QuorumSize fork_set = 7" "card (set eleven - set (left_half @ right_half)) = 3"
    by (simp_all add: fork_set_def eleven_def ds_F_def QuorumSize_def ds_Size_def)
  obtain cs where cs: "net_run (\<lambda>_. eleven) (left_half @ right_half) [] fork_events = Some cs"
      "(sample_view, fork_proposal 70) \<in> set (decisions (c_out (network_of cs 4)))"
      "(sample_view, fork_proposal 71) \<in> set (decisions (c_out (network_of cs 8)))"
    using fork_out by auto
  have "reachable (\<lambda>_. eleven) (set (left_half @ right_half)) (network_of cs)"
    by (rule net_run_reachable [OF cs(1)])
  moreover have "p_Hash (fork_proposal 70) \<noteq> p_Hash (fork_proposal 71)" by (simp add: fork_proposal_def)
  ultimately show ?thesis
    using sizes decisions_in [OF cs(2)] decisions_in [OF cs(3)] by blast
qed

end
