(* ===== verification/Ibft_Priority.thy ===== *)
theory Ibft_Priority
  imports Ibft_Network "HOL-Library.Multiset"
begin

text \<open>
  The backlog queues of the Istanbul BFT core and their priorities.  A priority is a float32, which
  holds integers exactly up to \<open>2^24\<close>: below height 16777 the priorities give the order documented
  in backlog.go, and processing a backlog posts exactly the messages that can be handled.  At
  larger heights the order is never reversed, but messages share priorities.
\<close>

subsection \<open>Rounding to 24 significant bits\<close>

text \<open>Rounding to a multiple of \<open>2^e\<close>, ties to even.\<close>
definition round_to :: "nat \<Rightarrow> nat \<Rightarrow> nat" where
  "round_to e n = (let q = n div 2 ^ e; r = n mod 2 ^ e; half = 2 ^ (e - 1)
    in (if r > half \<or> (r = half \<and> odd q) then q + 1 else q) * 2 ^ e)"

lemma round_to_0 [simp]: "round_to 0 n = n"
  by (simp add: round_to_def)

lemma round_to_cases:
  obtains (down) "round_to e n = n div 2 ^ e * 2 ^ e" "2 * (n mod 2 ^ e) \<le> 2 ^ e"
  | (up) "round_to e n = (n div 2 ^ e + 1) * 2 ^ e" "2 ^ e \<le> 2 * (n mod 2 ^ e)"
proof (cases e)
  case 0
  then show ?thesis using down by simp
next
  case (Suc k)
  then have "(2::nat) ^ e = 2 * 2 ^ (e - 1)" by simp
  then show ?thesis
    using down up by (cases "n mod 2 ^ e > 2 ^ (e - 1) \<or> (n mod 2 ^ e = 2 ^ (e - 1) \<and> odd (n div 2 ^ e))")
      (auto simp: round_to_def Let_def)
qed

lemma round_to_dvd: "d \<le> e \<Longrightarrow> 2 ^ d dvd round_to e n"
  by (rule round_to_cases [of e n]) (simp_all only: dvd_mult le_imp_power_dvd)

lemma round_to_near: "2 * round_to e n \<le> 2 * n + 2 ^ e" "2 * n \<le> 2 * round_to e n + 2 ^ e"
proof -
  have n: "n div 2 ^ e * 2 ^ e + n mod 2 ^ e = n" by (rule div_mult_mod_eq)
  have r: "n mod 2 ^ e < 2 ^ e" by simp
  have "2 * round_to e n \<le> 2 * n + 2 ^ e \<and> 2 * n \<le> 2 * round_to e n + 2 ^ e"
  proof (cases rule: round_to_cases [of e n])
    case down
    then show ?thesis using n r by linarith
  next
    case up
    then show ?thesis using n r unfolding add_mult_distrib by linarith
  qed
  then show "2 * round_to e n \<le> 2 * n + 2 ^ e" "2 * n \<le> 2 * round_to e n + 2 ^ e" by simp_all
qed

lemma round_to_mono:
  assumes "n \<le> m"
  shows "round_to e n \<le> round_to e m"
proof (cases "n div 2 ^ e = m div 2 ^ e")
  case True
  then have "n mod 2 ^ e \<le> m mod 2 ^ e"
    using assms div_mult_mod_eq [of n "2 ^ e"] div_mult_mod_eq [of m "2 ^ e"] by simp
  then show ?thesis using True by (auto simp: round_to_def Let_def)
next
  case False
  then have "n div 2 ^ e + 1 \<le> m div 2 ^ e" using div_le_mono [OF assms, of "2 ^ e"] by simp
  then have "(n div 2 ^ e + 1) * 2 ^ e \<le> m div 2 ^ e * 2 ^ e" by (rule mult_le_mono1)
  moreover have "round_to e n \<le> (n div 2 ^ e + 1) * 2 ^ e" "m div 2 ^ e * 2 ^ e \<le> round_to e m"
    by (simp_all add: round_to_def Let_def)
  ultimately show ?thesis by simp
qed

lemma round_to_power: "e \<le> k \<Longrightarrow> round_to e (2 ^ k) = 2 ^ k"
  by (rule round_to_cases [of e "2 ^ k"]) (auto simp: le_imp_power_dvd dvd_imp_mod_0)

lemma bit_len_0 [simp]: "bit_len 0 = 0"
  by (simp add: bit_len.simps)

lemma bit_len_bounds: "n < 2 ^ bit_len n" "n \<noteq> 0 \<Longrightarrow> 2 ^ (bit_len n - 1) \<le> n"
proof (induction n rule: bit_len.induct)
  case (1 n)
  show "n < 2 ^ bit_len n"
    using 1(1) by (cases "n = 0") (auto simp: bit_len.simps [of n])
  show "2 ^ (bit_len n - 1) \<le> n" if "n \<noteq> 0"
  proof (cases "n div 2 = 0")
    case True
    then show ?thesis using that by (simp add: bit_len.simps [of n])
  next
    case False
    then have "2 ^ (bit_len (n div 2) - 1) \<le> n div 2" "bit_len (n div 2) \<noteq> 0"
      using 1(2) that by (simp_all add: bit_len.simps [of "n div 2"])
    then have "(2::nat) ^ bit_len (n div 2) \<le> n" by (cases "bit_len (n div 2)") auto
    then show ?thesis using that by (simp add: bit_len.simps [of n])
  qed
qed

lemma bit_len_ge: "2 ^ k \<le> n \<Longrightarrow> k < bit_len n"
  using le_less_trans [OF _ bit_len_bounds(1), of "2 ^ k" n] by (simp add: power_strict_increasing_iff)

lemma bit_len_le: "n < 2 ^ k \<Longrightarrow> bit_len n \<le> k"
proof (rule ccontr)
  assume n: "n < 2 ^ k" and "\<not> bit_len n \<le> k"
  then have "k \<le> bit_len n - 1" "n \<noteq> 0" by (auto intro: Suc_leI gr0I)
  then have "(2::nat) ^ k \<le> n" using bit_len_bounds(2) [of n] by (meson le_trans one_le_numeral power_increasing)
  then show False using n by simp
qed

lemma float32_round_to: "float32_of_nat n = round_to (bit_len n - 24) n"
proof (cases "n < 2 ^ 24")
  case True
  then show ?thesis using bit_len_le [of n 24] by (simp add: float32_of_nat_def)
qed (simp add: float32_of_nat_def round_to_def Let_def)

lemma float32_exact: "n < 2 ^ 24 \<Longrightarrow> float32_of_nat n = n"
  by (simp add: float32_of_nat_def)

lemma float32_bounds: "float32_of_nat n \<le> 2 ^ bit_len n" "n \<noteq> 0 \<Longrightarrow> 2 ^ (bit_len n - 1) \<le> float32_of_nat n"
proof -
  let ?e = "bit_len n - 24"
  show "float32_of_nat n \<le> 2 ^ bit_len n"
    using round_to_mono [of n "2 ^ bit_len n" ?e] bit_len_bounds(1) [of n] by (simp add: float32_round_to round_to_power)
  show "2 ^ (bit_len n - 1) \<le> float32_of_nat n" if "n \<noteq> 0"
  proof -
    have "?e \<le> bit_len n - 1" by simp
    then show ?thesis
      using round_to_mono [OF bit_len_bounds(2) [OF that], of ?e] by (simp add: float32_round_to round_to_power)
  qed
qed

lemma float32_mono:
  assumes "n \<le> m"
  shows "float32_of_nat n \<le> float32_of_nat m"
proof (cases "bit_len n = bit_len m \<or> m = 0")
  case True
  then show ?thesis using assms round_to_mono by (auto simp: float32_round_to)
next
  case False
  have "bit_len n \<le> bit_len m"
    using assms bit_len_bounds(1) [of m] by (intro bit_len_le) simp
  then have "(2::nat) ^ bit_len n \<le> 2 ^ (bit_len m - 1)" using False by (intro power_increasing) auto
  with float32_bounds(1) [of n] have "float32_of_nat n \<le> 2 ^ (bit_len m - 1)" by (rule le_trans)
  then show ?thesis using float32_bounds(2) [of m] False by simp
qed

text \<open>
  Above the first number of the exponent of \<open>a\<close> a number less than one unit away is rounded up by
  at most half a unit, also when it has a larger exponent.
\<close>
lemma float32_near:
  assumes "a \<le> c" "c < a + 2 ^ (bit_len a - 24)"
  shows "2 * float32_of_nat c \<le> 2 * c + 2 ^ (bit_len a - 24)"
proof (cases "bit_len c = bit_len a \<or> bit_len a < 24")
  case True
  then have "bit_len c = bit_len a" using assms by (auto simp: less_Suc_eq)
  then show ?thesis using round_to_near(1) [of "bit_len a - 24" c] by (simp add: float32_round_to)
next
  case False
  define e where "e = bit_len a - 24"
  have k: "bit_len a = e + 24" using False by (simp add: e_def)
  have "bit_len a \<le> bit_len c" using assms(1) bit_len_bounds(1) [of c] by (intro bit_len_le) simp
  then have "2 ^ (e + 24) \<le> c"
    using False k bit_len_le [of c "e + 24"] by (cases "c < 2 ^ (e + 24)") auto
  then obtain d where d: "c = 2 ^ (e + 24) + d" using le_Suc_ex by blast
  have "a < 2 ^ (e + 24)" using bit_len_bounds(1) [of a] k by simp
  then have "d < 2 ^ e" using assms(2) k d by simp
  then have "c < 2 ^ (e + 25)" using d by (simp add: power_add)
  then have c: "bit_len c = e + 25" using \<open>2 ^ (e + 24) \<le> c\<close> bit_len_le [of c "e + 25"] bit_len_ge [of "e + 24" c] by simp
  have "c = d + 2 ^ 23 * 2 ^ Suc e" "d < 2 ^ Suc e" using d \<open>d < 2 ^ e\<close> by (simp_all add: power_add)
  then have "c div 2 ^ Suc e = 2 ^ 23" "c mod 2 ^ Suc e = d"
    by (simp_all only: div_mult_self1 mod_mult_self1 div_less mod_less)
  then have "float32_of_nat c = 2 ^ 23 * 2 ^ Suc e"
    using \<open>d < 2 ^ e\<close> unfolding float32_round_to round_to_def c by simp
  then show ?thesis using d by (simp add: power_add)
qed

text \<open>Three numbers less than one unit apart do not get three different values.\<close>
lemma float32_collapse:
  assumes "2 ^ (23 + e) \<le> a" "a \<le> b" "b \<le> c" "c < a + 2 ^ e"
  shows "float32_of_nat a = float32_of_nat b \<or> float32_of_nat b = float32_of_nat c"
proof (rule ccontr)
  assume neq: "\<not> ?thesis"
  let ?e = "bit_len a - 24" and ?f = float32_of_nat
  have "e \<le> ?e" using bit_len_ge [OF assms(1)] by simp
  then have "(2::nat) ^ e \<le> 2 ^ ?e" by simp
  have dvd: "2 ^ ?e dvd ?f x" if "a \<le> x" for x
    using that bit_len_bounds(1) [of x] by (auto simp: float32_round_to intro!: round_to_dvd diff_le_mono bit_len_le)
  have lt: "?f a < ?f b" "?f b < ?f c"
    using neq float32_mono [OF assms(2)] float32_mono [OF assms(3)] by auto
  have step: "x + 2 ^ ?e \<le> y" if "2 ^ ?e dvd x" "2 ^ ?e dvd y" "x < y" for x y :: nat
    using that dvd_imp_le [of "2 ^ ?e" "y - x"] by (simp add: dvd_diff_nat)
  have "?f a + 2 ^ ?e \<le> ?f b" "?f b + 2 ^ ?e \<le> ?f c"
    using step [OF dvd dvd lt(1)] step [OF dvd dvd lt(2)] assms(2,3) by simp_all
  moreover have "2 * ?f c \<le> 2 * c + 2 ^ ?e"
    using assms(2-4) \<open>2 ^ e \<le> 2 ^ ?e\<close> by (intro float32_near; linarith)
  moreover have "2 * a \<le> 2 * ?f a + 2 ^ ?e" using round_to_near(2) [of a ?e] by (simp add: float32_round_to)
  ultimately show False using assms(4) \<open>2 ^ e \<le> 2 ^ ?e\<close> by linarith
qed

subsection \<open>The order of the priorities\<close>

text \<open>The number behind a priority, for a view that does not overflow.\<close>
definition rank :: "uint64 \<Rightarrow> View \<Rightarrow> int" where
  "rank code v = vw_Sequence v * 1000 +
    (if code = MsgRoundChange then 0 else vw_Round v * 10 + uint (msgPriority code))"

lemma toPriority_rank:
  assumes "0 \<le> vw_Sequence v" "0 \<le> vw_Round v" "rank code v < 2 ^ 64"
  shows "toPriority code v = - int (float32_of_nat (nat (rank code v)))"
proof -
  let ?w = "if code = MsgRoundChange then Uint64 (vw_Sequence v) * 1000
    else Uint64 (vw_Sequence v) * 1000 + Uint64 (vw_Round v) * 10 + msgPriority code"
  have "0 \<le> rank code v" using assms uint_ge_0 [of "msgPriority code"] unfolding rank_def by simp
  have "?w = word_of_int (rank code v)"
    using assms(1,2) by (simp add: rank_def Uint64_def)
  then have "uint ?w = rank code v"
    using \<open>0 \<le> rank code v\<close> assms(3) by (simp add: uint_word_of_int take_bit_int_eq_self)
  then have "unat ?w = nat (rank code v)" by (simp add: unat_eq_nat_uint)
  then show ?thesis by (auto simp: toPriority_def split: if_splits)
qed

abbreviation msg_codes :: "uint64 set" where
  "msg_codes \<equiv> {MsgPreprepare, MsgCommit, MsgPrepare, MsgRoundChange}"

text \<open>Heights whose priority fits a uint64, and the documented range of rounds.\<close>
abbreviation view_fits :: "View \<Rightarrow> bool" where
  "view_fits v \<equiv> 0 \<le> vw_Sequence v \<and> vw_Sequence v < 2 ^ 54 \<and> 0 \<le> vw_Round v \<and> vw_Round v < 100"

text \<open>
  The order that the comments of backlog.go document: by height; within a height ROUND CHANGEs
  first, then by round; within a view PRE-PREPARE, COMMIT, PREPARE.
\<close>
definition precedes :: "uint64 \<Rightarrow> View \<Rightarrow> uint64 \<Rightarrow> View \<Rightarrow> bool" where
  "precedes code1 v1 code2 v2 \<longleftrightarrow>
    vw_Sequence v1 < vw_Sequence v2 \<or>
    vw_Sequence v1 = vw_Sequence v2 \<and> code2 \<noteq> MsgRoundChange \<and>
      (code1 = MsgRoundChange \<or> vw_Round v1 < vw_Round v2 \<or>
       vw_Round v1 = vw_Round v2 \<and>
         (code1 = MsgPreprepare \<and> code2 \<noteq> MsgPreprepare \<or> code1 = MsgCommit \<and> code2 = MsgPrepare))"

lemma rank_less_iff:
  assumes "code1 \<in> msg_codes" "code2 \<in> msg_codes" "view_fits v1" "view_fits v2"
  shows "rank code1 v1 < rank code2 v2 \<longleftrightarrow> precedes code1 v1 code2 v2"
  using assms by (auto simp: rank_def precedes_def msgPriority_def msg_code_defs)

lemma rank_bounds:
  assumes "view_fits v"
  shows "0 \<le> rank code v" "rank code v \<le> vw_Sequence v * 1000 + 993" "vw_Sequence v * 1000 \<le> rank code v"
  using assms by (auto simp: rank_def msgPriority_def)

lemma toPriority_fits: "view_fits v \<Longrightarrow> toPriority code v = - int (float32_of_nat (nat (rank code v)))"
  using rank_bounds(2) [of v code] by (intro toPriority_rank) auto

lemma toPriority_exact: "\<lbrakk>view_fits v; vw_Sequence v < 16777\<rbrakk> \<Longrightarrow> toPriority code v = - rank code v"
  using rank_bounds [of v code] by (simp add: toPriority_fits float32_exact)

text \<open>
  C20.  The backlog priorities never contradict the documented order, for every kind of message,
  rounds 0 to 99 and all heights below \<open>2^54\<close>.  Below height 16777 they are exactly that order.
\<close>
theorem toPriority_order:
  assumes "{code1, code2} \<subseteq> {MsgPreprepare, MsgCommit, MsgPrepare, MsgRoundChange}"
    and "\<forall>v\<in>{v1, v2}. 0 \<le> vw_Sequence v \<and> vw_Sequence v < 2 ^ 54 \<and> 0 \<le> vw_Round v \<and> vw_Round v < 100"
  shows "(precedes code1 v1 code2 v2 \<longrightarrow> toPriority code1 v1 \<ge> toPriority code2 v2) \<and>
    (vw_Sequence v1 < 16777 \<and> vw_Sequence v2 < 16777 \<longrightarrow>
      (toPriority code1 v1 > toPriority code2 v2) = precedes code1 v1 code2 v2)"
proof -
  have fits: "code1 \<in> msg_codes" "code2 \<in> msg_codes" "view_fits v1" "view_fits v2" using assms by auto
  have "toPriority code1 v1 \<ge> toPriority code2 v2" if "precedes code1 v1 code2 v2"
    using that rank_less_iff [OF fits] by (simp add: toPriority_fits [OF fits(3)] toPriority_fits [OF fits(4)] float32_mono)
  then show ?thesis using rank_less_iff [OF fits] by (simp add: toPriority_exact fits)
qed

theorem toPriority_order_witness:
  "toPriority MsgRoundChange \<lparr>vw_Round = 3, vw_Sequence = 900\<rparr> > toPriority MsgPreprepare \<lparr>vw_Round = 0, vw_Sequence = 900\<rparr> \<and>
    toPriority MsgPrepare \<lparr>vw_Round = 98, vw_Sequence = 900\<rparr> > toPriority MsgPreprepare \<lparr>vw_Round = 99, vw_Sequence = 900\<rparr> \<and>
    toPriority MsgCommit \<lparr>vw_Round = 0, vw_Sequence = 33555\<rparr> \<ge> toPriority MsgPrepare \<lparr>vw_Round = 0, vw_Sequence = 33555\<rparr>"
  using toPriority_order [of MsgRoundChange MsgPreprepare "\<lparr>vw_Round = 3, vw_Sequence = 900\<rparr>" "\<lparr>vw_Round = 0, vw_Sequence = 900\<rparr>"]
    toPriority_order [of MsgPrepare MsgPreprepare "\<lparr>vw_Round = 98, vw_Sequence = 900\<rparr>" "\<lparr>vw_Round = 99, vw_Sequence = 900\<rparr>"]
    toPriority_order [of MsgCommit MsgPrepare "\<lparr>vw_Round = 0, vw_Sequence = 33555\<rparr>" "\<lparr>vw_Round = 0, vw_Sequence = 33555\<rparr>"]
  by (simp add: msg_code_defs precedes_def)

subsection \<open>Processing a backlog\<close>

text \<open>A queue of one validator as storeBacklog fills it, in the range where priorities are exact.\<close>
definition backlog_ok :: "Message prque \<Rightarrow> bool" where
  "backlog_ok q \<longleftrightarrow> (\<forall>(msg, prio) \<in> set q. m_Code msg \<in> msg_codes \<and>
    (\<exists>v. message_view msg = Some v \<and> view_fits v \<and> vw_Sequence v < 16777 \<and> prio = toPriority (m_Code msg) v))"

text \<open>The answer of checkMessage for a queued message.\<close>
definition check_is :: "unit result \<Rightarrow> core \<Rightarrow> Message \<Rightarrow> bool" where
  "check_is r c msg \<longleftrightarrow> (case message_view msg of None \<Rightarrow> False | Some v \<Rightarrow> checkMessage c (m_Code msg) v = Some r)"

lemma check_is_simps [simp]:
  "message_view msg = Some v \<Longrightarrow> check_is r c msg = (checkMessage c (m_Code msg) v = Some r)"
  by (simp add: check_is_def)

lemma storeBacklog_ok:
  assumes "\<forall>(_, q) \<in> set (c_backlogs c). backlog_ok q" "m_Code msg \<in> msg_codes"
    "\<And>v. message_view msg = Some v \<Longrightarrow> view_fits v \<and> vw_Sequence v < 16777"
  shows "\<forall>(_, q) \<in> set (c_backlogs (storeBacklog c msg src)). backlog_ok q"
proof -
  let ?old = "case map_of (c_backlogs c) (dv_address src) of None \<Rightarrow> [] | Some q \<Rightarrow> q"
  let ?new = "case message_view msg of Some v \<Rightarrow> prque_Push ?old msg (toPriority (m_Code msg) v) | None \<Rightarrow> ?old"
  have "backlog_ok q" if "map_of (c_backlogs c) (dv_address src) = Some q" for q
    using assms(1) map_of_SomeD [OF that] by fast
  moreover have "backlog_ok []" by (simp add: backlog_ok_def)
  ultimately have "backlog_ok ?old" by (simp split: option.split)
  then have new: "backlog_ok ?new"
    using assms(2,3) by (auto simp: backlog_ok_def prque_Push_def split: option.split)
  have "\<forall>(_, q) \<in> set (AList.update a ?new l). backlog_ok q" if "\<forall>(_, q) \<in> set l. backlog_ok q" for a l
    using that new by (induction l) auto
  from this [OF assms(1)] show ?thesis using assms(1) by (simp add: storeBacklog_def Let_def)
qed

lemma checkMessage_emit [simp]: "checkMessage (emit e c) code v = checkMessage c code v"
  by (simp add: checkMessage_def currentView_def emit_def)

lemma check_is_emit [simp]: "check_is r (emit e c) msg = check_is r c msg"
  by (simp add: check_is_def split: option.split)

lemma emit_out: "(emit e c)\<lparr>c_out := c_out (emit e c) @ es\<rparr> = c\<lparr>c_out := c_out c @ e # es\<rparr>"
  by (simp add: emit_def)

lemma checkMessage_cases:
  assumes "currentView c \<noteq> None"
  shows "checkMessage c code v \<in> {Some (Inr ()), Some (Inl ErrOldMessage), Some (Inl ErrFutureMessage)}"
proof -
  obtain cv where "currentView c = Some cv" using assms by blast
  then show ?thesis unfolding checkMessage_def by (simp split: if_split)
qed

lemma checkMessage_future:
  assumes "currentView c = Some cv"
  shows "checkMessage c code v = Some (Inl ErrFutureMessage) \<longleftrightarrow>
    vw_Sequence cv < vw_Sequence v \<or> vw_Sequence cv = vw_Sequence v \<and> code \<noteq> MsgRoundChange \<and>
      (vw_Round cv < vw_Round v \<or> vw_Round cv = vw_Round v \<and>
        (c_waitingForRoundChange c \<or> c_state c = StateAcceptRequest \<and> MsgPreprepare < code))"
  using assms by (auto simp: checkMessage_def View_Cmp_def Cmp_int_def)

text \<open>Behind a future message there are only future messages.\<close>
lemma future_behind:
  assumes "checkMessage c code1 v1 = Some (Inl ErrFutureMessage)" "\<not> precedes code2 v2 code1 v1"
    "code1 \<in> msg_codes" "code2 \<in> msg_codes"
  shows "checkMessage c code2 v2 = Some (Inl ErrFutureMessage)"
proof -
  obtain cv where cv: "currentView c = Some cv" using assms(1) by (auto simp: checkMessage_def bind_eq_Some_conv)
  show ?thesis
    using assms unfolding checkMessage_future [OF cv] precedes_def by (auto simp: msg_code_defs)
qed

abbreviation pops_highest :: "backend \<Rightarrow> bool" where
  "pops_highest be \<equiv> \<forall>ps. ps \<noteq> [] \<longrightarrow> be_Pop be ps < length ps \<and> (\<forall>p \<in> set ps. p \<le> ps ! be_Pop be ps)"

lemma prque_Pop_highest:
  assumes "pops_highest be" "q \<noteq> []" "prque_Pop be q = ((x, prio), q1)"
  shows "mset q = add_mset (x, prio) (mset q1)" and "(y, p) \<in> set q1 \<Longrightarrow> p \<le> prio"
proof -
  let ?i = "be_Pop be (map snd q)"
  have "?i < length (map snd q) \<and> (\<forall>p \<in> set (map snd q). p \<le> map snd q ! ?i)" using assms(1,2) by blast
  then have i: "?i < length q" "\<forall>(_, p) \<in> set q. p \<le> snd (q ! ?i)" by auto
  then have pop: "q ! ?i = (x, prio)" "q1 = take ?i q @ drop (Suc ?i) q" using assms(3) by (simp_all add: prque_Pop_def Let_def)
  have "mset q = mset (take ?i q @ q ! ?i # drop (Suc ?i) q)" using id_take_nth_drop [OF i(1)] by simp
  then show "mset q = add_mset (x, prio) (mset q1)" by (simp add: pop)
  show "p \<le> prio" if "(y, p) \<in> set q1"
    using that i(2) by (auto simp: pop dest: in_set_takeD in_set_dropD)
qed

lemma backlog_future_rest:
  assumes "backlog_ok ((msg, prio) # q)" "\<And>m p. (m, p) \<in> set q \<Longrightarrow> p \<le> prio"
    "check_is (Inl ErrFutureMessage) c msg" "(m, p) \<in> set q"
  shows "check_is (Inl ErrFutureMessage) c m"
proof -
  obtain v where v: "message_view msg = Some v" "m_Code msg \<in> msg_codes" "view_fits v" "vw_Sequence v < 16777"
    "prio = toPriority (m_Code msg) v"
    using assms(1) by (auto simp: backlog_ok_def)
  obtain w where w: "message_view m = Some w" "m_Code m \<in> msg_codes" "view_fits w" "vw_Sequence w < 16777"
    "p = toPriority (m_Code m) w"
    using assms(1,4) by (auto simp: backlog_ok_def)
  have "\<not> precedes (m_Code m) w (m_Code msg) v"
    using assms(2) [OF assms(4)] v(5) w(5) rank_less_iff [OF w(2) v(2) w(3) v(3)]
    by (simp add: toPriority_exact [OF w(3,4)] toPriority_exact [OF v(3,4)])
  with assms(3) v(1,2) w(1,2) show ?thesis using future_behind by simp
qed

text \<open>The first message of a queue and what is behind it.\<close>
lemma backlog_popped:
  assumes "pops_highest be" "backlog_ok q" "q \<noteq> []"
  obtains msg prio q1 v where "prque_Pop be q = ((msg, prio), q1)" "mset q = add_mset (msg, prio) (mset q1)"
    "length q1 < length q" "backlog_ok q1" "message_view msg = Some v"
    "\<And>c. check_is (Inl ErrFutureMessage) c msg \<Longrightarrow>
      filter (\<lambda>(msg, _). check_is (Inl ErrFutureMessage) c msg) q1 = q1 \<and> filter (\<lambda>(msg, _). check_is (Inr ()) c msg) q1 = []"
proof -
  obtain msg prio q1 where pop: "prque_Pop be q = ((msg, prio), q1)" by (metis prod.collapse)
  note highest = prque_Pop_highest [OF assms(1,3) pop]
  have "set q = set ((msg, prio) # q1)" using highest(1) by (metis mset.simps(2) set_mset_mset)
  then have ok: "backlog_ok ((msg, prio) # q1)" using assms(2) by (simp only: backlog_ok_def)
  then obtain v where v: "message_view msg = Some v" by (auto simp: backlog_ok_def)
  have "filter (\<lambda>(msg, _). check_is (Inl ErrFutureMessage) c msg) q1 = q1 \<and> filter (\<lambda>(msg, _). check_is (Inr ()) c msg) q1 = []"
    if "check_is (Inl ErrFutureMessage) c msg" for c
  proof -
    have rest: "check_is (Inl ErrFutureMessage) c m" if "(m, p) \<in> set q1" for m p
      using backlog_future_rest [OF ok _ \<open>check_is (Inl ErrFutureMessage) c msg\<close> that] highest(2) by blast
    then have "\<not> check_is (Inr ()) c m" if "(m, p) \<in> set q1" for m p
      using that by (force simp: check_is_def split: option.splits)
    with rest show ?thesis by (auto simp: filter_id_conv filter_empty_conv)
  qed
  then show thesis
    using that [OF pop highest(1) _ _ v] ok prque_Pop_length [OF assms(3), of be] pop by (simp add: backlog_ok_def)
qed

text \<open>
  C21.  Suppose that the queued messages have rounds 0 to 99, heights below 16777 and the priorities
  that storeBacklog gives them, that the node is in some round, and that the queue library pops an
  entry of highest priority.  Then processing the backlog of a validator sorts it completely,
  although it stops at the first future message: every message that can be handled now is posted
  once, every message that is still in the future stays in the queue with its priority, and only
  old ones are dropped.
\<close>
theorem backlog_loop_complete:
  assumes "\<forall>ps. ps \<noteq> [] \<longrightarrow> be_Pop be ps < length ps \<and> (\<forall>p \<in> set ps. p \<le> ps ! be_Pop be ps)"
    and "backlog_ok q" "currentView c \<noteq> None"
  shows "\<exists>q' msgs. backlog_loop be c src q = Some (q', c\<lparr>c_out := c_out c @ map (PostBacklog src) msgs\<rparr>) \<and>
    mset q' = filter_mset (\<lambda>(msg, _). check_is (Inl ErrFutureMessage) c msg) (mset q) \<and>
    mset msgs = image_mset fst (filter_mset (\<lambda>(msg, _). check_is (Inr ()) c msg) (mset q))"
  using assms(2,3)
proof (induction "length q" arbitrary: q c rule: less_induct)
  case less
  show ?case
  proof (cases "q = []")
    case True
    then show ?thesis by (intro exI [of _ "[]"]) (simp add: backlog_loop.simps)
  next
    case False
    obtain msg prio q1 v where pop: "prque_Pop be q = ((msg, prio), q1)" "mset q = add_mset (msg, prio) (mset q1)"
      "message_view msg = Some v" and q1: "length q1 < length q" "backlog_ok q1"
      and rest: "\<And>c. check_is (Inl ErrFutureMessage) c msg \<Longrightarrow>
        filter (\<lambda>(msg, _). check_is (Inl ErrFutureMessage) c msg) q1 = q1 \<and> filter (\<lambda>(msg, _). check_is (Inr ()) c msg) q1 = []"
      by (rule backlog_popped [OF assms(1) less.prems(1) False]) blast
    note step = backlog_loop.simps [of be c src q] pop False
    consider (accept) "checkMessage c (m_Code msg) v = Some (Inr ())"
      | (old) "checkMessage c (m_Code msg) v = Some (Inl ErrOldMessage)"
      | (future) "checkMessage c (m_Code msg) v = Some (Inl ErrFutureMessage)"
      using checkMessage_cases [OF less.prems(2)] by blast
    then show ?thesis
    proof cases
      case accept
      have "currentView (emit (PostBacklog src msg) c) \<noteq> None" using less.prems(2) by (simp add: currentView_def emit_def)
      from less.hyps [OF q1 this] obtain q' msgs where
        "backlog_loop be (emit (PostBacklog src msg) c) src q1 = Some (q', c\<lparr>c_out := c_out c @ map (PostBacklog src) (msg # msgs)\<rparr>)"
        "mset q' = filter_mset (\<lambda>(msg, _). check_is (Inl ErrFutureMessage) c msg) (mset q1)"
        "mset msgs = image_mset fst (filter_mset (\<lambda>(msg, _). check_is (Inr ()) c msg) (mset q1))"
        by (auto simp: emit_out)
      then show ?thesis
        using accept by (intro exI [of _ q'] exI [of _ "msg # msgs"]) (simp add: step)
    next
      case old
      with less.hyps [OF q1 less.prems(2)] show ?thesis by (simp add: step)
    next
      case future
      then have "check_is (Inl ErrFutureMessage) c msg" using pop(3) by simp
      note rest [OF this]
      then show ?thesis
        using future by (intro exI [of _ "q1 @ [(msg, prio)]"] exI [of _ "[]"]) (simp add: step prque_Push_def flip: mset_filter)
    qed
  qed
qed

text \<open>A queue library that pops the first entry of highest priority.\<close>
definition highest_first :: "int list \<Rightarrow> nat" where
  "highest_first ps = length (takeWhile (\<lambda>p. p < Max (set ps)) ps)"

lemma highest_first_pops:
  assumes "ps \<noteq> []"
  shows "highest_first ps < length ps" "p \<in> set ps \<Longrightarrow> p \<le> ps ! highest_first ps"
proof -
  let ?P = "\<lambda>p. p < Max (set ps)"
  have "Max (set ps) \<in> set ps" using assms by simp
  then have "takeWhile ?P ps \<noteq> ps" by (metis less_irrefl takeWhile_eq_all_conv)
  then have less: "length (takeWhile ?P ps) < length ps"
    by (metis length_takeWhile_le le_neq_implies_less takeWhile_eq_take take_all_iff order_refl)
  then show "highest_first ps < length ps" by (simp add: highest_first_def)
  show "p \<le> ps ! highest_first ps" if "p \<in> set ps"
    using nth_length_takeWhile [OF less] Max_ge [OF _ that] by (simp add: highest_first_def)
qed

text \<open>A node at height 7, round 1, that waits for a proposal, and a backlog of four messages.\<close>
definition sample_backlog :: "Message prque" where
  "sample_backlog = map (\<lambda>(code, r, h).
      (newMessage code (if code = MsgPreprepare
          then EncPreprepare \<lparr>pre_View = \<lparr>vw_Round = r, vw_Sequence = h\<rparr>, pre_Proposal = sample_proposal\<rparr>
          else EncSubject \<lparr>sub_View = \<lparr>vw_Round = r, vw_Sequence = h\<rparr>, sub_Digest = 70\<rparr>),
       toPriority code \<lparr>vw_Round = r, vw_Sequence = h\<rparr>))
    [(MsgCommit, 1, 7), (MsgPrepare, 0, 7), (MsgPreprepare, 1, 7), (MsgRoundChange, 2, 7)]"

definition sample_core :: core where
  "sample_core = (NewCore 1)\<lparr>c_current := Some (newRoundState \<lparr>vw_Round = 1, vw_Sequence = 7\<rparr> sample_set 0 None None)\<rparr>"

theorem backlog_loop_complete_witness:
  "\<exists>q' msgs. backlog_loop ((sample_backend 1)\<lparr>be_Pop := highest_first\<rparr>) sample_core (validator_New 2 70) sample_backlog =
      Some (q', sample_core\<lparr>c_out := c_out sample_core @ map (PostBacklog (validator_New 2 70)) msgs\<rparr>) \<and>
    map m_Code (map fst q') = [MsgCommit] \<and> mset (map m_Code msgs) = {#MsgPreprepare, MsgRoundChange#}"
proof -
  have "backlog_ok sample_backlog" "currentView sample_core \<noteq> None"
    by (simp_all add: backlog_ok_def sample_backlog_def newMessage_def message_view_def msg_code_defs
      currentView_def sample_core_def)
  moreover have "filter_mset (\<lambda>(msg, _). check_is (Inl ErrFutureMessage) sample_core msg) (mset sample_backlog) = {#sample_backlog ! 0#}"
    "filter_mset (\<lambda>(msg, _). check_is (Inr ()) sample_core msg) (mset sample_backlog) = {#sample_backlog ! 2, sample_backlog ! 3#}"
    by (simp_all add: sample_backlog_def newMessage_def message_view_def msg_code_defs check_is_def checkMessage_def
      currentView_def sample_core_def newRoundState_def NewCore_def View_Cmp_def Cmp_int_def)
  ultimately obtain q' msgs where
    "backlog_loop ((sample_backend 1)\<lparr>be_Pop := highest_first\<rparr>) sample_core (validator_New 2 70) sample_backlog =
      Some (q', sample_core\<lparr>c_out := c_out sample_core @ map (PostBacklog (validator_New 2 70)) msgs\<rparr>)"
    "q' = [sample_backlog ! 0]" "mset msgs = {#fst (sample_backlog ! 2), fst (sample_backlog ! 3)#}"
    using backlog_loop_complete [of "(sample_backend 1)\<lparr>be_Pop := highest_first\<rparr>" sample_backlog sample_core "validator_New 2 70"]
      highest_first_pops by auto
  then show ?thesis
    by (intro exI [of _ q'] exI [of _ msgs]) (simp add: sample_backlog_def newMessage_def)
qed

subsection \<open>The limits of float32\<close>

lemma toPriority_collapse:
  assumes "view_fits v1" "view_fits v2" "view_fits v3" "2 ^ (23 + e) \<le> rank code1 v1"
    "rank code1 v1 \<le> rank code2 v2" "rank code2 v2 \<le> rank code3 v3" "rank code3 v3 < rank code1 v1 + 2 ^ e"
  shows "toPriority code1 v1 = toPriority code2 v2 \<or> toPriority code2 v2 = toPriority code3 v3"
proof -
  have "int (2 ^ (23 + e)) \<le> rank code1 v1" using assms(4) by simp
  then have "2 ^ (23 + e) \<le> nat (rank code1 v1)" using nat_le_iff by linarith
  moreover have "nat (rank code3 v3) < nat (rank code1 v1) + 2 ^ e"
    using assms(7) rank_bounds(1) [OF assms(1), of code1] rank_bounds(1) [OF assms(3), of code3]
    by (simp add: nat_less_iff)
  ultimately have "float32_of_nat (nat (rank code1 v1)) = float32_of_nat (nat (rank code2 v2)) \<or>
      float32_of_nat (nat (rank code2 v2)) = float32_of_nat (nat (rank code3 v3))"
    using assms(5,6) by (intro float32_collapse [of e]) simp_all
  then show ?thesis using assms(1-3) by (simp add: toPriority_fits)
qed

text \<open>
  C22.  The documented order is lost above the precision of float32.  At every height from 33555 on,
  in every view, the COMMIT shares its priority with the PRE-PREPARE or with the PREPARE.  From
  height 268436 on two of any three successive rounds of a height share a priority, and from height
  17179870 on two of any three successive heights do, for every kind of message.
\<close>
theorem toPriority_collapses:
  assumes "0 \<le> r" "r < 98" "h < 2 ^ 54 - 2"
  shows "(33555 \<le> h \<longrightarrow> (let v = \<lparr>vw_Round = r, vw_Sequence = h\<rparr> in
      toPriority MsgCommit v = toPriority MsgPreprepare v \<or> toPriority MsgCommit v = toPriority MsgPrepare v)) \<and>
    (268436 \<le> h \<longrightarrow> (let p = \<lambda>r. toPriority code \<lparr>vw_Round = r, vw_Sequence = h\<rparr> in
      p r = p (r + 1) \<or> p (r + 1) = p (r + 2))) \<and>
    (17179870 \<le> h \<longrightarrow> (let p = \<lambda>h. toPriority code \<lparr>vw_Round = r, vw_Sequence = h\<rparr> in
      p h = p (h + 1) \<or> p (h + 1) = p (h + 2)))"
proof (intro conjI impI)
  let ?v = "\<lambda>r h. \<lparr>vw_Round = r, vw_Sequence = h\<rparr>"
  show "let v = ?v r h in toPriority MsgCommit v = toPriority MsgPreprepare v \<or> toPriority MsgCommit v = toPriority MsgPrepare v"
    if "33555 \<le> h"
    using toPriority_collapse [of "?v r h" "?v r h" "?v r h" 2 MsgPreprepare MsgCommit MsgPrepare] assms that
    by (auto simp: rank_def msgPriority_def msg_code_defs)
  show "let p = \<lambda>r. toPriority code (?v r h) in p r = p (r + 1) \<or> p (r + 1) = p (r + 2)" if "268436 \<le> h"
  proof -
    have "2 ^ (23 + 5) \<le> rank code (?v r h)" using rank_bounds(3) [of "?v r h" code] assms that by simp
    then show ?thesis
      using toPriority_collapse [of "?v r h" "?v (r + 1) h" "?v (r + 2) h" 5 code code code] assms that
      by (cases "code = MsgRoundChange") (simp_all add: rank_def)
  qed
  show "let p = \<lambda>h. toPriority code (?v r h) in p h = p (h + 1) \<or> p (h + 1) = p (h + 2)" if "17179870 \<le> h"
  proof -
    have "2 ^ (23 + 11) \<le> rank code (?v r h)" using rank_bounds(3) [of "?v r h" code] assms that by simp
    then show ?thesis
      using toPriority_collapse [of "?v r h" "?v r (h + 1)" "?v r (h + 2)" 11 code code code] assms that
      by (cases "code = MsgRoundChange") (simp_all add: rank_def)
  qed
qed

theorem toPriority_collapses_witness:
  "let p = \<lambda>code. toPriority code \<lparr>vw_Round = 0, vw_Sequence = 17179870\<rparr>;
       q = \<lambda>h. toPriority MsgPrepare \<lparr>vw_Round = 0, vw_Sequence = h\<rparr> in
    (p MsgCommit = p MsgPreprepare \<or> p MsgCommit = p MsgPrepare) \<and> (q 17179870 = q 17179871 \<or> q 17179871 = q 17179872)"
  using toPriority_collapses [of 0 17179870 MsgPrepare] by (simp add: Let_def)

end
