(* ===== verification/Spec2Isabelle.thy ===== *)
theory Spec2Isabelle
  imports Pledge_Lists Staker_Lists Validator_Selection Active_Miners CSBT_Types Common_Bytes
    State_Runs Transaction_Properties Rlp_Properties Ibft_Fork Ibft_Priority
begin

text \<open>
  A verification of the parts of erbie (a Go Ethereum chain with pledging, CSBT tokens and
  Istanbul BFT consensus) that decide who owns what and which block is final.  File names are
  relative to src/.

  \<^bold>\<open>The program.\<close>  A transaction reaches ApplyMessage (core/state_transition.go), which checks the
  sender, buys gas from the pool of the block (core/gaspool.go), prepares the access list and calls
  EVM.Call (core/vm/evm.go).  Call takes a snapshot and either moves tokens or hands a staking or
  CSBT payload to HandleCSBT; contract code runs afterwards, and a failure reverts to the snapshot.
  HandleCSBT uses the functions of core/evm.go, which use the staking operations of StateDB
  (core/state/statedb.go).  These change state objects (core/state/state_object.go) through
  journalled setters (core/state/journal.go).  The account data holds pledge lists and lists of
  stakers and validators (core/types), from which the validators of a round and the rewarded
  stakers are drawn by lot.  The validators agree on blocks with the Istanbul BFT core
  (consensus/istanbul).  Data travels in RLP (rlp) and hexadecimal text (common).

  \<^bold>\<open>The model.\<close>  Structs are records, enumerations datatypes, slices lists, Go maps HOL maps.
  Addresses, hashes, uint64 and uint8 are words of their width, with wrap-around;
  \<^verbatim>\<open>*big.Int\<close> is \<^typ>\<open>int\<close>.  A function that returns an error has a result in a sum type
  whose left part is the message; a panic is None.  State is passed explicitly.  A state object
  is named by its address, so that aliasing of pointers is aliasing of names.  Code outside the
  repository and code that is not modelled is a parameter: Keccak and signature recovery, the JSON
  decoder, the execution of contract code with evm.Create, the table of block rewards, and the
  backend of the consensus core (chain, block verification, signing, message encoding, and the
  choice of the priority queue among entries).

  \<^bold>\<open>Theories and sources.\<close>
  \<^item> Prelude: types, Go idioms on slices, sort.Sort and sort.Search.  Econ_Params: the constants of
    core/types/economic_params.go and emptyblock.go.
  \<^item> Pledge_Lists (stake_extension.go, validator_extension.go): both lists interpret one locale.
    Weighted_Selection: the lottery, a locale that Staker_Lists (stake_account.go) and
    Validator_Lists, Validator_Selection (validator_account.go) interpret.  Active_Miners
    (active_miner_pool.go), CSBT_Types (nfttypes.go, online_validator.go).
  \<^item> Common_Bytes, Address_Text (common/bytes.go, common/types.go), Hexutil (common/hexutil), Rlp
    and Rlp_Properties (rlp/encode.go, rlp/raw.go).
  \<^item> State_Objects, State_DB: account data, journal, object lookup, setters and getters.
    Access_List: core/state/access_list.go.  Ledger: the abstract view of a state, a total map
    from addresses to account values.  Snapshot_Revert: Snapshot, RevertToSnapshot, the reverting
    of entries, refunds, Suicide, Finalise, the access list operations of StateDB.
  \<^item> Staking_Ops: the staking operations of StateDB.  Staking_Refinement: each of them as an
    operation on the ledger.  Staking_Invariants, Staking_Rewards, Staking_Properties: what they
    keep and guarantee.
  \<^item> EVM_Context (core/evm.go), Handle_CSBT (HandleCSBT and Call), Snapshot_Undo and State_Runs
    (what reverting restores, over arbitrary runs of state changes), State_Transition and
    Transaction_Properties (ApplyMessage and what it calls).
  \<^item> Validator_Set (consensus/istanbul/validator), Ibft_Messages (messages, round state), Ibft_Core
    (every handler of consensus/istanbul/ibft/core), Ibft_Safety (the invariant of a node),
    Ibft_Network (a network with faulty nodes as a step relation), Ibft_Fork, Ibft_Priority.

  \<^bold>\<open>What is shown.\<close>
  \<^item> Staking: the operations of StateDB refine operations on the ledger and never panic.  HandleCSBT
    keeps both records of every pledge, pledged totals, the validator list and credit scores
    consistent and conserves tokens; a withdrawal, partial or full, pays exactly the amount without
    the penalty that the credit score demands; a leaving validator's backers are paid back; rewards
    are shared without loss; punished scores stay in range.
  \<^item> Reverting: RevertToSnapshot restores the ledger, refund counter, access list and journal after
    any run of state changes with nested snapshots; a failing call leaves the ledger unchanged,
    except for a rejected pledge that HandleCSBT has already booked, which is shown too.
  \<^item> Transactions: intrinsic gas without wrap-around, exact accounting of the gas pool, conservation
    of the total supply, and execution of every transaction that passes the checks, under stated
    assumptions on contract code.
  \<^item> Consensus: the validator set is canonical, the proposer rotates, two quorums meet in an honest
    node when the number of faulty nodes is small enough for the quorum in use, and then no two
    honest nodes decide different blocks at a height.  With eleven validators and three faulty ones
    a fork is constructed; a height can be abandoned because a COMMIT is sent once per height;
    the priorities of the backlog queues give the documented order below height 16777, where
    processing a backlog posts every message that can be handled; float32 priorities never reverse
    that order, but messages share priorities at every larger height from 33555 on.
  \<^item> Selection and data: the validator lottery draws distinct listed validators, the hand-written
    insertion sort is stable and correct, hexadecimal text, addresses, RLP integers and pledges
    survive round trips, Split accepts exactly the canonical encodings, CountValues always ends,
    and the encoding buffer produces the recursively defined encoding.

  \<^bold>\<open>Loops and bounds.\<close>  No definition uses fuel to cut off a loop of the sources.  Loops over slices
  recurse on the list, searches carry termination measures, and the loops of intsize and
  CountValues are partial functions whose termination is proved.  The RLP theorems assume inputs
  shorter than 2^64 bytes, which every Go slice is.

  \<^bold>\<open>Not modelled.\<close>  The bytecode interpreter with its precompiled contracts, contract creation,
  contract code and storage slots, logs and preimages: they form the parameter of Call and do not
  touch pledges.  The Merkle trie, databases, snapshot trees, chain and block import, transaction
  pool, genesis tables, networking, RPC, key stores, wallets, commands and tooling: input and
  output, caches and concurrency around the modelled operations.  Clique and ethash do not run on
  this chain.  Reflection in rlp, the decoding Stream and the marshalling methods of common/types.go.
  Cryptographic primitives are parameters.
\<close>

text \<open>
  C31.  Whatever is pledged can be taken back: on a ledger whose entries are positive and have
  distinct addresses, adding a positive pledge with AddStakerPledge and removing the same amount
  with RemoveStakerPledge leaves every address with the balance it had.
\<close>
theorem staker_pledge_roundtrip:
  assumes "sel_wf l" "\<And>a. sel_IsExist l a \<Longrightarrow> 0 < sel_GetBalance l a" "0 < b"
  shows "sel_GetBalance (snd (sel_RemoveStakerPledge (snd (sel_AddStakerPledge l a b n)) a b)) a' =
    sel_GetBalance l a'"
  using assms by (intro sel.remove_add(1)) (auto simp: sel.solvent_def)

theorem staker_pledge_roundtrip_witness:
  "sel_GetBalance (snd (sel_RemoveStakerPledge
     (snd (sel_AddStakerPledge [NewStakerPledge 7 100 1] 9 50 2)) 9 50)) 7 = 100"
  using staker_pledge_roundtrip [of "[NewStakerPledge 7 100 1]" 50 9 2 7]
  by (simp add: sel_wf_def sel_IsExist_def sel_GetBalance_def NewStakerPledge_def
    split: if_splits)

end
